(* ===== verification/Grpc_Prelude.thy ===== *)
theory Grpc_Prelude
  imports Main "HOL-Library.Word" "HOL-Library.Monad_Syntax" "HOL-Library.Multiset"
begin

text \<open>
  Shared vocabulary of the development: machine words and pointers, the return
  codes of nginx, byte strings, the collections of simplification rules the
  component theories fill, and the generic lemmas on words, lists and options
  they use.

  Conventions.  A C pointer and a C \<^verbatim>\<open>uint64_t\<close> are both 64-bit words
  (the module requires a 64-bit machine), so that the casts
  \<^verbatim>\<open>(uint64_t) sctx\<close> and \<^verbatim>\<open>(ngx_grpc_cli_stream_ctx_t *) res->task_id\<close> of
  the source are identities; \<open>NULL\<close> is 0.  An operation that can dereference
  memory returns an option: \<open>None\<close> is undefined behaviour (a dereference of
  memory that is not live, a double free), a failed \<^verbatim>\<open>assert\<close>, or a Go panic
  that nothing recovers.  Error returns of the source are ordinary values.
\<close>

unbundle bit_operations_syntax

type_synonym u64 = "64 word"
type_synonym addr = "64 word"
type_synonym byte = "8 word"
type_synonym bytes = "8 word list"

abbreviation (input) NULL :: addr where
  "NULL \<equiv> 0"

abbreviation (input) NGX_OK :: int where
  "NGX_OK \<equiv> 0"

abbreviation (input) NGX_ERROR :: int where
  "NGX_ERROR \<equiv> - 1"

abbreviation (input) NGX_AGAIN :: int where
  "NGX_AGAIN \<equiv> - 2"

abbreviation (input) NGX_DONE :: int where
  "NGX_DONE \<equiv> - 4"

text \<open>Text and raw bytes: a Go or Lua string is a sequence of bytes.\<close>

definition bytes_of :: "string \<Rightarrow> bytes" where
  "bytes_of s = map of_char s"

definition string_of :: "bytes \<Rightarrow> string" where
  "string_of bs = map (\<lambda>b. char_of (unat b)) bs"

text \<open>The verb \<^verbatim>\<open>%d\<close> of \<^verbatim>\<open>fmt\<close>.\<close>

fun dec_nat :: "nat \<Rightarrow> string" where
  "dec_nat n = (if n < 10 then [char_of (48 + n)] else dec_nat (n div 10) @ [char_of (48 + n mod 10)])"

declare dec_nat.simps [simp del]

definition show_int :: "int \<Rightarrow> string" where
  "show_int i = (if i < 0 then ''-'' @ dec_nat (nat (- i)) else dec_nat (nat i))"

text \<open>The blocks of the C heap that the engine allocates with \<^verbatim>\<open>C.CBytes\<close>.\<close>

type_synonym heap = "addr \<rightharpoonup> bytes"

named_theorems wsel \<open>what an operation leaves unchanged of the worker state\<close>
named_theorems go_simps \<open>definitions of the Go engine, for unfolding\<close>
named_theorems cli_simps \<open>definitions of the C module, for unfolding\<close>

definition guard :: "bool \<Rightarrow> unit option" where
  "guard b = (if b then Some () else None)"

text \<open>The addresses that an answer sequence of the allocator really provides.\<close>

definition fresh_alloc :: "addr set \<Rightarrow> (nat \<Rightarrow> addr) \<Rightarrow> bool" where
  "fresh_alloc live al \<longleftrightarrow>
     (\<forall>i. al i \<noteq> NULL \<longrightarrow> al i \<notin> live \<and> (\<forall>j. al j = al i \<longrightarrow> j = i))"

subsection \<open>Options\<close>

lemma guard_simps [simp]:
  "guard True = Some ()" "guard False = None"
  by (simp_all add: guard_def)

lemma guard_eq_Some_iff [simp]: "guard b = Some u \<longleftrightarrow> b"
  by (simp add: guard_def)

lemma bind_guard_eq_Some_iff [simp]:
  "Option.bind (guard b) f = Some y \<longleftrightarrow> b \<and> f () = Some y"
  by (cases b) simp_all

lemma bind_guard_eq_None_iff [simp]:
  "Option.bind (guard b) f = None \<longleftrightarrow> (b \<longrightarrow> f () = None)"
  by (cases b) simp_all

lemma fresh_allocD:
  assumes "fresh_alloc live al" and "al i \<noteq> NULL"
  shows "al i \<notin> live" and "al j = al i \<Longrightarrow> j = i"
  using assms by (auto simp: fresh_alloc_def)

lemma length_bytes_of [simp]: "length (bytes_of s) = length s"
  by (simp add: bytes_of_def)

lemma of_char_unat_byte [simp]: "char_of (unat (of_char c :: byte)) = c"
proof -
  have "(of_char c :: byte) = of_nat (of_char c)" by (simp add: of_nat_of_char)
  then have "unat (of_char c :: byte) = take_bit 8 (of_char c :: nat)"
    by (simp add: unat_of_nat take_bit_eq_mod)
  also have "\<dots> = of_char c" by (simp add: take_bit_eq_mod)
  finally show ?thesis by simp
qed

lemma string_of_bytes_of [simp]: "string_of (bytes_of s) = s"
  by (simp add: string_of_def bytes_of_def comp_def map_idI)

subsection \<open>Lists\<close>

lemma last_conv_butlast: "xs \<noteq> [] \<Longrightarrow> xs = butlast xs @ [last xs]"
  by simp

lemma remove1_last: "distinct xs \<Longrightarrow> xs \<noteq> [] \<Longrightarrow> remove1 (last xs) xs = butlast xs"
  by (induction xs) auto

lemma distinct_butlast_last:
  "distinct xs \<Longrightarrow> xs \<noteq> [] \<Longrightarrow> last xs \<notin> set (butlast xs)"
  by (metis append_butlast_last_id distinct_butlast not_distinct_conv_prefix)

lemma set_butlast_subset: "x \<in> set (butlast xs) \<Longrightarrow> x \<in> set xs"
  by (rule in_set_butlastD)

subsection \<open>Words\<close>

text \<open>Shifting right by three and left again clears the three low bits.\<close>

lemma shift_clears_low_bits:
  "push_bit 3 (signed_drop_bit 3 w) = w AND NOT (7 :: u64)"
proof -
  have m: "(7 :: u64) = mask 3" by (simp add: mask_eq_exp_minus_1)
  show ?thesis unfolding m
  proof (rule bit_word_eqI)
    fix n assume "n < LENGTH(64)"
    then show "bit (push_bit 3 (signed_drop_bit 3 w)) n = bit (w AND NOT (mask 3 :: u64)) n"
      by (auto simp: bit_simps simp del: mask_numeral)
  qed
qed

end
