(* ===== verification/Ngx_Api.thy ===== *)
theory Ngx_Api
  imports Grpc_Prelude
begin

text \<open>
  The parts of the nginx core the module calls and that are not part of this
  repository: intrusive queues (\<^verbatim>\<open>ngx_queue_t\<close>), the red-black tree
  (\<^verbatim>\<open>ngx_rbtree_t\<close>), timers on events and \<^verbatim>\<open>ngx_snprintf\<close>.  They are
  parameters of the model, collected in the record \<open>ngx_api\<close>.  What the module
  relies on, the documented behaviour of these calls, is the content of the
  locales \<open>ngx_queue_laws\<close>, \<open>ngx_rbtree_laws\<close> and \<open>ngx_laws\<close>.  The queue laws
  are guarded: nginx promises nothing when a link is inserted twice or removed
  while it is in no queue, so every use in the module has to be shown correct.

  The queue memory is described by what it links: for each head the list of the
  links behind it, first to last.  The tree is described by its nodes, in the
  layout \<^verbatim>\<open>ngx_grpc_cli_lookup_task\<close> walks.
\<close>

subsection \<open>Queues, trees, events\<close>

text \<open>
  The \<^verbatim>\<open>ngx_queue_t\<close> members of the structures of \<^verbatim>\<open>ngx_grpc_client.c\<close>: the heads
  \<^verbatim>\<open>ctx->free\<close>, \<^verbatim>\<open>ctx->opening\<close>, \<^verbatim>\<open>thctx->free\<close>, \<^verbatim>\<open>thctx->occupied\<close>, and the links
  \<^verbatim>\<open>sctx->queue\<close> and \<^verbatim>\<open>posted_event_ctx->queue\<close>.
\<close>

datatype link =
    CtxFree addr | CtxOpening addr | ThFree | ThOccupied
  | SctxQueue addr | PctxQueue addr

type_synonym queues = "link \<Rightarrow> link list"

datatype rbtree =
    Sentinel
  | RbNode (rb_left: rbtree) (rb_node: addr) (rb_key: u64) (rb_right: rbtree)

datatype event_handler = NoHandler | TimeoutHandler | ForeignHandler

record ngx_event =
  ev_handler :: event_handler
  ev_data :: addr
  ev_timer_set :: bool
  ev_timer :: u64

record ngx_api =
  queue_init :: "link \<Rightarrow> queues \<Rightarrow> queues"
  queue_empty :: "link \<Rightarrow> queues \<Rightarrow> bool"
  queue_head :: "link \<Rightarrow> queues \<Rightarrow> link"
  queue_last :: "link \<Rightarrow> queues \<Rightarrow> link"
  queue_insert_head :: "link \<Rightarrow> link \<Rightarrow> queues \<Rightarrow> queues"
  queue_insert_tail :: "link \<Rightarrow> link \<Rightarrow> queues \<Rightarrow> queues"
  queue_remove :: "link \<Rightarrow> queues \<Rightarrow> queues"
  rbtree_insert :: "addr \<Rightarrow> u64 \<Rightarrow> rbtree \<Rightarrow> rbtree"
  rbtree_delete :: "addr \<Rightarrow> rbtree \<Rightarrow> rbtree"
  add_timer :: "ngx_event \<Rightarrow> u64 \<Rightarrow> ngx_event"
  del_timer :: "ngx_event \<Rightarrow> ngx_event"
  snprintf :: "nat \<Rightarrow> string \<Rightarrow> string"

fun rb_inorder :: "rbtree \<Rightarrow> (addr \<times> u64) list" where
  "rb_inorder Sentinel = []"
| "rb_inorder (RbNode l n k r) = rb_inorder l @ (n, k) # rb_inorder r"

text \<open>
  The search order, and that no node is linked twice: nodes of a tree are memory
  cells, so two of them never have one address.
\<close>

definition rb_sorted :: "rbtree \<Rightarrow> bool" where
  "rb_sorted t \<longleftrightarrow> sorted (map snd (rb_inorder t)) \<and> distinct (map fst (rb_inorder t))"

definition rb_nodes :: "rbtree \<Rightarrow> (addr \<times> u64) set" where
  "rb_nodes t = set (rb_inorder t)"

definition linked :: "link \<Rightarrow> queues \<Rightarrow> bool" where
  "linked x qs \<longleftrightarrow> (\<exists>h. x \<in> set (qs h))"

definition linked_only_at :: "link \<Rightarrow> link \<Rightarrow> queues \<Rightarrow> bool" where
  "linked_only_at h x qs \<longleftrightarrow>
     x \<in> set (qs h) \<and> distinct (qs h) \<and> (\<forall>h'. x \<in> set (qs h') \<longrightarrow> h' = h)"

subsection \<open>What the module relies on\<close>

locale ngx_queue_laws =
  fixes N :: ngx_api
  assumes queue_init: "queue_init N h qs = qs(h := [])"
    and queue_empty: "queue_empty N h qs \<longleftrightarrow> qs h = []"
    and queue_head: "qs h \<noteq> [] \<Longrightarrow> queue_head N h qs = hd (qs h)"
    and queue_last: "qs h \<noteq> [] \<Longrightarrow> queue_last N h qs = last (qs h)"
    and queue_insert_head:
      "\<not> linked x qs \<Longrightarrow> queue_insert_head N h x qs = qs(h := x # qs h)"
    and queue_insert_tail:
      "\<not> linked x qs \<Longrightarrow> queue_insert_tail N h x qs = qs(h := qs h @ [x])"
    and queue_remove:
      "linked_only_at h x qs \<Longrightarrow> queue_remove N x qs = qs(h := remove1 x (qs h))"

locale ngx_rbtree_laws =
  fixes N :: ngx_api
  assumes rbtree_insert:
      "rb_sorted t \<Longrightarrow> n \<notin> fst ` rb_nodes t \<Longrightarrow>
       rb_sorted (rbtree_insert N n k t) \<and>
       rb_nodes (rbtree_insert N n k t) = insert (n, k) (rb_nodes t)"
    and rbtree_delete:
      "rb_sorted t \<Longrightarrow> (n, k) \<in> rb_nodes t \<Longrightarrow>
       rb_sorted (rbtree_delete N n t) \<and>
       rb_nodes (rbtree_delete N n t) = rb_nodes t - {(n, k)}"

locale ngx_laws = ngx_queue_laws N + ngx_rbtree_laws N for N :: ngx_api +
  assumes add_timer: "add_timer N ev t = ev\<lparr>ev_timer_set := True, ev_timer := t\<rparr>"
    and del_timer: "del_timer N ev = ev\<lparr>ev_timer_set := False\<rparr>"
    and snprintf: "snprintf N n s = take n s"

subsection \<open>An implementation of the interface\<close>

text \<open>
  The laws can be met: queues as lists, an unbalanced search tree that inserts
  where \<^verbatim>\<open>ngx_rbtree_insert_value\<close> does (equal keys to the right).
\<close>

fun tree_insert :: "addr \<Rightarrow> u64 \<Rightarrow> rbtree \<Rightarrow> rbtree" where
  "tree_insert n k Sentinel = RbNode Sentinel n k Sentinel"
| "tree_insert n k (RbNode l m j r) =
     (if k < j then RbNode (tree_insert n k l) m j r
      else RbNode l m j (tree_insert n k r))"

fun tree_join :: "rbtree \<Rightarrow> rbtree \<Rightarrow> rbtree" where
  "tree_join Sentinel t = t"
| "tree_join (RbNode l n k r) t = RbNode l n k (tree_join r t)"

fun tree_delete :: "addr \<Rightarrow> rbtree \<Rightarrow> rbtree" where
  "tree_delete n Sentinel = Sentinel"
| "tree_delete n (RbNode l m k r) =
     (if n = m then tree_join l r
      else RbNode (tree_delete n l) m k (tree_delete n r))"

definition list_api :: ngx_api where
  "list_api = \<lparr>
     queue_init = (\<lambda>h qs. qs(h := [])),
     queue_empty = (\<lambda>h qs. qs h = []),
     queue_head = (\<lambda>h qs. hd (qs h)),
     queue_last = (\<lambda>h qs. last (qs h)),
     queue_insert_head = (\<lambda>h x qs. qs(h := x # qs h)),
     queue_insert_tail = (\<lambda>h x qs. qs(h := qs h @ [x])),
     queue_remove = (\<lambda>x qs h. remove1 x (qs h)),
     rbtree_insert = tree_insert,
     rbtree_delete = tree_delete,
     add_timer = (\<lambda>ev t. ev\<lparr>ev_timer_set := True, ev_timer := t\<rparr>),
     del_timer = (\<lambda>ev. ev\<lparr>ev_timer_set := False\<rparr>),
     snprintf = (\<lambda>n s. take n s)\<rparr>"

subsection \<open>Consequences of the laws\<close>

lemma rb_sorted_simps [simp]:
  "rb_sorted Sentinel" "rb_nodes Sentinel = {}"
  by (simp_all add: rb_sorted_def rb_nodes_def)

lemma rb_nodes_finite [simp]: "finite (rb_nodes t)"
  by (simp add: rb_nodes_def)

lemma rb_sorted_node:
  "rb_sorted (RbNode l n k r) \<longleftrightarrow>
     rb_sorted l \<and> rb_sorted r \<and>
     (\<forall>p\<in>rb_nodes l. snd p \<le> k) \<and> (\<forall>p\<in>rb_nodes r. k \<le> snd p) \<and>
     n \<notin> fst ` rb_nodes l \<and> n \<notin> fst ` rb_nodes r \<and>
     fst ` rb_nodes l \<inter> fst ` rb_nodes r = {}"
  unfolding rb_sorted_def rb_nodes_def by (auto simp: sorted_append intro: order_trans)

lemma rb_nodes_node:
  "rb_nodes (RbNode l n k r) = insert (n, k) (rb_nodes l \<union> rb_nodes r)"
  by (auto simp: rb_nodes_def)

lemma card_rb_nodes: "rb_sorted t \<Longrightarrow> card (rb_nodes t) = length (rb_inorder t)"
  unfolding rb_sorted_def rb_nodes_def
  by (metis distinct_card distinct_map)

lemma rb_node_unique:
  "rb_sorted t \<Longrightarrow> (n, k) \<in> rb_nodes t \<Longrightarrow> (n, j) \<in> rb_nodes t \<Longrightarrow> j = k"
  unfolding rb_sorted_def rb_nodes_def by (metis eq_key_imp_eq_value)

lemma linked_upd [simp]:
  "linked x (qs(h := xs)) \<longleftrightarrow> x \<in> set xs \<or> (\<exists>h'. h' \<noteq> h \<and> x \<in> set (qs h'))"
  by (auto simp: linked_def)

subsection \<open>The implementation meets the laws\<close>

lemma tree_insert_nodes: "rb_nodes (tree_insert n k t) = insert (n, k) (rb_nodes t)"
  by (induction t) (auto simp: rb_nodes_node)

lemma tree_insert_sorted:
  "rb_sorted t \<Longrightarrow> n \<notin> fst ` rb_nodes t \<Longrightarrow> rb_sorted (tree_insert n k t)"
proof (induction t)
  case Sentinel
  then show ?case by (simp add: rb_sorted_node)
next
  case (RbNode l m j r)
  have fresh: "n \<notin> fst ` rb_nodes l" "n \<notin> fst ` rb_nodes r" "n \<noteq> m"
    using RbNode.prems(2) by (auto simp: rb_nodes_node)
  have "rb_sorted l" "rb_sorted r"
    using RbNode.prems(1) by (auto simp: rb_sorted_node)
  with RbNode.IH fresh have "rb_sorted (tree_insert n k l)" "rb_sorted (tree_insert n k r)"
    by blast+
  then show ?case
    using RbNode.prems(1) fresh
    by (auto simp: rb_sorted_node tree_insert_nodes; force)
qed

lemma tree_join_inorder: "rb_inorder (tree_join l r) = rb_inorder l @ rb_inorder r"
  by (induction l r rule: tree_join.induct) auto

lemma tree_delete_inorder:
  "rb_inorder (tree_delete n t) = filter (\<lambda>(m, k). m \<noteq> n) (rb_inorder t)"
  if "distinct (map fst (rb_inorder t))"
  using that
proof (induction t)
  case Sentinel
  then show ?case by simp
next
  case (RbNode l m k r)
  have keep: "filter (\<lambda>(a, b). a \<noteq> n) xs = xs" if "n \<notin> fst ` set xs" for xs :: "(addr \<times> u64) list"
    using that by (force intro!: filter_True)
  show ?case
  proof (cases "n = m")
    case True
    with RbNode.prems have "n \<notin> fst ` set (rb_inorder l)" "n \<notin> fst ` set (rb_inorder r)"
      by auto
    then show ?thesis using True keep by (simp add: tree_join_inorder)
  next
    case False
    with RbNode show ?thesis by auto
  qed
qed

lemma tree_delete_sorted:
  assumes "rb_sorted t"
  shows "rb_sorted (tree_delete n t)"
proof -
  have "distinct (map fst (rb_inorder t))" using assms by (simp add: rb_sorted_def)
  then show ?thesis
    using assms by (auto simp: rb_sorted_def tree_delete_inorder distinct_map_filter sorted_filter)
qed

lemma tree_delete_nodes:
  assumes "rb_sorted t" and "(n, k) \<in> rb_nodes t"
  shows "rb_nodes (tree_delete n t) = rb_nodes t - {(n, k)}"
proof -
  have "distinct (map fst (rb_inorder t))" using assms(1) by (simp add: rb_sorted_def)
  then have "rb_nodes (tree_delete n t) = {(m, j) \<in> rb_nodes t. m \<noteq> n}"
    by (auto simp: rb_nodes_def tree_delete_inorder)
  also have "\<dots> = rb_nodes t - {(n, k)}"
    using rb_node_unique [OF assms] by auto
  finally show ?thesis .
qed

interpretation list_api: ngx_laws list_api
proof (unfold_locales, goal_cases)
  case (7 h x qs)
  have "x \<notin> set (qs h')" if "h' \<noteq> h" for h'
    using 7 that by (auto simp: linked_only_at_def)
  then show ?case by (auto simp: list_api_def remove1_idem)
qed (simp_all add: list_api_def hd_conv_nth tree_insert_sorted tree_insert_nodes
       tree_delete_sorted tree_delete_nodes)

lemma list_api_laws: "ngx_laws list_api"
  by (rule list_api.ngx_laws_axioms)

end
