(* ===== verification/Grpc_Conn.thy ===== *)
theory Grpc_Conn
  imports Grpc_Prelude
begin

text \<open>
  \<^verbatim>\<open>grpc-engine/conn/grpc.go\<close> and \<^verbatim>\<open>proto.go\<close>: connection options, unary calls and
  streams on top of grpc-go.  The grpc-go library, the TLS loader and the file
  system are parameters, the record \<open>grpc_lib\<close>: what each call answers.  Operations
  on a stream also return the library calls they made, in order, so that the
  half-close behaviour can be stated.
\<close>

subsection \<open>Parameters: what the library answers\<close>

type_synonym go_error = string

text \<open>A Go call returns or panics; a panic leaves the functions it unwinds.\<close>

datatype 'a outcome = Returns 'a | Panics string

primrec and_then :: "'a outcome \<Rightarrow> ('a \<Rightarrow> 'b outcome) \<Rightarrow> 'b outcome" where
  "and_then (Returns x) f = f x"
| "and_then (Panics r) f = Panics r"

record tls_config =
  InsecureSkipVerify :: bool
  RootCAs :: "bytes option"
  Certificates :: "nat list"

datatype credential = InsecureCredentials | NewTLS tls_config

datatype dial_option =
    WithTimeout int
  | WithMaxMsgSize int
  | WithTransportCredentials credential

text \<open>An outgoing context: the metadata pairs and the timeout, in nanoseconds.\<close>

record go_context =
  ctx_pairs :: "string list"
  ctx_timeout :: "u64 option"

record grpc_lib =
  Dial :: "string \<Rightarrow> dial_option list \<Rightarrow> (go_error + nat) outcome"
  LoadX509KeyPair :: "string \<Rightarrow> string \<Rightarrow> go_error + nat"
  ReadFile :: "string \<Rightarrow> go_error + bytes"
  AppendCertsFromPEM :: "bytes \<Rightarrow> bool"
  Invoke :: "nat \<Rightarrow> go_context \<Rightarrow> string \<Rightarrow> bytes \<Rightarrow> (go_error + bytes) outcome"
  lib_NewStream :: "nat \<Rightarrow> go_context \<Rightarrow> bool \<Rightarrow> bool \<Rightarrow> string \<Rightarrow> (go_error + nat) outcome"
  lib_SendMsg :: "nat \<Rightarrow> bytes \<Rightarrow> go_error option outcome"
  lib_CloseSend :: "nat \<Rightarrow> go_error option outcome"
  lib_RecvMsg :: "nat \<Rightarrow> (go_error + bytes) outcome"
  debug_Stack :: string

subsection \<open>The codec and its buffer (proto.go)\<close>

text \<open>
  A Go byte slice is \<open>None\<close> when it is nil.  \<^verbatim>\<open>bytes.Buffer\<close> starts with a nil
  slice; writing zero bytes to it reslices the nil slice, which stays nil.
\<close>

definition Buffer_Write :: "bytes \<Rightarrow> bytes option \<Rightarrow> bytes option" where
  "Buffer_Write data buf =
     (case buf of
        None \<Rightarrow> if data = [] then None else Some data
      | Some b \<Rightarrow> Some (b @ data))"

datatype go_any = AnyBytes bytes | AnyBuffer "bytes option" | AnyOther string

definition codec_Marshal :: "go_any \<Rightarrow> go_error + bytes" where
  "codec_Marshal v =
     (case v of
        AnyBytes vv \<Rightarrow> Inr vv
      | AnyBuffer _ \<Rightarrow> Inl (''failed to marshal, message is *bytes.Buffer, want []byte'')
      | AnyOther t \<Rightarrow> Inl (''failed to marshal, message is '' @ t @ '', want []byte''))"

definition codec_Unmarshal :: "bytes \<Rightarrow> go_any \<Rightarrow> go_error + go_any" where
  "codec_Unmarshal data v =
     (case v of
        AnyBuffer vv \<Rightarrow> Inr (AnyBuffer (Buffer_Write data vv))
      | AnyBytes _ \<Rightarrow> Inl (''failed to unmarshal, message is []uint8, want *bytes.Buffer'')
      | AnyOther t \<Rightarrow> Inl (''failed to unmarshal, message is '' @ t @ '', want *bytes.Buffer''))"

text \<open>The message the library hands to the codec, as the reader of \<^verbatim>\<open>out.Bytes()\<close> sees it.\<close>

definition decode_reply :: "bytes \<Rightarrow> go_error + bytes option" where
  "decode_reply data =
     (case codec_Unmarshal data (AnyBuffer None) of
        Inr (AnyBuffer out) \<Rightarrow> Inr out
      | Inr _ \<Rightarrow> Inr None
      | Inl err \<Rightarrow> Inl err)"

subsection \<open>Connections\<close>

record ConnectOption =
  Insecure :: bool
  TLSVerify :: bool
  MaxRecvMsgSize :: int
  ClientCertFile :: string
  ClientKeyFile :: string
  TrustedCA :: string

record CallOption =
  Timeout :: u64
  Metadata :: "string list"

text \<open>The branch of \<^verbatim>\<open>Connect\<close> that loads the client certificate and the trusted CA.\<close>

definition load_client_cert :: "grpc_lib \<Rightarrow> ConnectOption \<Rightarrow> tls_config \<Rightarrow> go_error + tls_config" where
  "load_client_cert G opt tc =
     (if ClientCertFile opt \<noteq> [] \<and> ClientKeyFile opt \<noteq> []
      then (case LoadX509KeyPair G (ClientCertFile opt) (ClientKeyFile opt) of
              Inl err \<Rightarrow> Inl err
            | Inr tlsCert \<Rightarrow>
                (if TrustedCA opt \<noteq> []
                 then (case ReadFile G (TrustedCA opt) of
                         Inl err \<Rightarrow> Inl err
                       | Inr trustedCA \<Rightarrow>
                           (if \<not> AppendCertsFromPEM G trustedCA
                            then Inl (''failed to append trusted certificate to certificate pool. ''
                                      @ string_of trustedCA)
                            else Inr (tc\<lparr>RootCAs := Some trustedCA, Certificates := [tlsCert]\<rparr>)))
                 else Inr (tc\<lparr>Certificates := [tlsCert]\<rparr>)))
      else Inr tc)"

definition Connect :: "grpc_lib \<Rightarrow> string \<Rightarrow> ConnectOption \<Rightarrow> (go_error + nat) outcome" where
  "Connect G target opt =
     (let opts = [WithTimeout (60 * 1000000000)];
          opts = (if MaxRecvMsgSize opt \<noteq> 0 then opts @ [WithMaxMsgSize (MaxRecvMsgSize opt)] else opts)
      in if Insecure opt
         then Dial G target (opts @ [WithTransportCredentials InsecureCredentials])
         else
           let tc = \<lparr>InsecureSkipVerify = False, RootCAs = None, Certificates = []\<rparr>;
               tc = (if \<not> TLSVerify opt then tc\<lparr>InsecureSkipVerify := True\<rparr> else tc)
           in case load_client_cert G opt tc of
                Inl err \<Rightarrow> Returns (Inl err)
              | Inr tc \<Rightarrow> Dial G target (opts @ [WithTransportCredentials (NewTLS tc)]))"

subsection \<open>Unary calls\<close>

text \<open>\<^verbatim>\<open>time.Duration\<close> is a signed 64-bit integer: the comparison with 0 is signed.\<close>

definition with_timeout :: "u64 \<Rightarrow> go_context \<Rightarrow> go_context" where
  "with_timeout t ctx = (if 0 < sint t then ctx\<lparr>ctx_timeout := Some t\<rparr> else ctx)"

definition createCtxWithMd :: "string list \<Rightarrow> go_context" where
  "createCtxWithMd pairs = \<lparr>ctx_pairs = pairs, ctx_timeout = None\<rparr>"

definition Call ::
  "grpc_lib \<Rightarrow> nat \<Rightarrow> string \<Rightarrow> bytes \<Rightarrow> CallOption \<Rightarrow> (bytes option \<times> go_error option) outcome"
where
  "Call G c method req opt =
     (let ctx = with_timeout (Timeout opt) (createCtxWithMd (Metadata opt))
      in case codec_Marshal (AnyBytes req) of
           Inl err \<Rightarrow> Returns (None, Some err)
         | Inr wire \<Rightarrow>
             and_then (Invoke G c ctx method wire) (\<lambda>reply.
               case reply of
                 Inl err \<Rightarrow> Returns (None, Some err)
               | Inr data \<Rightarrow>
                  (case decode_reply data of
                     Inl err \<Rightarrow> Returns (None, Some err)
                   | Inr out \<Rightarrow> Returns (out, None))))"

subsection \<open>Streams\<close>

abbreviation (input) ClientStream :: int where
  "ClientStream \<equiv> 1"

abbreviation (input) ServerStream :: int where
  "ServerStream \<equiv> 2"

abbreviation (input) BidirectionalStream :: int where
  "BidirectionalStream \<equiv> 3"

record go_stream =
  st_cs :: nat
  st_cancel :: bool
  st_type :: int

datatype lib_call =
    LNewStream bool bool string
  | LSendMsg bytes
  | LCloseSend
  | LRecvMsg
  | LCancel

definition stream_desc :: "int \<Rightarrow> (bool \<times> bool) outcome" where
  "stream_desc streamType =
     (if streamType = ClientStream then Returns (True, False)
      else if streamType = ServerStream then Returns (False, True)
      else if streamType = BidirectionalStream then Returns (True, True)
      else Panics (''Unknown stream type: '' @ show_int streamType))"

text \<open>A call of the cancel function; it is nil when the timeout is not positive.\<close>

definition call_cancel :: "bool \<Rightarrow> go_error \<Rightarrow> (go_error + go_stream) outcome \<times> lib_call list" where
  "call_cancel has_cancel err =
     (if has_cancel then (Returns (Inl err), [LCancel])
      else (Panics ''invalid memory address or nil pointer dereference'', []))"

definition NewStream ::
  "grpc_lib \<Rightarrow> nat \<Rightarrow> string \<Rightarrow> bytes \<Rightarrow> CallOption \<Rightarrow> int
     \<Rightarrow> (go_error + go_stream) outcome \<times> lib_call list"
where
  "NewStream G c method req opt streamType =
     (let ctx = with_timeout (Timeout opt) (createCtxWithMd (Metadata opt));
          has_cancel = 0 < sint (Timeout opt)
      in case stream_desc streamType of
           Panics m \<Rightarrow> (Panics m, [])
         | Returns (cl, sv) \<Rightarrow>
           (case lib_NewStream G c ctx cl sv method of
              Panics m \<Rightarrow> (Panics m, [LNewStream cl sv method])
            | Returns (Inl err) \<Rightarrow> apsnd ((#) (LNewStream cl sv method)) (call_cancel has_cancel err)
            | Returns (Inr cs) \<Rightarrow>
              (case lib_SendMsg G cs req of
                 Panics m \<Rightarrow> (Panics m, [LNewStream cl sv method, LSendMsg req])
               | Returns (Some err) \<Rightarrow>
                   apsnd ((@) [LNewStream cl sv method, LSendMsg req]) (call_cancel has_cancel err)
               | Returns None \<Rightarrow>
                   if streamType = ServerStream
                   then (case lib_CloseSend G cs of
                           Panics m \<Rightarrow> (Panics m, [LNewStream cl sv method, LSendMsg req, LCloseSend])
                         | Returns (Some err) \<Rightarrow>
                             apsnd ((@) [LNewStream cl sv method, LSendMsg req, LCloseSend])
                               (call_cancel has_cancel err)
                         | Returns None \<Rightarrow>
                             (Returns (Inr \<lparr>st_cs = cs, st_cancel = has_cancel, st_type = streamType\<rparr>),
                              [LNewStream cl sv method, LSendMsg req, LCloseSend]))
                   else (Returns (Inr \<lparr>st_cs = cs, st_cancel = has_cancel, st_type = streamType\<rparr>),
                         [LNewStream cl sv method, LSendMsg req]))))"

text \<open>The part of \<^verbatim>\<open>Recv\<close> after the half close.\<close>

definition Stream_RecvMsg ::
  "grpc_lib \<Rightarrow> go_stream \<Rightarrow> (bytes option \<times> go_error option) outcome"
where
  "Stream_RecvMsg G s =
     and_then (lib_RecvMsg G (st_cs s)) (\<lambda>reply.
       case reply of
         Inl err \<Rightarrow> Returns (None, Some err)
       | Inr data \<Rightarrow>
           (case decode_reply data of Inl err \<Rightarrow> Returns (None, Some err) | Inr out \<Rightarrow> Returns (out, None)))"

definition Stream_Recv ::
  "grpc_lib \<Rightarrow> go_stream \<Rightarrow> (bytes option \<times> go_error option) outcome \<times> lib_call list"
where
  "Stream_Recv G s =
     (if st_type s = ClientStream
      then (case lib_CloseSend G (st_cs s) of
              Panics m \<Rightarrow> (Panics m, [LCloseSend])
            | Returns (Some err) \<Rightarrow> (Returns (None, Some err), [LCloseSend])
            | Returns None \<Rightarrow> (Stream_RecvMsg G s, [LCloseSend, LRecvMsg]))
      else (Stream_RecvMsg G s, [LRecvMsg]))"

definition Stream_Send :: "grpc_lib \<Rightarrow> go_stream \<Rightarrow> bytes \<Rightarrow> (bool \<times> go_error option) outcome" where
  "Stream_Send G s req =
     and_then (lib_SendMsg G (st_cs s) req)
       (\<lambda>e. case e of Some err \<Rightarrow> Returns (False, Some err) | None \<Rightarrow> Returns (True, None))"

definition Stream_CloseSend :: "grpc_lib \<Rightarrow> go_stream \<Rightarrow> (bool \<times> go_error option) outcome" where
  "Stream_CloseSend G s =
     and_then (lib_CloseSend G (st_cs s))
       (\<lambda>e. case e of Some err \<Rightarrow> Returns (False, Some err) | None \<Rightarrow> Returns (True, None))"

definition Stream_Close :: "go_stream \<Rightarrow> go_stream \<times> lib_call list" where
  "Stream_Close s = (if st_cancel s then (s\<lparr>st_cancel := False\<rparr>, [LCancel]) else (s, []))"

text \<open>A library in which every call succeeds with a fixed answer.\<close>

definition ok_lib :: grpc_lib where
  "ok_lib = \<lparr>Dial = (\<lambda>t opts. Returns (Inr (length opts))), LoadX509KeyPair = (\<lambda>c k. Inr 1),
     ReadFile = (\<lambda>f. Inr [1, 2, 3]), AppendCertsFromPEM = (\<lambda>b. True),
     Invoke = (\<lambda>c ctx m req. Returns (Inr req)), lib_NewStream = (\<lambda>c ctx cl sv m. Returns (Inr 5)),
     lib_SendMsg = (\<lambda>cs req. Returns None), lib_CloseSend = (\<lambda>cs. Returns None),
     lib_RecvMsg = (\<lambda>cs. Returns (Inr [7])), debug_Stack = ''stack''\<rparr>"

subsection \<open>Lemmas\<close>

lemmas conn_defs [go_simps] =
  Call_def NewStream_def Stream_Recv_def Stream_RecvMsg_def Stream_Send_def
  Stream_CloseSend_def Stream_Close_def call_cancel_def stream_desc_def

lemma decode_reply_eq: "decode_reply data = Inr (if data = [] then None else Some data)"
  by (simp add: decode_reply_def codec_Unmarshal_def Buffer_Write_def)

lemma Stream_RecvMsg_eq:
  "Stream_RecvMsg G s =
     (case lib_RecvMsg G (st_cs s) of
        Panics m \<Rightarrow> Panics m
      | Returns (Inl err) \<Rightarrow> Returns (None, Some err)
      | Returns (Inr data) \<Rightarrow> Returns (if data = [] then None else Some data, None))"
  by (simp add: Stream_RecvMsg_def decode_reply_eq split: outcome.split sum.split)

lemma call_cancel_not_stream [simp]:
  "apsnd f (call_cancel b err) \<noteq> (Returns (Inr s), calls)" "(Returns (Inr s), calls) \<noteq> apsnd f (call_cancel b err)"
  by (simp_all add: call_cancel_def)

lemma NewStream_Returns:
  assumes "NewStream G c method req opt ty = (Returns (Inr s), calls)"
  shows "calls = [LNewStream (ty \<noteq> ServerStream) (ty \<noteq> ClientStream) method, LSendMsg req]
                   @ (if ty = ServerStream then [LCloseSend] else [])"
    "ty \<in> {ClientStream, ServerStream, BidirectionalStream}" "st_type s = ty"
    "st_cancel s \<longleftrightarrow> 0 < sint (Timeout opt)"
proof -
  obtain cl sv where d: "stream_desc ty = Returns (cl, sv)"
    using assms by (cases "stream_desc ty") (auto simp: NewStream_def)
  then have ty: "ty \<in> {ClientStream, ServerStream, BidirectionalStream}" "cl = (ty \<noteq> ServerStream)"
    "sv = (ty \<noteq> ClientStream)"
    by (auto simp: stream_desc_def split: if_splits)
  define ctx where "ctx = with_timeout (Timeout opt) (createCtxWithMd (Metadata opt))"
  note run = assms [unfolded NewStream_def Let_def d outcome.case prod.case, folded ctx_def]
  obtain cs where n: "lib_NewStream G c ctx cl sv method = Returns (Inr cs)"
    using run by (auto split: outcome.splits sum.splits)
  note run1 = run [unfolded n outcome.case sum.case]
  have m: "lib_SendMsg G cs req = Returns None"
    using run1 by (cases "lib_SendMsg G cs req") (auto split: option.splits)
  note run2 = run1 [unfolded m outcome.case option.case]
  have "lib_CloseSend G cs = Returns None" if "ty = ServerStream"
    using run2 that by (cases "lib_CloseSend G cs") (auto split: option.splits)
  then have run3: "s = \<lparr>st_cs = cs, st_cancel = 0 < sint (Timeout opt), st_type = ty\<rparr>"
    "calls = [LNewStream cl sv method, LSendMsg req] @ (if ty = ServerStream then [LCloseSend] else [])"
    using run2 by (auto split: if_splits)
  with ty show "calls = [LNewStream (ty \<noteq> ServerStream) (ty \<noteq> ClientStream) method, LSendMsg req]
                   @ (if ty = ServerStream then [LCloseSend] else [])"
    "ty \<in> {ClientStream, ServerStream, BidirectionalStream}" "st_type s = ty"
    "st_cancel s \<longleftrightarrow> 0 < sint (Timeout opt)"
    by simp_all
qed

subsection \<open>Properties\<close>

text \<open>C39. The trusted CA is only used together with a client certificate: on a TLS connection without a client
  certificate and key, \<^verbatim>\<open>Connect\<close> behaves as if \<^verbatim>\<open>trusted_ca\<close> had not been given (the file is not
  even read), whatever the library answers.\<close>

theorem trusted_ca_needs_client_cert:
  assumes "ClientCertFile opt = [] \<or> ClientKeyFile opt = []"
  shows "Connect G target opt = Connect G target (opt\<lparr>TrustedCA := ca\<rparr>)"
  using assms by (auto simp: Connect_def load_client_cert_def Let_def)

theorem trusted_ca_needs_client_cert_witness:
  "Connect ok_lib ''localhost:50051''
     \<lparr>Insecure = False, TLSVerify = True, MaxRecvMsgSize = 0, ClientCertFile = [], ClientKeyFile = [], TrustedCA = ''ca.pem''\<rparr> =
   Connect ok_lib ''localhost:50051''
     \<lparr>Insecure = False, TLSVerify = True, MaxRecvMsgSize = 0, ClientCertFile = [], ClientKeyFile = [], TrustedCA = []\<rparr>"
  using trusted_ca_needs_client_cert [of
      "\<lparr>Insecure = False, TLSVerify = True, MaxRecvMsgSize = 0, ClientCertFile = [], ClientKeyFile = [], TrustedCA = ''ca.pem''\<rparr>"
      ok_lib "''localhost:50051''" "[]"]
  by simp

text \<open>C28. The protocol of a stream.  When \<^verbatim>\<open>NewStream\<close> succeeds it has opened the stream with the directions of its
  type, sent the first request, and half-closed exactly for a server stream, and the stream has a cancel
  function exactly when a positive timeout was given.  Reading from that stream, whatever the library then
  answers, half-closes first exactly for a client stream; when the half close fails or panics nothing is read
  and that outcome is returned, otherwise one message is read and its outcome returned, an empty one as nil.\<close>

theorem stream_protocol:
  assumes "NewStream G c method req opt ty = (Returns (Inr s), calls)"
  shows "calls = [LNewStream (ty \<noteq> ServerStream) (ty \<noteq> ClientStream) method, LSendMsg req]
                   @ (if ty = ServerStream then [LCloseSend] else []) \<and>
         ty \<in> {ClientStream, ServerStream, BidirectionalStream} \<and> st_type s = ty \<and>
         (st_cancel s \<longleftrightarrow> 0 < sint (Timeout opt)) \<and>
         Stream_Recv G' s =
           (case (if ty = ClientStream then lib_CloseSend G' (st_cs s) else Returns None) of
              Panics m \<Rightarrow> (Panics m, [LCloseSend])
            | Returns (Some err) \<Rightarrow> (Returns (None, Some err), [LCloseSend])
            | Returns None \<Rightarrow>
                ((case lib_RecvMsg G' (st_cs s) of
                    Panics m \<Rightarrow> Panics m
                  | Returns (Inl err) \<Rightarrow> Returns (None, Some err)
                  | Returns (Inr data) \<Rightarrow> Returns (if data = [] then None else Some data, None)),
                 (if ty = ClientStream then [LCloseSend] else []) @ [LRecvMsg]))"
proof -
  note st = NewStream_Returns(3) [OF assms]
  show ?thesis
    by (intro conjI NewStream_Returns [OF assms])
      (cases "lib_CloseSend G' (st_cs s)"; simp add: Stream_Recv_def st Stream_RecvMsg_eq split: option.split)
qed

theorem stream_protocol_witness:
  "NewStream ok_lib 0 ''/s/m'' [9] \<lparr>Timeout = 60000000000, Metadata = []\<rparr> ClientStream =
     (Returns (Inr \<lparr>st_cs = 5, st_cancel = True, st_type = 1\<rparr>), [LNewStream True False ''/s/m'', LSendMsg [9]]) \<and>
   Stream_Recv ok_lib \<lparr>st_cs = 5, st_cancel = True, st_type = 1\<rparr> =
     (Returns (Some [7], None), [LCloseSend, LRecvMsg]) \<and>
   Stream_Recv (ok_lib\<lparr>lib_CloseSend := \<lambda>_. Returns (Some ''closed'')\<rparr>) \<lparr>st_cs = 5, st_cancel = True, st_type = 1\<rparr> =
     (Returns (None, Some ''closed''), [LCloseSend])"
proof -
  have run: "NewStream ok_lib 0 ''/s/m'' [9] \<lparr>Timeout = 60000000000, Metadata = []\<rparr> ClientStream =
     (Returns (Inr \<lparr>st_cs = 5, st_cancel = True, st_type = 1\<rparr>), [LNewStream True False ''/s/m'', LSendMsg [9]])"
    by (simp add: NewStream_def stream_desc_def ok_lib_def Let_def)
  note recv = stream_protocol [OF run, THEN conjunct2, THEN conjunct2, THEN conjunct2, THEN conjunct2]
  have "Stream_Recv ok_lib \<lparr>st_cs = 5, st_cancel = True, st_type = 1\<rparr> =
     (Returns (Some [7], None), [LCloseSend, LRecvMsg])"
    "Stream_Recv (ok_lib\<lparr>lib_CloseSend := \<lambda>_. Returns (Some ''closed'')\<rparr>) \<lparr>st_cs = 5, st_cancel = True, st_type = 1\<rparr> =
     (Returns (None, Some ''closed''), [LCloseSend])"
    by (simp_all only: recv) (simp_all add: ok_lib_def)
  with run show ?thesis by blast
qed

end
