(* ===== verification/Task_Result.thy ===== *)
theory Task_Result
  imports Grpc_Prelude
begin

text \<open>
  The result record that crosses the language boundary: 24 bytes written by
  \<^verbatim>\<open>grpc-engine/task/task.go\<close> and read by the C module as
  \<^verbatim>\<open>ngx_grpc_cli_task_res_t\<close>.  The kind of a result travels in the three low bits
  of the buffer pointer, which are free because \<^verbatim>\<open>malloc\<close> aligns its blocks.
\<close>

subsection \<open>The C side\<close>

record ngx_grpc_cli_task_res =
  task_id :: u64
  res_size :: u64
  res_buf :: addr

abbreviation (input) NGX_GRPC_CLIENT_RES_TYPE_OK :: u64 where
  "NGX_GRPC_CLIENT_RES_TYPE_OK \<equiv> 0"

abbreviation (input) NGX_GRPC_CLIENT_RES_TYPE_ERR :: u64 where
  "NGX_GRPC_CLIENT_RES_TYPE_ERR \<equiv> 1"

abbreviation (input) NGX_GRPC_CLIENT_RES_TYPE_OK_NOT_RES :: u64 where
  "NGX_GRPC_CLIENT_RES_TYPE_OK_NOT_RES \<equiv> 2"

text \<open>\<^verbatim>\<open>(int64_t) (res->buf) & 7\<close> and \<^verbatim>\<open>(int64_t) (res->buf) >> 3 << 3\<close>.\<close>

definition res_type :: "addr \<Rightarrow> u64" where
  "res_type buf = buf AND 7"

definition res_untag :: "addr \<Rightarrow> addr" where
  "res_untag buf = push_bit 3 (signed_drop_bit 3 buf)"

subsection \<open>Byte order\<close>

datatype byte_order = LittleEndian | BigEndian

fun put_le :: "nat \<Rightarrow> u64 \<Rightarrow> bytes" where
  "put_le 0 w = []"
| "put_le (Suc n) w = ucast w # put_le n (drop_bit 8 w)"

fun get_le :: "bytes \<Rightarrow> u64" where
  "get_le [] = 0"
| "get_le (b # bs) = ucast b OR push_bit 8 (get_le bs)"

definition PutUint64 :: "byte_order \<Rightarrow> u64 \<Rightarrow> bytes" where
  "PutUint64 e w = (case e of LittleEndian \<Rightarrow> put_le 8 w | BigEndian \<Rightarrow> rev (put_le 8 w))"

text \<open>A load of a \<^verbatim>\<open>uint64_t\<close> by a machine with byte order \<open>e\<close>.\<close>

definition load_u64 :: "byte_order \<Rightarrow> bytes \<Rightarrow> u64" where
  "load_u64 e bs = (case e of LittleEndian \<Rightarrow> get_le bs | BigEndian \<Rightarrow> get_le (rev bs))"

text \<open>
  \<^verbatim>\<open>init\<close> of \<^verbatim>\<open>task.go\<close>: the machine (byte order \<open>host\<close>) stores the 16-bit value
  \<^verbatim>\<open>0xABCD\<close> and the code compares the two bytes; \<open>None\<close> is the panic.
\<close>

definition store_uint16 :: "byte_order \<Rightarrow> 16 word \<Rightarrow> bytes" where
  "store_uint16 host w =
     (case host of LittleEndian \<Rightarrow> [ucast w, ucast (drop_bit 8 w)]
      | BigEndian \<Rightarrow> [ucast (drop_bit 8 w), ucast w])"

definition hostEndian :: "byte_order \<Rightarrow> byte_order option" where
  "hostEndian host =
     (let buf = store_uint16 host 0xABCD
      in if buf = [0xCD, 0xAB] then Some LittleEndian
         else if buf = [0xAB, 0xCD] then Some BigEndian
         else None)"

subsection \<open>The array of results in memory\<close>

definition encode_task_res :: "byte_order \<Rightarrow> ngx_grpc_cli_task_res \<Rightarrow> bytes" where
  "encode_task_res e r =
     PutUint64 e (task_id r) @ PutUint64 e (res_size r) @ PutUint64 e (res_buf r)"

text \<open>
  \<^verbatim>\<open>finished_tasks[i]\<close>: the structure at offset \<^verbatim>\<open>24 * i\<close> of the block; \<open>None\<close> when
  the access leaves the block.
\<close>

definition read_task_res :: "byte_order \<Rightarrow> bytes \<Rightarrow> nat \<Rightarrow> ngx_grpc_cli_task_res option" where
  "read_task_res e block i =
     (let c = take 24 (drop (24 * i) block)
      in if length c = 24
         then Some \<lparr>task_id = load_u64 e (take 8 c),
                    res_size = load_u64 e (take 8 (drop 8 c)),
                    res_buf = load_u64 e (drop 16 c)\<rparr>
         else None)"

subsection \<open>Tags\<close>

lemma mask3: "(7 :: u64) = mask 3"
  by (simp add: mask_eq_exp_minus_1)

lemma res_untag_alt: "res_untag p = p AND NOT 7"
  by (simp add: res_untag_def shift_clears_low_bits)

lemma res_untag_aligned: "res_untag p AND 7 = 0"
  by (rule bit_word_eqI) (simp add: res_untag_alt bit_simps)

lemma res_untag_id: "p AND 7 = 0 \<Longrightarrow> res_untag p = p"
proof -
  assume "p AND 7 = 0"
  moreover have "p = (p AND NOT 7) OR (p AND 7)"
    by (rule bit_word_eqI) (auto simp: bit_simps)
  ultimately show ?thesis by (simp add: res_untag_alt)
qed

lemma tag_small: "t < 8 \<Longrightarrow> t AND 7 = (t :: u64)"
  unfolding mask3 take_bit_eq_mask [symmetric]
  by (simp add: take_bit_eq_mod unsigned_take_bit_eq word_less_nat_alt word_unat_eq_iff
      unat_mod_distrib
      del: take_bit_numeral_numeral)

lemma res_type_tagged:
  assumes "p AND 7 = 0" and "t < 8"
  shows "res_type (p OR t) = t"
proof -
  have "(p OR t) AND 7 = (p AND 7) OR (t AND 7)"
    by (rule bit_word_eqI) (auto simp: bit_simps)
  with assms show ?thesis by (simp add: res_type_def tag_small)
qed

lemma res_untag_tagged:
  assumes "p AND 7 = 0" and "t < 8"
  shows "res_untag (p OR t) = p"
proof -
  have "t AND NOT 7 = (t AND 7) AND NOT 7" using assms(2) by (simp add: tag_small)
  also have "\<dots> = 0" by (rule bit_word_eqI) (simp add: bit_simps)
  finally have t: "t AND NOT 7 = 0" .
  have "(p OR t) AND NOT 7 = (p AND NOT 7) OR (t AND NOT 7)"
    by (rule bit_word_eqI) (auto simp: bit_simps)
  with t res_untag_id [OF assms(1)] show ?thesis by (simp add: res_untag_alt)
qed

lemma res_type_bound: "res_type p < 8"
proof -
  have "res_type p \<le> 7" by (simp add: res_type_def word_and_le1)
  also have "(7 :: u64) < 8" by simp
  finally show ?thesis .
qed

subsection \<open>Bytes\<close>

lemma length_put_le [simp]: "length (put_le n w) = n"
  by (induction n arbitrary: w) auto

lemma length_PutUint64 [simp]: "length (PutUint64 e w) = 8"
  by (cases e) (simp_all add: PutUint64_def)

lemma length_encode_task_res [simp]: "length (encode_task_res e r) = 24"
  by (simp add: encode_task_res_def)

lemma get_put_le: "get_le (put_le n w) = take_bit (8 * n) w"
proof (induction n arbitrary: w)
  case 0
  then show ?case by simp
next
  case (Suc n)
  have "ucast (ucast w :: byte) OR push_bit 8 (take_bit (8 * n) (drop_bit 8 w)) =
        take_bit (8 * Suc n) w"
  proof (rule bit_word_eqI)
    fix m assume "m < LENGTH(64)"
    then show "bit (ucast (ucast w :: byte) OR push_bit 8 (take_bit (8 * n) (drop_bit 8 w))) m =
       bit (take_bit (8 * Suc n) w) m"
      by (auto simp: bit_simps)
  qed
  then show ?case by (simp only: put_le.simps get_le.simps Suc.IH)
qed

lemma load_PutUint64 [simp]: "load_u64 e (PutUint64 e w) = w"
proof -
  have "get_le (put_le 8 w) = w" 
    by (simp only: get_put_le) (rule bit_word_eqI, simp add: bit_simps)
  then show ?thesis by (cases e) (simp_all add: load_u64_def PutUint64_def del: put_le.simps)
qed

lemma take_drop_concat_chunk:
  assumes "\<forall>c\<in>set cs. length c = k" and "i < length cs"
  shows "take k (drop (k * i) (concat cs)) = cs ! i"
  using assms
proof (induction cs arbitrary: i)
  case Nil
  then show ?case by simp
next
  case (Cons c cs)
  then show ?case by (cases i) auto
qed

lemma take_drop_concat_beyond:
  assumes "\<forall>c\<in>set cs. length c = k" and "length cs \<le> i"
  shows "drop (k * i) (concat cs) = []"
proof -
  have "length (concat cs) = k * length cs"
    using assms(1) by (induction cs) auto
  also have "\<dots> \<le> k * i" using assms(2) by simp
  finally show ?thesis by simp
qed

lemma read_encode_chunk:
  "take 24 (drop (24 * i) block) = encode_task_res e r \<Longrightarrow> read_task_res e block i = Some r"
  by (simp add: read_task_res_def Let_def encode_task_res_def)

lemma read_task_res_nth:
  assumes "i < length rs"
  shows "read_task_res e (concat (map (encode_task_res e) rs)) i = Some (rs ! i)"
proof (rule read_encode_chunk)
  have "take 24 (drop (24 * i) (concat (map (encode_task_res e) rs))) =
        map (encode_task_res e) rs ! i"
    using assms by (intro take_drop_concat_chunk) auto
  then show "take 24 (drop (24 * i) (concat (map (encode_task_res e) rs))) =
     encode_task_res e (rs ! i)"
    using assms by simp
qed

lemma read_task_res_beyond:
  "length rs \<le> i \<Longrightarrow> read_task_res e (concat (map (encode_task_res e) rs)) i = None"
  using take_drop_concat_beyond [of "map (encode_task_res e) rs" 24 i]
  by (simp add: read_task_res_def)

end
