(* ===== verification/Task_Queue.thy ===== *)
theory Task_Queue
  imports Task_Result
begin

text \<open>
  \<^verbatim>\<open>grpc-engine/task/task.go\<close>: the queue of finished tasks.  Every method holds the
  mutex from its first to its last access, so a method is one atomic step; the
  only point where the lock is given up is \<^verbatim>\<open>cond.Wait\<close> inside \<^verbatim>\<open>Wait\<close>.  \<^verbatim>\<open>Wait\<close> is
  therefore modelled as the step it takes once the condition holds, and is
  blocked (\<open>None\<close>) while \<^verbatim>\<open>done\<close> is false.  The pointers that \<^verbatim>\<open>C.CBytes\<close>
  returns are an argument: \<open>al i\<close> is the block allocated for the result at
  position \<open>i\<close> of the queue.
\<close>

subsection \<open>State and operations\<close>

record taskResult =
  tr_id :: u64
  tr_result :: "bytes option"
  tr_err :: "string option"

record taskQueue =
  tq_done :: bool
  tq_tasks :: "taskResult list"

definition NewTaskQueue :: taskQueue where
  "NewTaskQueue = \<lparr>tq_done = False, tq_tasks = []\<rparr>"

definition taskQueue_signal :: "taskQueue \<Rightarrow> taskQueue" where
  "taskQueue_signal q = q\<lparr>tq_done := True\<rparr>"

definition taskQueue_Done :: "u64 \<Rightarrow> bytes option \<Rightarrow> string option \<Rightarrow> taskQueue \<Rightarrow> taskQueue" where
  "taskQueue_Done tid result err q =
     taskQueue_signal
       (q\<lparr>tq_tasks := tq_tasks q @ [\<lparr>tr_id = tid, tr_result = result, tr_err = err\<rparr>]\<rparr>)"

abbreviation (input) GrpcResTypeOk :: u64 where
  "GrpcResTypeOk \<equiv> 0"

abbreviation (input) GrpcResTypeErr :: u64 where
  "GrpcResTypeErr \<equiv> 1"

abbreviation (input) GrpcResTypeOkNotRes :: u64 where
  "GrpcResTypeOkNotRes \<equiv> 2"

text \<open>The body of the loop of \<^verbatim>\<open>Wait\<close>: size, tagged pointer and heap for one result.\<close>

definition wait_result :: "addr \<Rightarrow> taskResult \<Rightarrow> heap \<Rightarrow> ngx_grpc_cli_task_res \<times> heap" where
  "wait_result p res h =
     (case tr_err res of
        Some errStr \<Rightarrow>
          (\<lparr>task_id = tr_id res, res_size = of_nat (length errStr),
            res_buf = p OR GrpcResTypeErr\<rparr>, h(p \<mapsto> bytes_of errStr))
      | None \<Rightarrow>
          (case tr_result res of
             None \<Rightarrow>
               (\<lparr>task_id = tr_id res, res_size = 0, res_buf = GrpcResTypeOkNotRes\<rparr>, h)
           | Some result \<Rightarrow>
               (\<lparr>task_id = tr_id res, res_size = of_nat (length result), res_buf = p\<rparr>,
                h(p \<mapsto> result))))"

fun wait_loop ::
  "byte_order \<Rightarrow> (nat \<Rightarrow> addr) \<Rightarrow> nat \<Rightarrow> taskResult list \<Rightarrow> bytes \<Rightarrow> heap \<Rightarrow> bytes \<times> heap"
where
  "wait_loop e al i [] out h = (out, h)"
| "wait_loop e al i (res # tasks) out h =
     (let (r, h') = wait_result (al i) res h
      in wait_loop e al (Suc i) tasks
           (out @ PutUint64 e (task_id r) @ PutUint64 e (res_size r) @ PutUint64 e (res_buf r)) h')"

definition taskQueue_Wait ::
  "byte_order \<Rightarrow> (nat \<Rightarrow> addr) \<Rightarrow> taskQueue \<Rightarrow> heap \<Rightarrow> ((bytes \<times> nat) \<times> taskQueue \<times> heap) option"
where
  "taskQueue_Wait e al q h =
     (if tq_done q
      then (let (out, h') = wait_loop e al 0 (tq_tasks q) [] h
            in Some ((out, length out div 24), q\<lparr>tq_done := False, tq_tasks := []\<rparr>, h'))
      else None)"

text \<open>The function handed to \<^verbatim>\<open>time.AfterFunc\<close>; it may run at any time, also after \<^verbatim>\<open>Wait\<close>
  has returned, when \<^verbatim>\<open>timer.Stop\<close> came too late.\<close>

definition taskQueue_timer :: "taskQueue \<Rightarrow> taskQueue" where
  "taskQueue_timer q = taskQueue_signal q"

definition EncodePointerToBuf :: "byte_order \<Rightarrow> addr \<Rightarrow> bytes" where
  "EncodePointerToBuf e ptr = PutUint64 e ptr"

text \<open>A history of the queue: reports, timers and (possibly blocked) waits in some order.\<close>

datatype tq_op =
    TqDone u64 "bytes option" "string option"
  | TqTimer
  | TqWait "nat \<Rightarrow> addr"

fun tq_run :: "byte_order \<Rightarrow> tq_op list \<Rightarrow> taskQueue \<Rightarrow> heap \<Rightarrow> bytes list \<times> taskQueue" where
  "tq_run e [] q h = ([], q)"
| "tq_run e (TqDone tid result err # ops) q h = tq_run e ops (taskQueue_Done tid result err q) h"
| "tq_run e (TqTimer # ops) q h = tq_run e ops (taskQueue_timer q) h"
| "tq_run e (TqWait al # ops) q h =
     (case taskQueue_Wait e al q h of
        None \<Rightarrow> tq_run e ops q h
      | Some ((out, n), q', h') \<Rightarrow>
          (let (outs, q'') = tq_run e ops q' h' in (out # outs, q'')))"

subsection \<open>Specification vocabulary\<close>

text \<open>What a record of the array says about the heap: the result it stands for.\<close>

definition represents :: "heap \<Rightarrow> ngx_grpc_cli_task_res \<Rightarrow> taskResult \<Rightarrow> bool" where
  "represents h r t \<longleftrightarrow>
     task_id r = tr_id t \<and>
     (case tr_err t of
        Some e \<Rightarrow> res_type (res_buf r) = NGX_GRPC_CLIENT_RES_TYPE_ERR \<and>
                   h (res_untag (res_buf r)) = Some (bytes_of e) \<and>
                   res_size r = of_nat (length e)
      | None \<Rightarrow>
          (case tr_result t of
             None \<Rightarrow> res_type (res_buf r) = NGX_GRPC_CLIENT_RES_TYPE_OK_NOT_RES \<and>
                     res_untag (res_buf r) = NULL \<and> res_size r = 0
           | Some b \<Rightarrow> res_type (res_buf r) = NGX_GRPC_CLIENT_RES_TYPE_OK \<and>
                       h (res_untag (res_buf r)) = Some b \<and>
                       res_size r = of_nat (length b)))"

text \<open>
  What the code needs of \<^verbatim>\<open>malloc\<close>: blocks that are not in use, distinct, never
  \<open>NULL\<close> (cgo aborts instead) and aligned to eight bytes.
\<close>

definition cbytes_ok :: "nat \<Rightarrow> heap \<Rightarrow> (nat \<Rightarrow> addr) \<Rightarrow> bool" where
  "cbytes_ok n h al \<longleftrightarrow>
     distinct (map al [0..<n]) \<and>
     list_all (\<lambda>i. al i \<notin> dom h \<and> al i \<noteq> NULL \<and> al i AND 7 = 0) [0..<n]"

fun reported :: "tq_op list \<Rightarrow> u64 list" where
  "reported [] = []"
| "reported (TqDone tid result err # ops) = tid # reported ops"
| "reported (_ # ops) = reported ops"

text \<open>The identifiers in an array of results, as the C code reads them.\<close>

definition array_ids :: "byte_order \<Rightarrow> bytes \<Rightarrow> u64 list" where
  "array_ids e out =
     map (\<lambda>i. case read_task_res e out i of None \<Rightarrow> 0 | Some r \<Rightarrow> task_id r)
       [0..<length out div 24]"

fun wait_results :: "(nat \<Rightarrow> addr) \<Rightarrow> nat \<Rightarrow> taskResult list \<Rightarrow> ngx_grpc_cli_task_res list" where
  "wait_results al i [] = []"
| "wait_results al i (t # ts) = fst (wait_result (al i) t Map.empty) # wait_results al (Suc i) ts"

text \<open>A queue with two results, for examples.\<close>

definition example_queue :: taskQueue where
  "example_queue = taskQueue_Done 9 None (Some ''unavailable'') (taskQueue_Done 7 (Some [1, 2]) None NewTaskQueue)"

subsection \<open>The loop of Wait\<close>

lemma wait_result_fst: "fst (wait_result p t h) = fst (wait_result p t Map.empty)"
  by (simp add: wait_result_def split: option.split)

lemma wait_result_id [simp]: "task_id (fst (wait_result p t h)) = tr_id t"
  by (simp add: wait_result_def split: option.split)

lemma wait_result_heap_other: "q \<noteq> p \<Longrightarrow> snd (wait_result p t h) q = h q"
  by (simp add: wait_result_def split: option.split)

lemma length_wait_results [simp]: "length (wait_results al i ts) = length ts"
  by (induction ts arbitrary: i) auto

lemma map_id_wait_results: "map task_id (wait_results al i ts) = map tr_id ts"
  by (induction ts arbitrary: i) auto

lemma wait_loop_out:
  "fst (wait_loop e al i ts out h) =
     out @ concat (map (encode_task_res e) (wait_results al i ts))"
proof (induction ts arbitrary: i out h)
  case Nil
  then show ?case by simp
next
  case (Cons t ts)
  obtain r h' where r: "wait_result (al i) t h = (r, h')" by force
  with wait_result_fst [of "al i" t h] have "fst (wait_result (al i) t Map.empty) = r" by simp
  with Cons.IH r show ?case by (simp add: encode_task_res_def)
qed

lemma wait_loop_heap_other:
  "(\<And>j. i \<le> j \<Longrightarrow> j < i + length ts \<Longrightarrow> al j \<noteq> q) \<Longrightarrow> snd (wait_loop e al i ts out h) q = h q"
proof (induction ts arbitrary: i out h)
  case Nil
  then show ?case by simp
next
  case (Cons t ts)
  obtain r h' where r: "wait_result (al i) t h = (r, h')" by force
  have "h' q = h q" using Cons.prems [of i] wait_result_heap_other [of q "al i" t h] r by auto
  moreover have "snd (wait_loop e al (Suc i) ts o' h') q = h' q" for o'
    using Cons.prems by (intro Cons.IH) auto
  ultimately show ?case using r by simp
qed

lemma represents_wait_result:
  assumes "p AND 7 = 0"
  shows "represents (snd (wait_result p t h)) (fst (wait_result p t h)) t"
  using assms res_type_tagged [OF assms, of 1] res_untag_tagged [OF assms, of 1]
    res_type_tagged [of 0 2] res_untag_tagged [of 0 2] res_untag_id [OF assms]
  by (auto simp: represents_def wait_result_def res_type_def split: option.split)

lemma wait_result_block:
  assumes "p AND 7 = 0" and "represents h (fst (wait_result p t g)) t"
    and "h' p = h p"
  shows "represents h' (fst (wait_result p t g)) t"
  using assms res_untag_tagged [OF assms(1), of 1] res_untag_id [OF assms(1)]
  by (auto simp: represents_def wait_result_def split: option.splits)

lemma wait_loop_represents:
  assumes "inj_on al {i..<i + length ts}" and "\<And>j. i \<le> j \<Longrightarrow> j < i + length ts \<Longrightarrow> al j AND 7 = 0"
    and "k < length ts"
  shows "represents (snd (wait_loop e al i ts out h)) (wait_results al i ts ! k) (ts ! k)"
  using assms
proof (induction ts arbitrary: i k out h)
  case Nil
  then show ?case by simp
next
  case (Cons t ts)
  obtain r h' where r: "wait_result (al i) t h = (r, h')" by force
  have r0: "fst (wait_result (al i) t Map.empty) = r"
    using r wait_result_fst [of "al i" t h] by simp
  note loop = r r0
  show ?case
  proof (cases k)
    case (Suc k')
    have "inj_on al {Suc i..<Suc i + length ts}"
      using Cons.prems(1) by (rule inj_on_subset) auto
    then have "represents (snd (wait_loop e al (Suc i) ts o' h')) (wait_results al (Suc i) ts ! k') (ts ! k')" for o'
      using Cons.prems(2,3) Suc by (intro Cons.IH) auto
    with Suc loop show ?thesis by simp
  next
    case 0
    have al: "al i AND 7 = 0" using Cons.prems(2) by simp
    have "represents h' (fst (wait_result (al i) t h)) t"
      using represents_wait_result [OF al, of t h] r by simp
    moreover have "snd (wait_loop e al (Suc i) ts o' h') (al i) = h' (al i)" for o'
      using Cons.prems(1) by (intro wait_loop_heap_other) (auto dest: inj_onD)
    ultimately have "represents (snd (wait_loop e al (Suc i) ts o' h')) (fst (wait_result (al i) t h)) t" for o'
      by (rule wait_result_block [OF al])
    with 0 loop show ?thesis by simp
  qed
qed

lemma cbytes_okD:
  assumes "cbytes_ok n h al"
  shows "inj_on al {0..<n}" and "i < n \<Longrightarrow> al i AND 7 = 0" and "i < n \<Longrightarrow> al i \<notin> dom h"
    and "i < n \<Longrightarrow> al i \<noteq> NULL"
  using assms by (auto simp: cbytes_ok_def distinct_map list_all_iff)

lemma concat_encode_length: "length (concat (map (encode_task_res e) rs)) = 24 * length rs"
  by (induction rs) auto

lemma taskQueue_Wait_eq:
  "taskQueue_Wait e al q h =
     (if tq_done q
      then Some ((concat (map (encode_task_res e) (wait_results al 0 (tq_tasks q))),
                  length (tq_tasks q)),
                 NewTaskQueue, snd (wait_loop e al 0 (tq_tasks q) [] h))
      else None)"
  using wait_loop_out [of e al 0 "tq_tasks q" "[]" h]
  by (auto simp: taskQueue_Wait_def NewTaskQueue_def concat_encode_length split: prod.split)

lemma array_ids_concat:
  "array_ids e (concat (map (encode_task_res e) rs)) = map task_id rs"
  by (auto simp: array_ids_def concat_encode_length read_task_res_nth intro!: nth_equalityI)

subsection \<open>Properties\<close>

text \<open>C13. The tag survives the trip through the pointer: for a block aligned as \<^verbatim>\<open>malloc\<close>
  aligns, the C code gets the kind and the block back from what \<^verbatim>\<open>Wait\<close> stored
  (an error as \<^verbatim>\<open>ptr | 1\<close>, a result without body as 2).\<close>

theorem tag_roundtrip:
  assumes "p AND 7 = 0" and "t < 8"
  shows "res_type (p OR t) = t \<and> res_untag (p OR t) = p"
  using assms by (simp add: res_type_tagged res_untag_tagged)

theorem tag_roundtrip_witness:
  "res_type (0x7f0010 OR GrpcResTypeErr) = 1 \<and> res_untag (0x7f0010 OR GrpcResTypeErr) = 0x7f0010"
  by (rule tag_roundtrip) simp_all

text \<open>C12. The array of 24-byte records that Go writes in the byte order its \<^verbatim>\<open>init\<close> detected
  is, read as an array of C structures on the same host, the sequence that was written,
  and one more element would lie outside the block.\<close>

theorem struct_array_roundtrip:
  "\<exists>e. hostEndian host = Some e \<and>
     map (read_task_res host (concat (map (encode_task_res e) rs))) [0..<Suc (length rs)] =
     map Some rs @ [None]"
proof -
  have "hostEndian host = Some host"
    by (cases host) (simp_all add: hostEndian_def store_uint16_def)
  moreover have
    "map (read_task_res host (concat (map (encode_task_res host) rs))) [0..<length rs] = map Some rs"
    by (rule nth_equalityI) (simp_all add: read_task_res_nth)
  moreover have "read_task_res host (concat (map (encode_task_res host) rs)) (length rs) = None"
    by (rule read_task_res_beyond) simp
  ultimately show ?thesis by auto
qed

text \<open>C10. A woken \<^verbatim>\<open>Wait\<close> returns exactly the queued results, in the order of their
  reports, each record carrying the identifier and standing for the error, the body or the
  absence of a body that was reported, leaves every other heap block alone and leaves an
  empty queue that blocks the next \<^verbatim>\<open>Wait\<close>.\<close>

theorem Wait_returns_reported:
  assumes "tq_done q" and "cbytes_ok (length (tq_tasks q)) h al"
  shows "\<exists>out n q' h'.
     taskQueue_Wait e al q h = Some ((out, n), q', h') \<and>
     n = length (tq_tasks q) \<and> length out = 24 * n \<and>
     (\<forall>i<n. \<exists>r. read_task_res e out i = Some r \<and> represents h' r (tq_tasks q ! i)) \<and>
     (\<forall>p\<in>dom h. h' p = h p) \<and> q' = NewTaskQueue \<and> taskQueue_Wait e al q' h' = None"
proof -
  let ?rs = "wait_results al 0 (tq_tasks q)"
  let ?h' = "snd (wait_loop e al 0 (tq_tasks q) [] h)"
  have "\<exists>r. read_task_res e (concat (map (encode_task_res e) ?rs)) i = Some r \<and>
            represents ?h' r (tq_tasks q ! i)" if "i < length (tq_tasks q)" for i
    using that assms(2) read_task_res_nth [of i ?rs e]
      wait_loop_represents [of al 0 "tq_tasks q" i e "[]" h]
    by (auto simp: cbytes_okD [OF assms(2)])
  moreover have "?h' p = h p" if "p \<in> dom h" for p
    using that cbytes_okD(3) [OF assms(2)] by (intro wait_loop_heap_other) auto
  ultimately show ?thesis
    using assms(1) by (simp add: taskQueue_Wait_eq concat_encode_length NewTaskQueue_def)
qed

theorem Wait_returns_reported_witness:
  "\<exists>out n q' h'.
     taskQueue_Wait LittleEndian (\<lambda>i. 64 * of_nat (Suc i)) example_queue Map.empty = Some ((out, n), q', h') \<and>
     n = 2 \<and> length out = 24 * n \<and>
     (\<forall>i<n. \<exists>r. read_task_res LittleEndian out i = Some r \<and> represents h' r (tq_tasks example_queue ! i)) \<and>
     (\<forall>p\<in>dom Map.empty. h' p = Map.empty p) \<and> q' = NewTaskQueue \<and>
     taskQueue_Wait LittleEndian (\<lambda>i. 64 * of_nat (Suc i)) q' h' = None"
proof -
  have q: "tq_done example_queue" "length (tq_tasks example_queue) = 2"
    by (simp_all add: example_queue_def taskQueue_Done_def taskQueue_signal_def NewTaskQueue_def)
  have "cbytes_ok 2 Map.empty (\<lambda>i. 64 * of_nat (Suc i))"
    by (simp add: cbytes_ok_def upt_rec)
  with Wait_returns_reported [OF q(1), of Map.empty "\<lambda>i. 64 * of_nat (Suc i)" LittleEndian] q(2)
  show ?thesis by simp
qed

text \<open>C11. Whatever the order of reports, timers and waits, the arrays returned so far followed
  by what is still queued are the reported identifiers, each once and in the order of the reports:
  no result is lost, duplicated or overtaken.\<close>

theorem queue_fifo_exactly_once:
  assumes "tq_run e ops q h = (outs, q')"
  shows "concat (map (array_ids e) outs) @ map tr_id (tq_tasks q') =
         map tr_id (tq_tasks q) @ reported ops"
  using assms
proof (induction e ops q h arbitrary: outs rule: tq_run.induct)
  case (4 e al ops q h)
  show ?case
  proof (cases "tq_done q")
    case True
    let ?out = "concat (map (encode_task_res e) (wait_results al 0 (tq_tasks q)))"
    obtain outs' where outs: "outs = ?out # outs'"
      and run: "tq_run e ops NewTaskQueue (snd (wait_loop e al 0 (tq_tasks q) [] h)) = (outs', q')"
      using 4(3) True by (auto simp: taskQueue_Wait_eq split: prod.splits)
    have "concat (map (array_ids e) outs') @ map tr_id (tq_tasks q') = reported ops"
      using 4(2) [OF _ refl refl refl run] True by (simp add: taskQueue_Wait_eq NewTaskQueue_def)
    then show ?thesis by (simp add: outs array_ids_concat map_id_wait_results)
  next
    case False
    with 4(1,3) show ?thesis by (simp add: taskQueue_Wait_eq)
  qed
qed (simp_all add: taskQueue_Done_def taskQueue_signal_def taskQueue_timer_def)

theorem queue_fifo_exactly_once_witness:
  "concat (map (array_ids LittleEndian)
      (fst (tq_run LittleEndian [TqDone 7 None None, TqTimer, TqWait (\<lambda>_. 64), TqDone 9 None None] NewTaskQueue Map.empty)))
    @ map tr_id (tq_tasks (snd (tq_run LittleEndian [TqDone 7 None None, TqTimer, TqWait (\<lambda>_. 64), TqDone 9 None None] NewTaskQueue Map.empty)))
    = [7, 9]"
  using queue_fifo_exactly_once [of LittleEndian
      "[TqDone 7 None None, TqTimer, TqWait (\<lambda>_. 64), TqDone 9 None None]" NewTaskQueue Map.empty
      "fst (tq_run LittleEndian [TqDone 7 None None, TqTimer, TqWait (\<lambda>_. 64), TqDone 9 None None] NewTaskQueue Map.empty)"
      "snd (tq_run LittleEndian [TqDone 7 None None, TqTimer, TqWait (\<lambda>_. 64), TqDone 9 None None] NewTaskQueue Map.empty)"]
  by (simp add: NewTaskQueue_def)

end
