(* ===== verification/Grpc_Engine.thy ===== *)
theory Grpc_Engine
  imports Grpc_Conn Task_Queue
begin

text \<open>
  \<^verbatim>\<open>grpc-engine/main.go\<close>: the functions the shared library exports to the C module.
  Each exported operation runs its synchronous part at once and hands the rest to
  a goroutine, which ends with \<^verbatim>\<open>task.ReportFinishedTask\<close>.  The goroutines that
  have been started and have not reported yet are part of the engine state;
  \<open>run_goroutine\<close> is what one of them does, with the answers of the grpc library
  as an argument.  A panic in an exported function (\<^verbatim>\<open>mustFind\<close>) is not recovered
  and kills the worker: \<open>None\<close>.
\<close>

subsection \<open>State\<close>

record DialOpt =
  d_insecure :: bool
  d_tls_verify :: bool
  d_max_recv_msg_size :: int
  d_client_cert :: string
  d_client_key :: string
  d_trusted_ca :: string

text \<open>\<^verbatim>\<open>metadata_len\<close> is a C \<^verbatim>\<open>int\<close>: 32 bits, signed.\<close>

record CallOpt =
  co_timeout :: u64
  co_metadata_len :: "32 word"
  co_metadata :: "(string \<times> string) list"

datatype goroutine =
    GoCall u64 nat string bytes CallOption
  | GoNewStream addr nat string bytes CallOption int
  | GoRecv addr nat
  | GoSend addr nat bytes
  | GoCloseSend addr nat

text \<open>
  \<open>e_streams\<close> holds the \<^verbatim>\<open>conn.Stream\<close> objects, which \<^verbatim>\<open>StreamRef\<close> and running goroutines
  share, and \<open>e_next_stream\<close> the next object to be made: only objects below it are referred to.
  \<open>e_closed\<close> lists the connections \<^verbatim>\<open>conn.Close\<close> was called on.
\<close>

record engine =
  EngineCtxRef :: "addr \<rightharpoonup> nat"
  StreamRef :: "addr \<rightharpoonup> nat"
  e_streams :: "nat \<Rightarrow> go_stream"
  e_next_stream :: nat
  e_goroutines :: "goroutine list"
  finishedTaskQueue :: taskQueue
  e_closed :: "nat list"

definition engine_init :: engine where
  "engine_init = \<lparr>EngineCtxRef = Map.empty, StreamRef = Map.empty, 
     e_streams = (\<lambda>_. \<lparr>st_cs = 0, st_cancel = False, st_type = 0\<rparr>),
     e_next_stream = 0, e_goroutines = [], finishedTaskQueue = NewTaskQueue, e_closed = []\<rparr>"

subsection \<open>Errors and the result queue\<close>

definition ERR_BUF_SIZE :: nat where
  "ERR_BUF_SIZE = 512"

definition reportErr :: "go_error \<Rightarrow> string" where
  "reportErr s = (if ERR_BUF_SIZE - 1 < length s then take (ERR_BUF_SIZE - 1) s else s)"

definition ReportFinishedTask :: "u64 \<Rightarrow> bytes option \<Rightarrow> go_error option \<Rightarrow> engine \<Rightarrow> engine" where
  "ReportFinishedTask tid result err g =
     g\<lparr>finishedTaskQueue := taskQueue_Done tid result err (finishedTaskQueue g)\<rparr>"

definition reportPanic :: "grpc_lib \<Rightarrow> u64 \<Rightarrow> string \<Rightarrow> engine \<Rightarrow> engine" where
  "reportPanic G tid r g =
     ReportFinishedTask tid None (Some (r @ '': stack '' @ debug_Stack G)) g"

definition mustFind :: "(addr \<rightharpoonup> 'a) \<Rightarrow> addr \<Rightarrow> 'a option" where
  "mustFind m ref = m ref"

subsection \<open>Connections\<close>

text \<open>\<open>ref\<close> is the block \<^verbatim>\<open>C.malloc(1)\<close> returns.\<close>

definition grpc_engine_connect ::
  "grpc_lib \<Rightarrow> addr \<Rightarrow> string \<Rightarrow> DialOpt \<Rightarrow> engine \<Rightarrow> addr \<times> string option \<times> engine"
where
  "grpc_engine_connect G ref target opt g =
     (let co = \<lparr>Insecure = d_insecure opt, TLSVerify = d_tls_verify opt,
                MaxRecvMsgSize = d_max_recv_msg_size opt, ClientCertFile = d_client_cert opt,
                ClientKeyFile = d_client_key opt, TrustedCA = d_trusted_ca opt\<rparr>
      in case Connect G target co of
           Panics r \<Rightarrow> (NULL, Some (reportErr (r @ '': stack '' @ debug_Stack G)), g)
         | Returns (Inl err) \<Rightarrow> (NULL, Some (reportErr err), g)
         | Returns (Inr c) \<Rightarrow> (ref, None, g\<lparr>EngineCtxRef := (EngineCtxRef g)(ref \<mapsto> c)\<rparr>))"

definition grpc_engine_close :: "addr \<Rightarrow> engine \<Rightarrow> engine" where
  "grpc_engine_close ref g =
     (case EngineCtxRef g ref of
        None \<Rightarrow> g
      | Some c \<Rightarrow>
          g\<lparr>EngineCtxRef := (EngineCtxRef g)(ref := None), e_closed := e_closed g @ [c]\<rparr>)"

subsection \<open>Metadata\<close>

text \<open>
  The loop of \<^verbatim>\<open>convertMetadata\<close>: index \<open>i\<close> runs in steps of two, the pair pointer in
  steps of one; reading past the array of pairs is \<open>None\<close>.
\<close>

function convertMetadata_loop ::
  "nat \<Rightarrow> nat \<Rightarrow> (string \<times> string) list \<Rightarrow> string list \<Rightarrow> string list option"
where
  "convertMetadata_loop len2 i pairs md =
     (if i < len2
      then (case pairs of
              [] \<Rightarrow> None
            | (key, val) # rest \<Rightarrow>
                convertMetadata_loop len2 (i + 2) rest ((md[i := key])[i + 1 := val]))
      else Some md)"
  by pat_completeness auto
termination
  by (relation "measure (\<lambda>(len2, i, pairs, md). len2 - i)") auto

declare convertMetadata_loop.simps [simp del]

text \<open>
  \<^verbatim>\<open>opt.metadata_len*2\<close> is computed in 32 bits; \<^verbatim>\<open>make\<close> panics on a negative length, and nothing
  recovers that panic.
\<close>

definition convertMetadata :: "CallOpt \<Rightarrow> string list option" where
  "convertMetadata opt =
     (if co_metadata_len opt = 0 then Some []
      else let len2 = sint (co_metadata_len opt * 2)
           in if len2 < 0 then None
              else convertMetadata_loop (nat len2) 0 (co_metadata opt) (replicate (nat len2) []))"

text \<open>\<^verbatim>\<open>time.Duration(opt.timeout) * time.Millisecond\<close>, in 64-bit arithmetic.\<close>

definition call_option :: "CallOpt \<Rightarrow> CallOption option" where
  "call_option opt =
     do { md \<leftarrow> convertMetadata opt;
          Some \<lparr>Timeout = co_timeout opt * 1000000, Metadata = md\<rparr> }"

subsection \<open>Calls and streams\<close>

definition spawn :: "goroutine \<Rightarrow> engine \<Rightarrow> engine" where
  "spawn j g = g\<lparr>e_goroutines := e_goroutines g @ [j]\<rparr>"

definition grpc_engine_call ::
  "u64 \<Rightarrow> addr \<Rightarrow> string \<Rightarrow> bytes \<Rightarrow> CallOpt \<Rightarrow> engine \<Rightarrow> engine option"
where
  "grpc_engine_call taskId ref method req opt g =
     do { c \<leftarrow> mustFind (EngineCtxRef g) ref;
          co \<leftarrow> call_option opt;
          Some (spawn (GoCall taskId c method req co) g) }"

definition grpc_engine_new_stream ::
  "addr \<Rightarrow> addr \<Rightarrow> string \<Rightarrow> bytes \<Rightarrow> CallOpt \<Rightarrow> int \<Rightarrow> engine \<Rightarrow> engine option"
where
  "grpc_engine_new_stream sctx ref method req opt streamType g =
     do { c \<leftarrow> mustFind (EngineCtxRef g) ref;
          co \<leftarrow> call_option opt;
          Some (spawn (GoNewStream sctx c method req co streamType) g) }"

definition grpc_engine_close_stream :: "addr \<Rightarrow> engine \<Rightarrow> engine" where
  "grpc_engine_close_stream sctx g =
     (case StreamRef g sctx of
        None \<Rightarrow> g
      | Some i \<Rightarrow>
          g\<lparr>StreamRef := (StreamRef g)(sctx := None),
            e_streams := (e_streams g)(i := fst (Stream_Close (e_streams g i)))\<rparr>)"

definition grpc_engine_stream_recv :: "addr \<Rightarrow> engine \<Rightarrow> engine option" where
  "grpc_engine_stream_recv sctx g =
     do { s \<leftarrow> mustFind (StreamRef g) sctx;
          Some (spawn (GoRecv sctx s) g) }"

definition grpc_engine_stream_send :: "addr \<Rightarrow> bytes \<Rightarrow> engine \<Rightarrow> engine option" where
  "grpc_engine_stream_send sctx req g =
     do { s \<leftarrow> mustFind (StreamRef g) sctx;
          Some (spawn (GoSend sctx s req) g) }"

definition grpc_engine_stream_close_send :: "addr \<Rightarrow> engine \<Rightarrow> engine option" where
  "grpc_engine_stream_close_send sctx g =
     do { s \<leftarrow> mustFind (StreamRef g) sctx;
          Some (spawn (GoCloseSend sctx s) g) }"

text \<open>The goroutine bodies.\<close>

definition store_stream :: "addr \<Rightarrow> go_stream \<Rightarrow> engine \<Rightarrow> engine" where
  "store_stream sctx s g =
     g\<lparr>e_streams := (e_streams g)(e_next_stream g := s),
       StreamRef := (StreamRef g)(sctx \<mapsto> e_next_stream g),
       e_next_stream := Suc (e_next_stream g)\<rparr>"

text \<open>What the deferred \<^verbatim>\<open>reportPanic\<close> makes of the outcome of the work before the report.\<close>

definition recovered :: "grpc_lib \<Rightarrow> u64 \<Rightarrow> 'a outcome \<Rightarrow> ('a \<Rightarrow> engine) \<Rightarrow> engine \<Rightarrow> engine" where
  "recovered G tid x f g = (case x of Panics r \<Rightarrow> reportPanic G tid r g | Returns y \<Rightarrow> f y)"

definition call_body ::
  "grpc_lib \<Rightarrow> u64 \<Rightarrow> nat \<Rightarrow> string \<Rightarrow> bytes \<Rightarrow> CallOption \<Rightarrow> engine \<Rightarrow> engine"
where
  "call_body G tid c method req co g =
     recovered G tid (Call G c method req co) (\<lambda>(out, err). ReportFinishedTask tid out err g) g"

definition new_stream_body ::
  "grpc_lib \<Rightarrow> addr \<Rightarrow> nat \<Rightarrow> string \<Rightarrow> bytes \<Rightarrow> CallOption \<Rightarrow> int \<Rightarrow> engine \<Rightarrow> engine"
where
  "new_stream_body G sctx c method req co streamType g =
     recovered G sctx (fst (NewStream G c method req co streamType))
       (\<lambda>x. case x of
              Inl err \<Rightarrow> ReportFinishedTask sctx None (Some err) g
            | Inr s \<Rightarrow> ReportFinishedTask sctx None None (store_stream sctx s g)) g"

definition recv_body :: "grpc_lib \<Rightarrow> addr \<Rightarrow> nat \<Rightarrow> engine \<Rightarrow> engine" where
  "recv_body G sctx i g =
     recovered G sctx (fst (Stream_Recv G (e_streams g i)))
       (\<lambda>(out, err). ReportFinishedTask sctx out err g) g"

definition send_body :: "grpc_lib \<Rightarrow> addr \<Rightarrow> nat \<Rightarrow> bytes \<Rightarrow> engine \<Rightarrow> engine" where
  "send_body G sctx i req g =
     recovered G sctx (Stream_Send G (e_streams g i) req)
       (\<lambda>(_, err). ReportFinishedTask sctx None err g) g"

definition close_send_body :: "grpc_lib \<Rightarrow> addr \<Rightarrow> nat \<Rightarrow> engine \<Rightarrow> engine" where
  "close_send_body G sctx i g =
     recovered G sctx (Stream_CloseSend G (e_streams g i))
       (\<lambda>(_, err). ReportFinishedTask sctx None err g) g"

fun goroutine_body :: "grpc_lib \<Rightarrow> goroutine \<Rightarrow> engine \<Rightarrow> engine" where
  "goroutine_body G (GoCall tid c method req co) = call_body G tid c method req co"
| "goroutine_body G (GoNewStream sctx c method req co streamType) =
     new_stream_body G sctx c method req co streamType"
| "goroutine_body G (GoRecv sctx i) = recv_body G sctx i"
| "goroutine_body G (GoSend sctx i req) = send_body G sctx i req"
| "goroutine_body G (GoCloseSend sctx i) = close_send_body G sctx i"

text \<open>The \<open>k\<close>-th started goroutine runs to its end.\<close>

definition run_goroutine :: "grpc_lib \<Rightarrow> nat \<Rightarrow> engine \<Rightarrow> engine option" where
  "run_goroutine G k g =
     (if k < length (e_goroutines g)
      then Some (goroutine_body G (e_goroutines g ! k)
             (g\<lparr>e_goroutines := take k (e_goroutines g) @ drop (Suc k) (e_goroutines g)\<rparr>))
      else None)"

subsection \<open>Waiting and freeing\<close>

text \<open>
  \<^verbatim>\<open>C.free\<close>: freeing \<open>NULL\<close> does nothing; freeing memory that is not allocated is
  undefined.
\<close>

definition grpc_engine_free :: "addr \<Rightarrow> heap \<Rightarrow> heap option" where
  "grpc_engine_free p h =
     (if p = NULL then Some h else if p \<in> dom h then Some (h(p := None)) else None)"

text \<open>
  \<open>al\<close> gives the blocks of \<^verbatim>\<open>C.CBytes\<close> inside \<^verbatim>\<open>Wait\<close>, \<open>arr\<close> the block for the array
  itself.  \<open>None\<close>: still blocked.
\<close>

definition grpc_engine_wait ::
  "byte_order \<Rightarrow> (nat \<Rightarrow> addr) \<Rightarrow> addr \<Rightarrow> engine \<Rightarrow> heap \<Rightarrow> ((addr \<times> int) \<times> engine \<times> heap) option"
where
  "grpc_engine_wait e al arr g h =
     (case taskQueue_Wait e al (finishedTaskQueue g) h of
        None \<Rightarrow> None
      | Some ((out, n), q, h') \<Rightarrow>
          Some (if n = 0 then ((NULL, 0), g\<lparr>finishedTaskQueue := q\<rparr>, h')
                else ((arr, int n), g\<lparr>finishedTaskQueue := q\<rparr>, h'(arr \<mapsto> out))))"

subsection \<open>Who a goroutine reports to\<close>

fun go_task :: "goroutine \<Rightarrow> u64" where
  "go_task (GoCall tid _ _ _ _) = tid"
| "go_task (GoNewStream sctx _ _ _ _ _) = sctx"
| "go_task (GoRecv sctx _) = sctx"
| "go_task (GoSend sctx _ _) = sctx"
| "go_task (GoCloseSend sctx _) = sctx"

text \<open>Results still owed for a task: running goroutines and queued reports.\<close>

definition owed :: "engine \<Rightarrow> u64 list" where
  "owed g = map go_task (e_goroutines g) @ map tr_id (tq_tasks (finishedTaskQueue g))"

text \<open>The array of pairs is as long as the Lua library says, and twice its length is a C \<^verbatim>\<open>int\<close>.\<close>

definition call_opt_ok :: "CallOpt \<Rightarrow> bool" where
  "call_opt_ok opt \<longleftrightarrow> 
     co_metadata_len opt = of_nat (length (co_metadata opt)) \<and> length (co_metadata opt) < 2 ^ 30"

subsection \<open>Lemmas\<close>

lemma grpc_engine_free_simps [simp]:
  "grpc_engine_free NULL h = Some h"
  "h p = Some b \<Longrightarrow> p \<noteq> NULL \<Longrightarrow> grpc_engine_free p h = Some (h(p := None))"
  by (auto simp: grpc_engine_free_def)

lemma convertMetadata_loop_eq:
  assumes "length pairs = n" and "length md = i + 2 * n"
  shows "convertMetadata_loop (i + 2 * n) i pairs md =
         Some (take i md @ concat (map (\<lambda>(k, v). [k, v]) pairs))"
  using assms
proof (induction pairs arbitrary: n i md)
  case Nil
  then show ?case by (simp add: convertMetadata_loop.simps)
next
  case (Cons p pairs)
  obtain k v where p: "p = (k, v)" by force
  obtain m where n: "n = Suc m" using Cons.prems by auto
  let ?md = "(md[i := k])[i + 1 := v]"
  have len: "length ?md = (i + 2) + 2 * m" using Cons.prems n by simp
  have "take (i + 2) ?md = take i md @ [k, v]"
    using len by (simp add: take_Suc_conv_app_nth)
  moreover have "convertMetadata_loop ((i + 2) + 2 * m) (i + 2) pairs ?md =
       Some (take (i + 2) ?md @ concat (map (\<lambda>(k, v). [k, v]) pairs))"
    using Cons.IH [of m ?md "i + 2"] len Cons.prems n by simp
  ultimately show ?case
    using n p by (subst convertMetadata_loop.simps) simp
qed

lemma convertMetadata_eq:
  assumes "call_opt_ok opt"
  shows "convertMetadata opt = Some (concat (map (\<lambda>(k, v). [k, v]) (co_metadata opt)))"
proof -
  let ?n = "length (co_metadata opt)"
  have n: "?n < 2 ^ 30" and len: "co_metadata_len opt = of_nat ?n" using assms by (simp_all add: call_opt_ok_def)
  have "co_metadata_len opt * 2 = of_nat (2 * ?n)" by (simp add: len)
  then have "sint (co_metadata_len opt * 2) = signed_take_bit 31 (int (2 * ?n))"
    by (simp only: signed_of_nat) simp
  also have "\<dots> = int (2 * ?n)" using n by (intro signed_take_bit_int_eq_self) simp_all
  finally have len2: "sint (co_metadata_len opt * 2) = int (2 * ?n)" .
  have "?n = 0" if "co_metadata_len opt = 0"
  proof -
    have "sint (co_metadata_len opt * 2) = 0" by (simp add: that)
    with len2 show ?thesis by simp
  qed
  with convertMetadata_loop_eq [of "co_metadata opt" ?n "replicate (2 * ?n) []" 0]
  show ?thesis by (simp add: convertMetadata_def len2 nat_mult_distrib)
qed

lemma call_option_ok:
  "call_opt_ok opt \<Longrightarrow> \<exists>co. call_option opt = Some co"
  by (simp add: call_option_def convertMetadata_eq)

lemma ReportFinishedTask_sel [simp]:
  "EngineCtxRef (ReportFinishedTask t r e g) = EngineCtxRef g"
  "StreamRef (ReportFinishedTask t r e g) = StreamRef g"
  "e_goroutines (ReportFinishedTask t r e g) = e_goroutines g"
  "e_streams (ReportFinishedTask t r e g) = e_streams g"
  "e_closed (ReportFinishedTask t r e g) = e_closed g"
  "tq_tasks (finishedTaskQueue (ReportFinishedTask t r e g)) =
     tq_tasks (finishedTaskQueue g) @ [\<lparr>tr_id = t, tr_result = r, tr_err = e\<rparr>]"
  "tq_done (finishedTaskQueue (ReportFinishedTask t r e g))"
  by (simp_all add: ReportFinishedTask_def taskQueue_Done_def taskQueue_signal_def)

lemma store_stream_sel [simp]:
  "EngineCtxRef (store_stream x s g) = EngineCtxRef g"
  "StreamRef (store_stream x s g) = (StreamRef g)(x \<mapsto> e_next_stream g)"
  "e_streams (store_stream x s g) = (e_streams g)(e_next_stream g := s)"
  "e_goroutines (store_stream x s g) = e_goroutines g"
  "finishedTaskQueue (store_stream x s g) = finishedTaskQueue g"
  "e_closed (store_stream x s g) = e_closed g"
  by (simp_all add: store_stream_def)

lemmas body_defs = call_body_def new_stream_body_def recv_body_def send_body_def close_send_body_def
  recovered_def reportPanic_def

text \<open>Whether a body stored a new stream, seen from its report.\<close>

definition opens_stream :: "goroutine \<Rightarrow> taskResult \<Rightarrow> bool" where
  "opens_stream j r \<longleftrightarrow> (case j of GoNewStream _ _ _ _ _ _ \<Rightarrow> tr_err r = None | _ \<Rightarrow> False)"

lemma goroutine_body_reports:
  obtains r s where
    "tq_tasks (finishedTaskQueue (goroutine_body G j g)) = tq_tasks (finishedTaskQueue g) @ [r]"
    "tr_id r = go_task j" "tq_done (finishedTaskQueue (goroutine_body G j g))"
    "e_goroutines (goroutine_body G j g) = e_goroutines g"
    "EngineCtxRef (goroutine_body G j g) = EngineCtxRef g"
    "e_closed (goroutine_body G j g) = e_closed g"
    "StreamRef (goroutine_body G j g) =
       (if opens_stream j r then (StreamRef g)(go_task j \<mapsto> e_next_stream g) else StreamRef g)"
    "e_streams (goroutine_body G j g) =
       (if opens_stream j r then (e_streams g)(e_next_stream g := s) else e_streams g)"
proof -
  have "\<exists>r s. tq_tasks (finishedTaskQueue (goroutine_body G j g)) = tq_tasks (finishedTaskQueue g) @ [r] \<and>
    tr_id r = go_task j \<and> tq_done (finishedTaskQueue (goroutine_body G j g)) \<and>
    e_goroutines (goroutine_body G j g) = e_goroutines g \<and>
    EngineCtxRef (goroutine_body G j g) = EngineCtxRef g \<and>
    e_closed (goroutine_body G j g) = e_closed g \<and>
    StreamRef (goroutine_body G j g) =
       (if opens_stream j r then (StreamRef g)(go_task j \<mapsto> e_next_stream g) else StreamRef g) \<and>
    e_streams (goroutine_body G j g) =
       (if opens_stream j r then (e_streams g)(e_next_stream g := s) else e_streams g)"
    by (cases j) (auto simp: body_defs opens_stream_def split: outcome.split sum.split prod.split)
  then show thesis using that by blast
qed

lemma goroutine_EngineCtxRef:
  "run_goroutine G i g = Some g' \<Longrightarrow> EngineCtxRef g' = EngineCtxRef g"
  using goroutine_body_reports [of G "e_goroutines g ! i" "g\<lparr>e_goroutines := take i (e_goroutines g) @ drop (Suc i) (e_goroutines g)\<rparr>"]
  by (auto simp: run_goroutine_def split: if_splits)

subsection \<open>Properties\<close>

text \<open>C31. The error text the engine writes always fits the caller's buffer of 512 bytes with room for a
  terminator, and is a prefix of the message, the whole of it when it fits.\<close>

theorem reportErr_fits:
  "length (reportErr s) < ERR_BUF_SIZE \<and> (\<exists>rest. s = reportErr s @ rest \<and> (rest = [] \<longleftrightarrow> length s < ERR_BUF_SIZE))"
proof -
  have "s = reportErr s @ drop (ERR_BUF_SIZE - 1) s" by (simp add: reportErr_def)
  moreover have "drop (ERR_BUF_SIZE - 1) s = [] \<longleftrightarrow> length s < ERR_BUF_SIZE"
    by (auto simp: ERR_BUF_SIZE_def)
  moreover have "length (reportErr s) < ERR_BUF_SIZE" by (auto simp: reportErr_def ERR_BUF_SIZE_def)
  ultimately show ?thesis by blast
qed

text \<open>C29. The pointer loop of \<^verbatim>\<open>convertMetadata\<close> visits every pair once and in order: with a length that is the number
  of pairs, below \<open>2\<^sup>3\<^sup>0\<close> so that its double fits a C \<^verbatim>\<open>int\<close>, it does not panic, and the flat list it builds holds
  the key of pair \<open>i\<close> at position \<open>2i\<close> and its value at \<open>2i + 1\<close>, and nothing else.\<close>

theorem convertMetadata_pairs:
  assumes "co_metadata_len opt = of_nat (length (co_metadata opt))" and "length (co_metadata opt) < 2 ^ 30"
  shows "\<exists>md. convertMetadata opt = Some md \<and> length md = 2 * length (co_metadata opt) \<and>
           (\<forall>i<length (co_metadata opt). (md ! (2 * i), md ! (2 * i + 1)) = co_metadata opt ! i)"
proof -
  have "length (concat (map (\<lambda>(k, v). [k, v]) ps)) = 2 * length ps \<and>
      (\<forall>i<length ps. (concat (map (\<lambda>(k, v). [k, v]) ps) ! (2 * i), concat (map (\<lambda>(k, v). [k, v]) ps) ! (2 * i + 1)) = ps ! i)"
    for ps :: "(string \<times> string) list"
  proof (induction ps)
    case (Cons p ps)
    show ?case
    proof (intro conjI allI impI)
      fix i assume "i < length (p # ps)"
      with Cons show "(concat (map (\<lambda>(k, v). [k, v]) (p # ps)) ! (2 * i),
          concat (map (\<lambda>(k, v). [k, v]) (p # ps)) ! (2 * i + 1)) = (p # ps) ! i"
        by (cases i; cases p) auto
    qed (use Cons in \<open>simp split: prod.split\<close>)
  qed simp
  moreover have "call_opt_ok opt" using assms by (simp add: call_opt_ok_def)
  ultimately show ?thesis using convertMetadata_eq by auto
qed

theorem convertMetadata_pairs_witness:
  "\<exists>md. convertMetadata \<lparr>co_timeout = 1, co_metadata_len = 2, co_metadata = [(''a'', ''x''), (''b'', ''y'')]\<rparr> = Some md \<and>
     length md = 2 * length [(''a'', ''x''), (''b'', ''y'')] \<and>
     (\<forall>i<length [(''a'', ''x''), (''b'', ''y'')]. (md ! (2 * i), md ! (2 * i + 1)) = [(''a'', ''x''), (''b'', ''y'')] ! i)"
  using convertMetadata_pairs
    [of "\<lparr>co_timeout = 1, co_metadata_len = 2, co_metadata = [(''a'', ''x''), (''b'', ''y'')]\<rparr>"]
  by simp

text \<open>C27. Every goroutine that runs reports exactly once and to its own task, whatever the library answers and even
  when a library call panics: the report is appended to the queue, a waiter is woken, no result is owed twice
  or lost, and the other goroutines stay.  It touches no connection, and no stream but its own: only the one
  that opened a stream without an error stores it, under its own task, as a new stream object.\<close>

theorem goroutine_reports_once:
  assumes "run_goroutine G k g = Some g'"
  shows "\<exists>r s. tq_tasks (finishedTaskQueue g') = tq_tasks (finishedTaskQueue g) @ [r] \<and>
             tr_id r = go_task (e_goroutines g ! k) \<and> tq_done (finishedTaskQueue g') \<and>
             mset (owed g') = mset (owed g) \<and>
             e_goroutines g' = take k (e_goroutines g) @ drop (Suc k) (e_goroutines g) \<and>
             EngineCtxRef g' = EngineCtxRef g \<and> e_closed g' = e_closed g \<and>
             (case e_goroutines g ! k of
                GoNewStream sctx c m q co ty \<Rightarrow>
                  if tr_err r = None
                  then StreamRef g' = (StreamRef g)(sctx \<mapsto> e_next_stream g) \<and>
                       e_streams g' = (e_streams g)(e_next_stream g := s)
                  else StreamRef g' = StreamRef g \<and> e_streams g' = e_streams g
              | _ \<Rightarrow> StreamRef g' = StreamRef g \<and> e_streams g' = e_streams g)"
proof -
  let ?j = "e_goroutines g ! k" and ?gs = "take k (e_goroutines g) @ drop (Suc k) (e_goroutines g)"
  let ?g = "g\<lparr>e_goroutines := ?gs\<rparr>"
  have k: "k < length (e_goroutines g)" and g': "g' = goroutine_body G ?j ?g"
    using assms by (auto simp: run_goroutine_def split: if_splits)
  obtain r s where r: "tq_tasks (finishedTaskQueue g') = tq_tasks (finishedTaskQueue ?g) @ [r]"
    "tr_id r = go_task ?j" "tq_done (finishedTaskQueue g')" "e_goroutines g' = e_goroutines ?g"
    "EngineCtxRef g' = EngineCtxRef ?g" "e_closed g' = e_closed ?g"
    "StreamRef g' = (if opens_stream ?j r then (StreamRef ?g)(go_task ?j \<mapsto> e_next_stream ?g) else StreamRef ?g)"
    "e_streams g' = (if opens_stream ?j r then (e_streams ?g)(e_next_stream ?g := s) else e_streams ?g)"
    unfolding g' by (rule goroutine_body_reports)
  have "mset (e_goroutines g) = mset ?gs + {#?j#}"
    using arg_cong [OF id_take_nth_drop [OF k], of mset] by simp
  then have "mset (map go_task (e_goroutines g)) = mset (map go_task ?gs) + {#go_task ?j#}"
    by simp
  then have "mset (owed g') = mset (owed g)"
    using r by (simp add: owed_def)
  with r show ?thesis
    by (intro exI [of _ r] exI [of _ s]) (auto simp: opens_stream_def split: goroutine.split)
qed

theorem goroutine_reports_once_witness:
  "\<exists>g' r. run_goroutine (ok_lib\<lparr>Invoke := \<lambda>_ _ _ _. Panics ''boom''\<rparr>) 0
       (spawn (GoCall 7 0 ''/s/m'' [1] \<lparr>Timeout = 0, Metadata = []\<rparr>) engine_init) = Some g' \<and>
     tq_tasks (finishedTaskQueue g') = [r] \<and> tr_id r = 7 \<and> tq_done (finishedTaskQueue g') \<and>
     mset (owed g') = {#7#} \<and> e_goroutines g' = [] \<and> EngineCtxRef g' = Map.empty \<and> StreamRef g' = Map.empty"
proof -
  let ?g = "spawn (GoCall 7 0 ''/s/m'' [1] \<lparr>Timeout = 0, Metadata = []\<rparr>) engine_init"
  obtain g' where g': "run_goroutine (ok_lib\<lparr>Invoke := \<lambda>_ _ _ _. Panics ''boom''\<rparr>) 0 ?g = Some g'"
    by (simp add: run_goroutine_def spawn_def engine_init_def)
  with goroutine_reports_once [OF g'] show ?thesis
    by (auto simp: spawn_def engine_init_def NewTaskQueue_def owed_def)
qed

text \<open>C30. A timeout in milliseconds becomes the same time in nanoseconds, without overflow of the signed 64-bit
  duration, for every value up to 9223372036854 (292 years); so the call gets that deadline.\<close>

theorem call_option_timeout:
  assumes "call_opt_ok opt" and "unat (co_timeout opt) \<le> 9223372036854"
  shows "\<exists>co. call_option opt = Some co \<and> sint (Timeout co) = int (unat (co_timeout opt)) * 1000000"
proof -
  obtain co where co: "call_option opt = Some co" using call_option_ok [OF assms(1)] by blast
  then have t: "Timeout co = co_timeout opt * 1000000"
    by (auto simp: call_option_def bind_eq_Some_conv)
  define m where "m = unat (co_timeout opt) * 1000000"
  have "m < 2 ^ 63" using assms(2) by (simp add: m_def)
  then have m: "int m < 2 ^ 63" by (metis of_nat_less_iff of_nat_numeral of_nat_power)
  have "Timeout co = of_nat m" by (simp add: t m_def)
  then have "sint (Timeout co) = signed_take_bit 63 (int m)" by (simp add: signed_of_nat)
  also have "\<dots> = int m" using m by (intro signed_take_bit_int_eq_self) simp_all
  finally show ?thesis using co by (simp add: m_def)
qed

theorem call_option_timeout_witness:
  "\<exists>co. call_option \<lparr>co_timeout = 60000, co_metadata_len = 0, co_metadata = []\<rparr> = Some co \<and>
        sint (Timeout co) = 60000000000"
  using call_option_timeout [of "\<lparr>co_timeout = 60000, co_metadata_len = 0, co_metadata = []\<rparr>"]
  by (simp add: call_opt_ok_def)

end
