(* ===== verification/Cli_State.thy ===== *)
theory Cli_State
  imports Ngx_Api Grpc_Engine
begin

text \<open>
  The state of one nginx worker as \<^verbatim>\<open>src/ngx_grpc_client.c\<close> sees it: the heap of
  the module's structures, its global variables, the parts of the Lua modules it
  reads and writes, and the engine loaded into the process.  Structures live in
  partial maps from addresses; an access to an address outside the map is a
  fault (\<open>None\<close>).
\<close>

subsection \<open>Structures of the module\<close>

abbreviation (input) NGX_GRPC_CLIENT_STATE_OK :: int where
  "NGX_GRPC_CLIENT_STATE_OK \<equiv> 0"

abbreviation (input) NGX_GRPC_CLIENT_STATE_TIMEOUT :: int where
  "NGX_GRPC_CLIENT_STATE_TIMEOUT \<equiv> 1"

abbreviation (input) STREAM_TYPE_UNARY :: int where
  "STREAM_TYPE_UNARY \<equiv> 0"

record ngx_grpc_client_conf =
  engine_path :: string
  conf_engine :: addr
  conf_thread_pool :: addr
  conf_task :: addr

text \<open>The queues \<^verbatim>\<open>opening\<close> and \<^verbatim>\<open>free\<close> of a connection at address \<open>c\<close> are the queue heads
  \<open>CtxOpening c\<close> and \<open>CtxFree c\<close>.\<close>

record ngx_grpc_cli_ctx =
  engine_ctx :: addr
  free_delayed :: bool

record ngx_grpc_cli_stream_ctx =
  sctx_r :: addr
  sctx_wait_co_ctx :: addr
  sctx_prev_data :: addr
  sctx_res :: ngx_grpc_cli_task_res
  sctx_state :: int
  sctx_node :: addr
  sctx_parent :: addr
  sctx_type :: int
  sctx_is_http :: bool

text \<open>What \<^verbatim>\<open>ngx_calloc\<close> and \<^verbatim>\<open>ngx_memzero\<close> leave.\<close>

definition zero_res :: ngx_grpc_cli_task_res where
  "zero_res = \<lparr>task_id = 0, res_size = 0, res_buf = NULL\<rparr>"

definition zero_sctx :: ngx_grpc_cli_stream_ctx where
  "zero_sctx = \<lparr>sctx_r = NULL, sctx_wait_co_ctx = NULL, sctx_prev_data = NULL,
     sctx_res = zero_res, sctx_state = 0, sctx_node = NULL, sctx_parent = NULL,
     sctx_type = 0, sctx_is_http = False\<rparr>"

subsection \<open>What the module sees of the Lua modules\<close>

datatype cleanup_handler = NoCleanup | HttpCleanup | StreamCleanup | ForeignCleanup

datatype resume_handler = WevHandler | GrpcResume | ForeignResume

record co_ctx =
  co_data :: addr
  co_sleep :: ngx_event
  co_cleanup :: cleanup_handler

record lua_ctx =
  cur_co_ctx :: addr
  entered_content_phase :: bool
  lua_resume_handler :: resume_handler

datatype lua_val = LuaBool bool | LuaStr bytes | LuaNil

subsection \<open>The worker\<close>

text \<open>
  \<open>w_conf\<close> is the module configuration, \<open>w_task_active\<close> the flag
  \<^verbatim>\<open>gccf->task->event.active\<close>, \<open>w_posted\<close> whether \<^verbatim>\<open>thctx->posted_ev\<close> is posted;
  \<open>w_finished_tasks\<close>, \<open>w_finished_task_num\<close> and \<open>w_pctxs\<close> belong to the thread
  context.  \<open>w_http\<close> and \<open>w_stream\<close> map a request to the context of the Lua module
  of its subsystem (absent: \<^verbatim>\<open>NULL\<close>), \<open>w_cos\<close> holds the coroutine contexts, \<open>w_lua\<close>
  the values pushed to coroutines so far, oldest first.
\<close>

record worker =
  w_host :: byte_order
  w_conf :: ngx_grpc_client_conf
  w_quit :: bool
  w_exiting :: bool
  w_terminate :: bool
  w_task_active :: bool
  w_posted :: bool
  w_finished_tasks :: addr
  w_finished_task_num :: int
  w_pctxs :: "addr \<rightharpoonup> ngx_grpc_cli_task_res"
  w_tree :: rbtree
  w_num :: int
  w_ctxs :: "addr \<rightharpoonup> ngx_grpc_cli_ctx"
  w_sctxs :: "addr \<rightharpoonup> ngx_grpc_cli_stream_ctx"
  w_queues :: queues
  w_http :: "addr \<rightharpoonup> lua_ctx"
  w_stream :: "addr \<rightharpoonup> lua_ctx"
  w_cos :: "addr \<rightharpoonup> co_ctx"
  w_lua :: "(addr \<times> lua_val list) list"
  w_heap :: heap
  w_eng :: engine

text \<open>
  What the system answers during one operation: the pointers of successive
  allocations (\<^verbatim>\<open>NULL\<close>: out of memory), \<^verbatim>\<open>ngx_thread_task_post\<close> as a function of the
  active flag (return code, flag afterwards), and the context check of the Lua
  modules (an error message, or nothing when the context may yield).
\<close>

record sys_env =
  sys_alloc :: "nat \<Rightarrow> addr"
  sys_task_post :: "bool \<Rightarrow> int \<times> bool"
  sys_check_context :: "addr \<Rightarrow> string option"

text \<open>A posted task is active until its completion event runs; a failed post changes nothing.\<close>

definition task_post_ok :: "sys_env \<Rightarrow> bool" where
  "task_post_ok E \<longleftrightarrow>
     (\<forall>a. snd (sys_task_post E a) = (if fst (sys_task_post E a) = NGX_OK then True else a))"

subsection \<open>Access to the heap of structures\<close>

definition upd_ctx :: "addr \<Rightarrow> (ngx_grpc_cli_ctx \<Rightarrow> ngx_grpc_cli_ctx) \<Rightarrow> worker \<Rightarrow> worker option" where
  "upd_ctx p f w =
     (case w_ctxs w p of None \<Rightarrow> None | Some c \<Rightarrow> Some (w\<lparr>w_ctxs := (w_ctxs w)(p \<mapsto> f c)\<rparr>))"

definition upd_sctx ::
  "addr \<Rightarrow> (ngx_grpc_cli_stream_ctx \<Rightarrow> ngx_grpc_cli_stream_ctx) \<Rightarrow> worker \<Rightarrow> worker option"
where
  "upd_sctx p f w =
     (case w_sctxs w p of None \<Rightarrow> None | Some s \<Rightarrow> Some (w\<lparr>w_sctxs := (w_sctxs w)(p \<mapsto> f s)\<rparr>))"

definition upd_co :: "addr \<Rightarrow> (co_ctx \<Rightarrow> co_ctx) \<Rightarrow> worker \<Rightarrow> worker option" where
  "upd_co p f w =
     (case w_cos w p of None \<Rightarrow> None | Some c \<Rightarrow> Some (w\<lparr>w_cos := (w_cos w)(p \<mapsto> f c)\<rparr>))"

definition upd_http :: "addr \<Rightarrow> (lua_ctx \<Rightarrow> lua_ctx) \<Rightarrow> worker \<Rightarrow> worker option" where
  "upd_http r f w =
     (case w_http w r of None \<Rightarrow> None | Some c \<Rightarrow> Some (w\<lparr>w_http := (w_http w)(r \<mapsto> f c)\<rparr>))"

definition upd_stream :: "addr \<Rightarrow> (lua_ctx \<Rightarrow> lua_ctx) \<Rightarrow> worker \<Rightarrow> worker option" where
  "upd_stream r f w =
     (case w_stream w r of None \<Rightarrow> None | Some c \<Rightarrow> Some (w\<lparr>w_stream := (w_stream w)(r \<mapsto> f c)\<rparr>))"

definition upd_queues :: "(queues \<Rightarrow> queues) \<Rightarrow> worker \<Rightarrow> worker" where
  "upd_queues f w = w\<lparr>w_queues := f (w_queues w)\<rparr>"

definition lua_push :: "addr \<Rightarrow> lua_val list \<Rightarrow> worker \<Rightarrow> worker" where
  "lua_push co vs w = w\<lparr>w_lua := w_lua w @ [(co, vs)]\<rparr>"

text \<open>\<^verbatim>\<open>ngx_queue_data\<close>: the structure around a link.\<close>

fun sctx_of_link :: "link \<Rightarrow> addr option" where
  "sctx_of_link (SctxQueue a) = Some a"
| "sctx_of_link _ = None"

fun pctx_of_link :: "link \<Rightarrow> addr option" where
  "pctx_of_link (PctxQueue a) = Some a"
| "pctx_of_link _ = None"

definition free_buf :: "addr \<Rightarrow> worker \<Rightarrow> worker option" where
  "free_buf p w =
     (case grpc_engine_free p (w_heap w) of None \<Rightarrow> None | Some h \<Rightarrow> Some (w\<lparr>w_heap := h\<rparr>))"

text \<open>Reading \<open>n\<close> bytes from a block.\<close>

definition read_buf :: "addr \<Rightarrow> u64 \<Rightarrow> worker \<Rightarrow> bytes option" where
  "read_buf p n w =
     (case w_heap w p of
        None \<Rightarrow> None
      | Some b \<Rightarrow> if unat n \<le> length b then Some (take (unat n) b) else None)"

text \<open>\<^verbatim>\<open>finished_tasks[i]\<close>.\<close>

definition finished_task :: "worker \<Rightarrow> nat \<Rightarrow> ngx_grpc_cli_task_res option" where
  "finished_task w i =
     (case w_heap w (w_finished_tasks w) of
        None \<Rightarrow> None
      | Some block \<Rightarrow> read_task_res (w_host w) block i)"

subsection \<open>Lemmas\<close>

lemma upd_eq_Some_iff:
  "upd_ctx p f w = Some w' \<longleftrightarrow> (\<exists>c. w_ctxs w p = Some c \<and> w' = w\<lparr>w_ctxs := (w_ctxs w)(p \<mapsto> f c)\<rparr>)"
  "upd_sctx p g w = Some w' \<longleftrightarrow> (\<exists>c. w_sctxs w p = Some c \<and> w' = w\<lparr>w_sctxs := (w_sctxs w)(p \<mapsto> g c)\<rparr>)"
  "upd_co p k w = Some w' \<longleftrightarrow> (\<exists>c. w_cos w p = Some c \<and> w' = w\<lparr>w_cos := (w_cos w)(p \<mapsto> k c)\<rparr>)"
  "upd_http r l w = Some w' \<longleftrightarrow> (\<exists>c. w_http w r = Some c \<and> w' = w\<lparr>w_http := (w_http w)(r \<mapsto> l c)\<rparr>)"
  "upd_stream r l w = Some w' \<longleftrightarrow> (\<exists>c. w_stream w r = Some c \<and> w' = w\<lparr>w_stream := (w_stream w)(r \<mapsto> l c)\<rparr>)"
  by (auto simp: upd_ctx_def upd_sctx_def upd_co_def upd_http_def upd_stream_def split: option.split)

lemma upd_live [simp]:
  "w_ctxs w p = Some c \<Longrightarrow> upd_ctx p f w = Some (w\<lparr>w_ctxs := (w_ctxs w)(p \<mapsto> f c)\<rparr>)"
  "w_sctxs w p = Some s \<Longrightarrow> upd_sctx p g w = Some (w\<lparr>w_sctxs := (w_sctxs w)(p \<mapsto> g s)\<rparr>)"
  "w_cos w p = Some o1 \<Longrightarrow> upd_co p k w = Some (w\<lparr>w_cos := (w_cos w)(p \<mapsto> k o1)\<rparr>)"
  "w_http w r = Some l1 \<Longrightarrow> upd_http r l w = Some (w\<lparr>w_http := (w_http w)(r \<mapsto> l l1)\<rparr>)"
  "w_stream w r = Some l1 \<Longrightarrow> upd_stream r l w = Some (w\<lparr>w_stream := (w_stream w)(r \<mapsto> l l1)\<rparr>)"
  by (simp_all add: upd_ctx_def upd_sctx_def upd_co_def upd_http_def upd_stream_def)

lemma free_buf_live [simp]:
  "free_buf NULL w = Some w"
  "w_heap w p = Some b \<Longrightarrow> p \<noteq> NULL \<Longrightarrow> free_buf p w = Some (w\<lparr>w_heap := (w_heap w)(p := None)\<rparr>)"
  by (simp_all add: free_buf_def)

lemma free_buf_eq_Some_iff:
  "free_buf p w = Some w' \<longleftrightarrow>
     (if p = NULL then w' = w
      else p \<in> dom (w_heap w) \<and> w' = w\<lparr>w_heap := (w_heap w)(p := None)\<rparr>)"
  by (auto simp: free_buf_def grpc_engine_free_def split: option.split)

end
