(* ===== verification/Cli_Tasks.thy ===== *)
theory Cli_Tasks
  imports Cli_State
begin

text \<open>
  The table of ongoing tasks of \<^verbatim>\<open>src/ngx_grpc_client.c\<close>: the red-black tree
  \<^verbatim>\<open>ngx_grpc_cli_ongoing_tasks\<close>, keyed by the address of the stream context, and
  its counter.  The locale \<open>task_table\<close> is the contract the event handlers rely
  on; the three functions of the module meet it on any tree implementation that
  satisfies \<open>ngx_laws\<close>.
\<close>

subsection \<open>Operations\<close>

text \<open>The \<^verbatim>\<open>while\<close> loop walks from the root; \<open>None\<close> is the \<^verbatim>\<open>NULL\<close> result.\<close>

fun lookup_walk :: "u64 \<Rightarrow> rbtree \<Rightarrow> addr option" where
  "lookup_walk key Sentinel = None"
| "lookup_walk key (RbNode l n k r) =
     (if key < k then lookup_walk key l
      else if key > k then lookup_walk key r
      else Some n)"

definition ngx_grpc_cli_lookup_task :: "u64 \<Rightarrow> worker \<Rightarrow> addr option" where
  "ngx_grpc_cli_lookup_task key w = lookup_walk key (w_tree w)"

definition ngx_grpc_cli_task_num :: "worker \<Rightarrow> int" where
  "ngx_grpc_cli_task_num w = w_num w"

text \<open>\<open>node\<close> is what \<^verbatim>\<open>ngx_alloc\<close> returns.\<close>

definition ngx_grpc_cli_keep_task ::
  "ngx_api \<Rightarrow> addr \<Rightarrow> addr \<Rightarrow> worker \<Rightarrow> (int \<times> worker) option"
where
  "ngx_grpc_cli_keep_task N node ctx w =
     (if node = NULL then Some (NGX_ERROR, w)
      else do {
        let w = w\<lparr>w_num := w_num w + 1\<rparr>;
        let w = w\<lparr>w_tree := rbtree_insert N node ctx (w_tree w)\<rparr>;
        w \<leftarrow> upd_sctx ctx (\<lambda>s. s\<lparr>sctx_node := node\<rparr>) w;
        Some (NGX_OK, w) })"

text \<open>Deleting a node that is not in the tree is undefined.\<close>

definition ngx_grpc_cli_unkeep_task :: "ngx_api \<Rightarrow> addr \<Rightarrow> worker \<Rightarrow> worker option" where
  "ngx_grpc_cli_unkeep_task N ctx w =
     do { s \<leftarrow> w_sctxs w ctx;
          if sctx_node s = NULL then Some w
          else do {
            let w = w\<lparr>w_num := w_num w - 1\<rparr>;
            guard (sctx_node s \<in> set (map fst (rb_inorder (w_tree w))));
            let w = w\<lparr>w_tree := rbtree_delete N (sctx_node s) (w_tree w)\<rparr>;
            upd_sctx ctx (\<lambda>s. s\<lparr>sctx_node := NULL\<rparr>) w } }"

subsection \<open>Contract\<close>

text \<open>The tasks the stream contexts say are kept.\<close>

definition kept :: "worker \<Rightarrow> u64 set" where
  "kept w = {k. \<exists>s. w_sctxs w k = Some s \<and> sctx_node s \<noteq> NULL}"

text \<open>The tree holds exactly the nodes the stream contexts point to, and the counter counts them.\<close>

definition tasks_ok :: "worker \<Rightarrow> bool" where
  "tasks_ok w \<longleftrightarrow>
     rb_sorted (w_tree w) \<and>
     w_num w = int (length (rb_inorder (w_tree w))) \<and>
     (\<forall>n k. (n, k) \<in> rb_nodes (w_tree w) \<longleftrightarrow>
        n \<noteq> NULL \<and> (\<exists>s. w_sctxs w k = Some s \<and> sctx_node s = n))"

text \<open>What \<open>keep\<close> and \<open>unkeep\<close> may touch.\<close>

definition same_but_tasks :: "worker \<Rightarrow> worker \<Rightarrow> bool" where
  "same_but_tasks w w' \<longleftrightarrow>
     w'\<lparr>w_tree := w_tree w, w_num := w_num w, w_sctxs := w_sctxs w\<rparr> = w"

locale task_table =
  fixes table_ok :: "worker \<Rightarrow> bool"
    and lookup :: "u64 \<Rightarrow> worker \<Rightarrow> addr option"
    and keep :: "addr \<Rightarrow> addr \<Rightarrow> worker \<Rightarrow> (int \<times> worker) option"
    and unkeep :: "addr \<Rightarrow> worker \<Rightarrow> worker option"
    and number :: "worker \<Rightarrow> int"
  assumes lookup_kept: "table_ok w \<Longrightarrow> lookup k w = None \<longleftrightarrow> k \<notin> kept w"
    and keep_none: "keep NULL k w = Some (NGX_ERROR, w)"
    and keep_some:
      "table_ok w \<Longrightarrow> w_sctxs w k = Some s \<Longrightarrow> sctx_node s = NULL \<Longrightarrow> n \<noteq> NULL \<Longrightarrow>
       n \<notin> fst ` rb_nodes (w_tree w) \<Longrightarrow>
       \<exists>w'. keep n k w = Some (NGX_OK, w') \<and> table_ok w' \<and> kept w' = insert k (kept w) \<and>
            same_but_tasks w w' \<and> w_sctxs w' = (w_sctxs w)(k \<mapsto> s\<lparr>sctx_node := n\<rparr>)"
    and unkeep_some:
      "table_ok w \<Longrightarrow> w_sctxs w k = Some s \<Longrightarrow>
       \<exists>w'. unkeep k w = Some w' \<and> table_ok w' \<and> kept w' = kept w - {k} \<and>
            same_but_tasks w w' \<and> w_sctxs w' = (w_sctxs w)(k \<mapsto> s\<lparr>sctx_node := NULL\<rparr>)"
    and number_kept: "table_ok w \<Longrightarrow> number w = int (card (kept w))"
begin

lemma keep_lookup:
  assumes "table_ok w" "w_sctxs w k = Some s" "sctx_node s = NULL" "n \<noteq> NULL"
    "n \<notin> fst ` rb_nodes (w_tree w)" "keep n k w = Some (rc, w')"
  shows "lookup j w' = None \<longleftrightarrow> j \<noteq> k \<and> lookup j w = None"
proof -
  have "table_ok w'" "kept w' = insert k (kept w)"
    using keep_some [OF assms(1-5)] assms(6) by auto
  then show ?thesis using assms(1) by (simp add: lookup_kept)
qed

lemma unkeep_lookup:
  assumes "table_ok w" "w_sctxs w k = Some s" "unkeep k w = Some w'"
  shows "lookup j w' = None \<longleftrightarrow> j = k \<or> lookup j w = None"
proof -
  have "table_ok w'" "kept w' = kept w - {k}"
    using unkeep_some [OF assms(1,2)] assms(3) by auto
  then show ?thesis using assms(1) by (auto simp: lookup_kept)
qed

lemma keep_unkeep_kept:
  assumes "table_ok w" "w_sctxs w k = Some s" "sctx_node s = NULL" "n \<noteq> NULL"
    "n \<notin> fst ` rb_nodes (w_tree w)" "keep n k w = Some (rc, w1)" "unkeep k w1 = Some w2"
  shows "kept w2 = kept w \<and> number w2 = number w"
proof -
  obtain w1' where "keep n k w = Some (NGX_OK, w1')" "table_ok w1'" "kept w1' = insert k (kept w)"
    "w_sctxs w1' = (w_sctxs w)(k \<mapsto> s\<lparr>sctx_node := n\<rparr>)"
    using keep_some [OF assms(1-5)] by blast
  then have k1: "table_ok w1" "kept w1 = insert k (kept w)"
    "w_sctxs w1 k = Some (s\<lparr>sctx_node := n\<rparr>)"
    using assms(6) by auto
  obtain w2' where "unkeep k w1 = Some w2'" "table_ok w2'" "kept w2' = kept w1 - {k}"
    using unkeep_some [OF k1(1,3)] by blast
  then have "table_ok w2" "kept w2 = kept w1 - {k}" using assms(7) by auto
  moreover have "k \<notin> kept w" using assms(2,3) by (simp add: kept_def)
  ultimately have "kept w2 = kept w" using k1(2) by auto
  with number_kept [OF \<open>table_ok w2\<close>] number_kept [OF assms(1)] show ?thesis by simp
qed

end

subsection \<open>The walk\<close>

lemma lookup_walk_Some:
  "lookup_walk key t = Some n \<Longrightarrow> (n, key) \<in> rb_nodes t"
  by (induction key t rule: lookup_walk.induct) (auto simp: rb_nodes_node split: if_splits)

lemma lookup_walk_complete:
  "rb_sorted t \<Longrightarrow> (n, key) \<in> rb_nodes t \<Longrightarrow> lookup_walk key t \<noteq> None"
proof (induction key t rule: lookup_walk.induct)
  case (2 key l m k r)
  from "2.prems"(1) have s: "rb_sorted l" "rb_sorted r"
    "\<forall>p\<in>rb_nodes l. snd p \<le> k" "\<forall>p\<in>rb_nodes r. k \<le> snd p"
    by (auto simp: rb_sorted_node)
  consider "(n, key) = (m, k)" | "(n, key) \<in> rb_nodes l" | "(n, key) \<in> rb_nodes r"
    using "2.prems"(2) by (auto simp: rb_nodes_node)
  then show ?case
  proof cases
    case 1
    then show ?thesis by simp
  next
    case 2
    then have "key \<le> k" using s(3) by force
    with 2 show ?thesis using "2.IH"(1) s(1) by auto
  next
    case 3
    then have "k \<le> key" using s(4) by force
    with 3 show ?thesis using "2.IH"(2) s(2) by auto
  qed
qed simp

lemma tasks_okD:
  assumes "tasks_ok w"
  shows "rb_sorted (w_tree w)"
    and "w_num w = int (length (rb_inorder (w_tree w)))"
    and "(n, k) \<in> rb_nodes (w_tree w) \<longleftrightarrow>
           n \<noteq> NULL \<and> (\<exists>s. w_sctxs w k = Some s \<and> sctx_node s = n)"
  using assms by (auto simp: tasks_ok_def)

lemma same_but_tasksD:
  "same_but_tasks w w' \<Longrightarrow> w' = w\<lparr>w_tree := w_tree w', w_num := w_num w', w_sctxs := w_sctxs w'\<rparr>"
  by (cases w; cases w') (simp add: same_but_tasks_def)

lemma kept_alt: "tasks_ok w \<Longrightarrow> kept w = snd ` rb_nodes (w_tree w)"
  by (force simp: kept_def tasks_ok_def)

lemma lookup_task_iff:
  assumes "tasks_ok w"
  shows "ngx_grpc_cli_lookup_task k w = Some n \<longleftrightarrow>
         n \<noteq> NULL \<and> (\<exists>s. w_sctxs w k = Some s \<and> sctx_node s = n)"
proof
  assume "ngx_grpc_cli_lookup_task k w = Some n"
  then have "(n, k) \<in> rb_nodes (w_tree w)"
    by (simp add: ngx_grpc_cli_lookup_task_def lookup_walk_Some)
  then show "n \<noteq> NULL \<and> (\<exists>s. w_sctxs w k = Some s \<and> sctx_node s = n)"
    by (simp add: tasks_okD(3) [OF assms])
next
  assume n: "n \<noteq> NULL \<and> (\<exists>s. w_sctxs w k = Some s \<and> sctx_node s = n)"
  then have "(n, k) \<in> rb_nodes (w_tree w)" by (simp add: tasks_okD(3) [OF assms])
  then obtain m where m: "lookup_walk k (w_tree w) = Some m"
    using lookup_walk_complete assms tasks_okD(1) by blast
  then have "(m, k) \<in> rb_nodes (w_tree w)" by (rule lookup_walk_Some)
  with n m show "ngx_grpc_cli_lookup_task k w = Some n"
    by (auto simp: ngx_grpc_cli_lookup_task_def tasks_okD(3) [OF assms])
qed

lemma lookup_task_kept:
  assumes "tasks_ok w"
  shows "ngx_grpc_cli_lookup_task k w = None \<longleftrightarrow> k \<notin> kept w"
proof (cases "ngx_grpc_cli_lookup_task k w")
  case None
  with lookup_task_iff [OF assms, of k] show ?thesis by (auto simp: kept_def)
next
  case (Some n)
  with lookup_task_iff [OF assms, of k n] show ?thesis by (auto simp: kept_def)
qed

lemma inj_snd_rb_nodes:
  assumes "tasks_ok w" shows "inj_on snd (rb_nodes (w_tree w))"
  using assms by (auto simp: inj_on_def tasks_ok_def)

lemma task_num_card:
  assumes "tasks_ok w" shows "w_num w = int (card (kept w))"
  using assms card_image [OF inj_snd_rb_nodes [OF assms]]
  by (simp add: kept_alt tasks_okD card_rb_nodes)

subsection \<open>The functions of the module meet the contract\<close>

context ngx_laws
begin

lemma keep_task_ok:
  assumes "tasks_ok w" "w_sctxs w k = Some s" "sctx_node s = NULL" "n \<noteq> NULL"
    and fresh: "n \<notin> fst ` rb_nodes (w_tree w)"
  defines "w' \<equiv> w\<lparr>w_num := w_num w + 1, w_tree := rbtree_insert N n k (w_tree w),
                  w_sctxs := (w_sctxs w)(k \<mapsto> s\<lparr>sctx_node := n\<rparr>)\<rparr>"
  shows "ngx_grpc_cli_keep_task N n k w = Some (NGX_OK, w')" and "tasks_ok w'"
proof -
  show "ngx_grpc_cli_keep_task N n k w = Some (NGX_OK, w')"
    using assms by (simp add: ngx_grpc_cli_keep_task_def w'_def)
  have ins: "rb_sorted (w_tree w')" "rb_nodes (w_tree w') = insert (n, k) (rb_nodes (w_tree w))"
    using rbtree_insert [OF tasks_okD(1) [OF assms(1)] fresh] by (simp_all add: w'_def)
  have new: "(n, k) \<notin> rb_nodes (w_tree w)" using fresh by force
  have "w_num w' = int (length (rb_inorder (w_tree w')))"
    using ins new card_rb_nodes [OF ins(1)] card_rb_nodes [OF tasks_okD(1) [OF assms(1)]]
    by (simp add: tasks_okD(2) [OF assms(1)] w'_def)
  moreover have "((m, j) \<in> rb_nodes (w_tree w')) =
      (m \<noteq> NULL \<and> (\<exists>s. w_sctxs w' j = Some s \<and> sctx_node s = m))" for m j
    using assms(2-4) by (simp only: ins insert_iff tasks_okD(3) [OF assms(1)]) (auto simp: w'_def)
  ultimately show "tasks_ok w'" using ins by (simp add: tasks_ok_def)
qed

lemma unkeep_task_ok:
  assumes "tasks_ok w" "w_sctxs w k = Some s"
  shows "\<exists>w'. ngx_grpc_cli_unkeep_task N k w = Some w' \<and> tasks_ok w' \<and> same_but_tasks w w' \<and>
           w_sctxs w' = (w_sctxs w)(k \<mapsto> s\<lparr>sctx_node := NULL\<rparr>)"
proof (cases "sctx_node s = NULL")
  case True
  then have s: "s\<lparr>sctx_node := NULL\<rparr> = s" by simp
  have "same_but_tasks w w" by (simp add: same_but_tasks_def)
  with True assms show ?thesis
    by (auto simp: ngx_grpc_cli_unkeep_task_def s fun_upd_idem)
next
  case False
  let ?n = "sctx_node s"
  let ?w = "w\<lparr>w_num := w_num w - 1, w_tree := rbtree_delete N ?n (w_tree w),
             w_sctxs := (w_sctxs w)(k \<mapsto> s\<lparr>sctx_node := NULL\<rparr>)\<rparr>"
  have mem: "(?n, k) \<in> rb_nodes (w_tree w)"
    using assms(2) False by (simp add: tasks_okD(3) [OF assms(1)])
  then have "?n \<in> set (map fst (rb_inorder (w_tree w)))" by (force simp: rb_nodes_def)
  then have run: "ngx_grpc_cli_unkeep_task N k w = Some ?w"
    using assms(2) False by (simp add: ngx_grpc_cli_unkeep_task_def Let_def)
  have del: "rb_sorted (w_tree ?w)" "rb_nodes (w_tree ?w) = rb_nodes (w_tree w) - {(?n, k)}"
    using rbtree_delete [OF tasks_okD(1) [OF assms(1)] mem] by simp_all
  have "card (rb_nodes (w_tree w)) = Suc (card (rb_nodes (w_tree ?w)))"
    unfolding del(2) using mem by (intro card.remove) auto
  then have "w_num ?w = int (length (rb_inorder (w_tree ?w)))"
    using card_rb_nodes [OF del(1)] card_rb_nodes [OF tasks_okD(1) [OF assms(1)]]
      tasks_okD(2) [OF assms(1)]
    by simp
  moreover have "((m, j) \<in> rb_nodes (w_tree ?w)) =
      (m \<noteq> NULL \<and> (\<exists>s. w_sctxs ?w j = Some s \<and> sctx_node s = m))" for m j
  proof (cases "j = k")
    case True
    then have "(m, j) \<in> rb_nodes (w_tree w) \<longleftrightarrow> m = ?n \<and> m \<noteq> NULL"
      using assms(2) by (auto simp: tasks_okD(3) [OF assms(1)])
    with True show ?thesis by (simp only: del) auto
  next
    case False
    then show ?thesis by (simp only: del) (simp add: tasks_okD(3) [OF assms(1)])
  qed
  ultimately have "tasks_ok ?w" using del by (simp add: tasks_ok_def)
  moreover have "same_but_tasks w ?w" by (simp add: same_but_tasks_def)
  ultimately show ?thesis using run by auto
qed

end

sublocale ngx_laws \<subseteq> tasks: task_table tasks_ok ngx_grpc_cli_lookup_task
  "ngx_grpc_cli_keep_task N" "ngx_grpc_cli_unkeep_task N" ngx_grpc_cli_task_num
proof (unfold_locales, goal_cases)
  case (1 w k)
  then show ?case by (rule lookup_task_kept)
next
  case (2 k w)
  then show ?case by (simp add: ngx_grpc_cli_keep_task_def)
next
  case (3 w k s n)
  have "kept (w\<lparr>w_num := a, w_tree := t, w_sctxs := (w_sctxs w)(k \<mapsto> s\<lparr>sctx_node := n\<rparr>)\<rparr>) = insert k (kept w)" for a t
    using 3 by (auto simp: kept_def)
  with keep_task_ok [OF 3] show ?case by (auto simp: same_but_tasks_def)
next
  case (4 w k s)
  obtain w' where w': "ngx_grpc_cli_unkeep_task N k w = Some w'" "tasks_ok w'" "same_but_tasks w w'"
    "w_sctxs w' = (w_sctxs w)(k \<mapsto> s\<lparr>sctx_node := NULL\<rparr>)"
    using unkeep_task_ok [OF 4] by blast
  then have "kept w' = kept w - {k}" by (auto simp: kept_def)
  with w' show ?case by blast
next
  case (5 w)
  then show ?case by (simp add: ngx_grpc_cli_task_num_def task_num_card)
qed

end
