(* ===== verification/Cli_Conn.thy ===== *)
theory Cli_Conn
  imports Cli_Tasks
begin

text \<open>
  Connections and streams of \<^verbatim>\<open>src/ngx_grpc_client.c\<close>: the functions the Lua library
  calls through the FFI.  Errors are reported as the source does, by a return code
  (or \<^verbatim>\<open>NULL\<close>) and a text in \<^verbatim>\<open>err_buf\<close>, here an optional string (\<open>None\<close>: the buffer
  was not written).  \<open>err_len\<close> is the capacity the caller put in \<^verbatim>\<open>*err_len\<close>.
\<close>

subsection \<open>Connecting and closing\<close>

text \<open>\<^verbatim>\<open>ngx_calloc\<close> is allocation 0, the engine's \<^verbatim>\<open>C.malloc\<close> allocation 1.\<close>

definition ngx_grpc_cli_connect ::
  "ngx_api \<Rightarrow> grpc_lib \<Rightarrow> sys_env \<Rightarrow> string \<Rightarrow> DialOpt \<Rightarrow> worker \<Rightarrow> (addr \<times> string option) \<times> worker"
where
  "ngx_grpc_cli_connect N G E target dial_opt w =
     (let ctx = sys_alloc E 0
      in if ctx = NULL then ((NULL, None), w)
         else
           let w = w\<lparr>w_ctxs := (w_ctxs w)(ctx \<mapsto> \<lparr>engine_ctx = NULL, free_delayed = False\<rparr>)\<rparr>;
               w = upd_queues (queue_init N (CtxFree ctx)) w;
               w = upd_queues (queue_init N (CtxOpening ctx)) w;
               (ectx, err, g) = grpc_engine_connect G (sys_alloc E 1) target dial_opt (w_eng w);
               w = w\<lparr>w_eng := g\<rparr>
           in if ectx = NULL
              then ((NULL, err), w\<lparr>w_ctxs := (w_ctxs w)(ctx := None)\<rparr>)
              else ((ctx, err),
                    w\<lparr>w_ctxs := (w_ctxs w)(ctx \<mapsto> \<lparr>engine_ctx = ectx, free_delayed = False\<rparr>)\<rparr>))"

text \<open>The loop of \<^verbatim>\<open>ngx_grpc_cli_free_conn\<close> frees the stream contexts of the free queue.\<close>

partial_function (option) free_conn_loop :: "ngx_api \<Rightarrow> addr \<Rightarrow> worker \<Rightarrow> worker option" where
  "free_conn_loop N ctx w =
     (if queue_empty N (CtxFree ctx) (w_queues w) then Some w
      else do {
        let q = queue_last N (CtxFree ctx) (w_queues w);
        let w = upd_queues (queue_remove N q) w;
        sctx \<leftarrow> sctx_of_link q;
        guard (sctx \<in> dom (w_sctxs w));
        free_conn_loop N ctx (w\<lparr>w_sctxs := (w_sctxs w)(sctx := None)\<rparr>) })"

definition ngx_grpc_cli_free_conn :: "ngx_api \<Rightarrow> addr \<Rightarrow> worker \<Rightarrow> worker option" where
  "ngx_grpc_cli_free_conn N ctx w =
     do { w \<leftarrow> free_conn_loop N ctx w;
          guard (ctx \<in> dom (w_ctxs w));
          Some (w\<lparr>w_ctxs := (w_ctxs w)(ctx := None)\<rparr>) }"

text \<open>\<^verbatim>\<open>r == NULL\<close> is the call from the garbage collector.\<close>

definition ngx_grpc_cli_close :: "ngx_api \<Rightarrow> addr \<Rightarrow> addr \<Rightarrow> worker \<Rightarrow> worker option" where
  "ngx_grpc_cli_close N ctx r w =
     do { c \<leftarrow> w_ctxs w ctx;
          w \<leftarrow> (if engine_ctx c \<noteq> NULL
                then upd_ctx ctx (\<lambda>c. c\<lparr>engine_ctx := NULL\<rparr>)
                       (w\<lparr>w_eng := grpc_engine_close (engine_ctx c) (w_eng w)\<rparr>)
                else Some w);
          if r \<noteq> NULL then Some w
          else if \<not> queue_empty N (CtxOpening ctx) (w_queues w)
          then upd_ctx ctx (\<lambda>c. c\<lparr>free_delayed := True\<rparr>) w
          else ngx_grpc_cli_free_conn N ctx w }"

subsection \<open>Starting a task\<close>

definition ngx_grpc_cli_schedule_task_thread_if_needed ::
  "sys_env \<Rightarrow> worker \<Rightarrow> (int \<times> worker) option"
where
  "ngx_grpc_cli_schedule_task_thread_if_needed E w =
     do { guard (conf_task (w_conf w) \<noteq> NULL);
          if \<not> w_task_active w
          then (let (rc, active) = sys_task_post E (w_task_active w);
                    w = w\<lparr>w_task_active := active\<rparr>
                in if rc \<noteq> NGX_OK then Some (NGX_ERROR, w) else Some (NGX_OK, w))
          else Some (NGX_OK, w) }"

text \<open>The last part of \<^verbatim>\<open>ngx_grpc_cli_kick_off_task\<close>, the same for both subsystems but for the
  cleanup handler.\<close>

definition arm_wait_co_ctx ::
  "ngx_api \<Rightarrow> bool \<Rightarrow> addr \<Rightarrow> addr \<Rightarrow> CallOpt \<Rightarrow> worker \<Rightarrow> worker option"
where
  "arm_wait_co_ctx N is_http sctx wait_co_ctx call_opt w =
     do { w \<leftarrow> upd_sctx sctx (\<lambda>s. s\<lparr>sctx_wait_co_ctx := wait_co_ctx\<rparr>) w;
          upd_co wait_co_ctx
            (\<lambda>c. c\<lparr>co_data := sctx,
                   co_sleep := add_timer N
                     ((co_sleep c)\<lparr>ev_handler := TimeoutHandler, ev_data := sctx\<rparr>) (co_timeout call_opt),
                   co_cleanup := (if is_http then HttpCleanup else StreamCleanup)\<rparr>) w }"

text \<open>The node of the tree is allocation 1.\<close>

definition ngx_grpc_cli_kick_off_task ::
  "ngx_api \<Rightarrow> sys_env \<Rightarrow> nat \<Rightarrow> addr \<Rightarrow> addr \<Rightarrow> CallOpt \<Rightarrow> worker
     \<Rightarrow> ((int \<times> string option) \<times> worker) option"
where
  "ngx_grpc_cli_kick_off_task N E err_len r sctx call_opt w =
     do { s \<leftarrow> w_sctxs w sctx;
          case (if sctx_is_http s then w_http w r else w_stream w r) of
            None \<Rightarrow> Some ((NGX_ERROR, Some (snprintf N err_len ''no request ctx found'')), w)
          | Some lctx \<Rightarrow>
            (case sys_check_context E r of
               Some msg \<Rightarrow> Some ((NGX_ERROR, Some msg), w)
             | None \<Rightarrow>
               do { (rc, w) \<leftarrow> ngx_grpc_cli_schedule_task_thread_if_needed E w;
                    if rc \<noteq> NGX_OK
                    then Some ((NGX_ERROR, Some (snprintf N err_len ''task post failed'')), w)
                    else do {
                      (rc, w) \<leftarrow> ngx_grpc_cli_keep_task N (sys_alloc E 1) sctx w;
                      if rc \<noteq> NGX_OK
                      then Some ((NGX_ERROR, Some (snprintf N err_len ''no memory'')), w)
                      else do {
                        w \<leftarrow> upd_sctx sctx (\<lambda>s. s\<lparr>sctx_state := NGX_GRPC_CLIENT_STATE_OK\<rparr>) w;
                        w \<leftarrow> arm_wait_co_ctx N (sctx_is_http s) sctx (cur_co_ctx lctx) call_opt w;
                        Some ((NGX_OK, None), w) } } }) }"

subsection \<open>New streams and unary calls\<close>

text \<open>A stream context from the free queue, or a new one (allocation 0); \<^verbatim>\<open>NULL\<close> without memory.\<close>

definition take_stream_ctx :: "ngx_api \<Rightarrow> sys_env \<Rightarrow> addr \<Rightarrow> worker \<Rightarrow> (addr \<times> worker) option" where
  "take_stream_ctx N E ctx w =
     (if \<not> queue_empty N (CtxFree ctx) (w_queues w)
      then do {
        let q = queue_last N (CtxFree ctx) (w_queues w);
        let w = upd_queues (queue_remove N q) w;
        sctx \<leftarrow> sctx_of_link q;
        w \<leftarrow> upd_sctx sctx (\<lambda>_. zero_sctx) w;
        Some (sctx, w) }
      else if sys_alloc E 0 = NULL then Some (NULL, w)
      else Some (sys_alloc E 0, w\<lparr>w_sctxs := (w_sctxs w)(sys_alloc E 0 \<mapsto> zero_sctx)\<rparr>))"

text \<open>The request handed to the engine, and the \<^verbatim>\<open>opening\<close> queue for streams.\<close>

definition submit_task ::
  "ngx_api \<Rightarrow> addr \<Rightarrow> addr \<Rightarrow> string \<Rightarrow> bytes \<Rightarrow> CallOpt \<Rightarrow> int \<Rightarrow> worker \<Rightarrow> worker option"
where
  "submit_task N sctx ctx method req call_opt stream_type w =
     do { c \<leftarrow> w_ctxs w ctx;
          if stream_type \<noteq> STREAM_TYPE_UNARY
          then do {
            g \<leftarrow> grpc_engine_new_stream sctx (engine_ctx c) method req call_opt stream_type (w_eng w);
            Some (upd_queues (queue_insert_head N (CtxOpening ctx) (SctxQueue sctx)) (w\<lparr>w_eng := g\<rparr>)) }
          else do {
            g \<leftarrow> grpc_engine_call sctx (engine_ctx c) method req call_opt (w_eng w);
            Some (w\<lparr>w_eng := g\<rparr>) } }"

definition ngx_grpc_cli_new_stream ::
  "ngx_api \<Rightarrow> sys_env \<Rightarrow> nat \<Rightarrow> addr \<Rightarrow> bool \<Rightarrow> addr \<Rightarrow> string \<Rightarrow> bytes \<Rightarrow> CallOpt \<Rightarrow> int \<Rightarrow> worker
     \<Rightarrow> ((addr \<times> string option) \<times> worker) option"
where
  "ngx_grpc_cli_new_stream N E err_len r is_http ctx method req call_opt stream_type w =
     do { c \<leftarrow> w_ctxs w ctx;
          if engine_ctx c = NULL
          then Some ((NULL, Some (snprintf N err_len ''closed'')), w)
          else do {
            (sctx, w) \<leftarrow> take_stream_ctx N E ctx w;
            if sctx = NULL
            then Some ((NULL, Some (snprintf N err_len ''no memory'')), w)
            else do {
              w \<leftarrow> upd_sctx sctx
                     (\<lambda>s. s\<lparr>sctx_r := r, sctx_is_http := is_http, sctx_parent := ctx,
                            sctx_type := stream_type\<rparr>) w;
              ((rc, err), w) \<leftarrow> ngx_grpc_cli_kick_off_task N E err_len r sctx call_opt w;
              if rc \<noteq> NGX_OK
              then Some ((NULL, err), upd_queues (queue_insert_head N (CtxFree ctx) (SctxQueue sctx)) w)
              else do {
                w \<leftarrow> submit_task N sctx ctx method req call_opt stream_type w;
                Some ((sctx, None), w) } } } }"

text \<open>
  The branch of \<^verbatim>\<open>ngx_grpc_cli_call\<close> with \<^verbatim>\<open>blocking_call_output\<close>: the task id is the
  address of a stack variable, and the worker blocks in \<^verbatim>\<open>grpc_engine_wait\<close> while the
  engine runs on (\<open>bg\<close>: what goroutines and timers do to the engine meanwhile).
  The result is the return code, the error text and the pair \<^verbatim>\<open>data\<close>, \<^verbatim>\<open>len\<close>.
\<close>

definition ngx_grpc_cli_call_blocking ::
  "ngx_api \<Rightarrow> nat \<Rightarrow> addr \<Rightarrow> addr \<Rightarrow> string \<Rightarrow> bytes \<Rightarrow> CallOpt \<Rightarrow> (engine \<Rightarrow> engine)
     \<Rightarrow> (nat \<Rightarrow> addr) \<Rightarrow> addr \<Rightarrow> worker
     \<Rightarrow> ((int \<times> string option \<times> (addr \<times> u64) option) \<times> worker) option"
where
  "ngx_grpc_cli_call_blocking N err_len stack ctx method req call_opt bg al arr w =
     do { c \<leftarrow> w_ctxs w ctx;
          if engine_ctx c = NULL
          then Some ((NGX_ERROR, Some (snprintf N err_len ''closed''), None), w)
          else do {
            g \<leftarrow> grpc_engine_call stack (engine_ctx c) method req call_opt (w_eng w);
            ((n_res, n), g, h) \<leftarrow> grpc_engine_wait (w_host w) al arr (bg g) (w_heap w);
            let w = w\<lparr>w_eng := g, w_heap := h\<rparr>;
            if n = 0
            then Some ((NGX_ERROR, Some (snprintf N err_len ''timeout''), None), w)
            else do {
              block \<leftarrow> w_heap w n_res;
              res \<leftarrow> read_task_res (w_host w) block 0;
              guard (res_buf res \<noteq> NULL);
              let type = res_type (res_buf res);
              let buf = res_untag (res_buf res);
              if type = NGX_GRPC_CLIENT_RES_TYPE_OK
              then do {
                w \<leftarrow> free_buf n_res w;
                Some ((NGX_OK, None, Some (buf, res_size res)), w) }
              else do {
                guard (type = NGX_GRPC_CLIENT_RES_TYPE_ERR);
                msg \<leftarrow> read_buf buf (res_size res) w;
                w \<leftarrow> free_buf buf w;
                w \<leftarrow> free_buf n_res w;
                Some ((NGX_ERROR, Some (snprintf N err_len (string_of msg)), None), w) } } } }"

text \<open>The branch without it: a unary stream.\<close>

definition ngx_grpc_cli_call ::
  "ngx_api \<Rightarrow> sys_env \<Rightarrow> nat \<Rightarrow> addr \<Rightarrow> bool \<Rightarrow> addr \<Rightarrow> string \<Rightarrow> bytes \<Rightarrow> CallOpt \<Rightarrow> worker
     \<Rightarrow> ((int \<times> string option) \<times> worker) option"
where
  "ngx_grpc_cli_call N E err_len r is_http ctx method req call_opt w =
     do { ((sctx, err), w) \<leftarrow> ngx_grpc_cli_new_stream N E err_len r is_http ctx method req call_opt
                                STREAM_TYPE_UNARY w;
          Some ((if sctx = NULL then NGX_ERROR else NGX_OK, err), w) }"

subsection \<open>Operations on a stream\<close>

definition ngx_grpc_cli_close_stream :: "ngx_api \<Rightarrow> addr \<Rightarrow> addr \<Rightarrow> worker \<Rightarrow> worker option" where
  "ngx_grpc_cli_close_stream N sctx r w =
     (let w = w\<lparr>w_eng := grpc_engine_close_stream sctx (w_eng w)\<rparr>
      in if r \<noteq> NULL then Some w
         else do {
           s \<leftarrow> w_sctxs w sctx;
           let ctx = sctx_parent s;
           let w = upd_queues (queue_remove N (SctxQueue sctx)) w;
           let w = upd_queues (queue_insert_head N (CtxFree ctx) (SctxQueue sctx)) w;
           w \<leftarrow> upd_sctx sctx (\<lambda>s. s\<lparr>sctx_r := NULL\<rparr>) w;
           c \<leftarrow> w_ctxs w ctx;
           if free_delayed c \<and> queue_empty N (CtxOpening ctx) (w_queues w)
           then ngx_grpc_cli_free_conn N ctx w
           else Some w })"

definition ngx_grpc_cli_check_stream_status ::
  "ngx_api \<Rightarrow> nat \<Rightarrow> addr \<Rightarrow> addr \<Rightarrow> worker \<Rightarrow> (int \<times> string option) option"
where
  "ngx_grpc_cli_check_stream_status N err_len sctx r w =
     do { s \<leftarrow> w_sctxs w sctx;
          Some (if sctx_r s = NULL then (NGX_ERROR, Some (snprintf N err_len ''closed''))
                else if sctx_r s \<noteq> r then (NGX_ERROR, Some (snprintf N err_len ''bad request''))
                else if sctx_wait_co_ctx s \<noteq> NULL
                then (NGX_ERROR, Some (snprintf N err_len ''busy waiting''))
                else (NGX_OK, None)) }"

definition ngx_grpc_cli_stream_recv ::
  "ngx_api \<Rightarrow> sys_env \<Rightarrow> nat \<Rightarrow> addr \<Rightarrow> addr \<Rightarrow> CallOpt \<Rightarrow> worker
     \<Rightarrow> ((int \<times> string option) \<times> worker) option"
where
  "ngx_grpc_cli_stream_recv N E err_len r sctx call_opt w =
     do { (rc, err) \<leftarrow> ngx_grpc_cli_check_stream_status N err_len sctx r w;
          if rc \<noteq> NGX_OK then Some ((NGX_ERROR, err), w)
          else do {
            ((rc, err), w) \<leftarrow> ngx_grpc_cli_kick_off_task N E err_len r sctx call_opt w;
            if rc \<noteq> NGX_OK then Some ((NGX_ERROR, err), w)
            else do {
              g \<leftarrow> grpc_engine_stream_recv sctx (w_eng w);
              Some ((NGX_OK, None), w\<lparr>w_eng := g\<rparr>) } } }"

definition ngx_grpc_cli_stream_send ::
  "ngx_api \<Rightarrow> sys_env \<Rightarrow> nat \<Rightarrow> addr \<Rightarrow> addr \<Rightarrow> CallOpt \<Rightarrow> bytes \<Rightarrow> worker
     \<Rightarrow> ((int \<times> string option) \<times> worker) option"
where
  "ngx_grpc_cli_stream_send N E err_len r sctx call_opt req w =
     do { (rc, err) \<leftarrow> ngx_grpc_cli_check_stream_status N err_len sctx r w;
          if rc \<noteq> NGX_OK then Some ((NGX_ERROR, err), w)
          else do {
            ((rc, err), w) \<leftarrow> ngx_grpc_cli_kick_off_task N E err_len r sctx call_opt w;
            if rc \<noteq> NGX_OK then Some ((NGX_ERROR, err), w)
            else do {
              g \<leftarrow> grpc_engine_stream_send sctx req (w_eng w);
              Some ((NGX_OK, None), w\<lparr>w_eng := g\<rparr>) } } }"

definition ngx_grpc_cli_stream_close_send ::
  "ngx_api \<Rightarrow> sys_env \<Rightarrow> nat \<Rightarrow> addr \<Rightarrow> addr \<Rightarrow> CallOpt \<Rightarrow> worker
     \<Rightarrow> ((int \<times> string option) \<times> worker) option"
where
  "ngx_grpc_cli_stream_close_send N E err_len r sctx call_opt w =
     do { (rc, err) \<leftarrow> ngx_grpc_cli_check_stream_status N err_len sctx r w;
          if rc \<noteq> NGX_OK then Some ((NGX_ERROR, err), w)
          else do {
            ((rc, err), w) \<leftarrow> ngx_grpc_cli_kick_off_task N E err_len r sctx call_opt w;
            if rc \<noteq> NGX_OK then Some ((NGX_ERROR, err), w)
            else do {
              g \<leftarrow> grpc_engine_stream_close_send sctx (w_eng w);
              Some ((NGX_OK, None), w\<lparr>w_eng := g\<rparr>) } } }"

definition ngx_grpc_cli_free_buf :: "addr \<Rightarrow> worker \<Rightarrow> worker option" where
  "ngx_grpc_cli_free_buf buf w = free_buf buf w"

end
