(* ===== verification/Cli_Thread.thy ===== *)
theory Cli_Thread
  imports Cli_Conn
begin

text \<open>
  The background thread of \<^verbatim>\<open>src/ngx_grpc_client.c\<close> and the worker's life cycle: the
  thread waits in the engine, its completion event copies the finished results to the
  \<^verbatim>\<open>occupied\<close> queue and posts an event, and reposts the thread while tasks are open.
\<close>

subsection \<open>The background thread\<close>

text \<open>The exit branch frees the buffers of all results, then the array.  It clears the tag in the
  element before each free; the array is freed in the same call, so the store is left out.\<close>

fun free_finished :: "nat \<Rightarrow> nat \<Rightarrow> worker \<Rightarrow> worker option" where
  "free_finished i 0 w = Some w"
| "free_finished i (Suc n) w =
     do { res \<leftarrow> finished_task w i;
          guard (res_buf res \<noteq> NULL);
          w \<leftarrow> free_buf (res_untag (res_buf res)) w;
          free_finished (Suc i) n w }"

text \<open>\<open>al\<close> and \<open>arr\<close> are the allocations inside \<^verbatim>\<open>grpc_engine_wait\<close>.\<close>

definition ngx_grpc_cli_thread_handler :: "(nat \<Rightarrow> addr) \<Rightarrow> addr \<Rightarrow> worker \<Rightarrow> worker option" where
  "ngx_grpc_cli_thread_handler al arr w =
     do { ((tasks, n), g, h) \<leftarrow> grpc_engine_wait (w_host w) al arr (w_eng w) (w_heap w);
          let w = w\<lparr>w_eng := g, w_heap := h, w_finished_tasks := tasks, w_finished_task_num := n\<rparr>;
          if w_exiting w \<or> w_terminate w
          then do {
            w \<leftarrow> free_finished 0 (nat n) w;
            if w_finished_tasks w \<noteq> NULL then free_buf (w_finished_tasks w) w else Some w }
          else Some w }"

text \<open>\<open>p\<close> is what \<^verbatim>\<open>ngx_pcalloc\<close> returns, should it be called.\<close>

definition ngx_grpc_cli_insert_posted_event_ctx ::
  "ngx_api \<Rightarrow> addr \<Rightarrow> ngx_grpc_cli_task_res \<Rightarrow> worker \<Rightarrow> worker option"
where
  "ngx_grpc_cli_insert_posted_event_ctx N p res w =
     do { (ctx, w) \<leftarrow>
            (if \<not> queue_empty N ThFree (w_queues w)
             then do {
               let q = queue_head N ThFree (w_queues w);
               let w = upd_queues (queue_remove N q) w;
               ctx \<leftarrow> pctx_of_link q;
               Some (ctx, w) }
             else Some (p, w));
          if ctx = NULL then Some w
          else Some (upd_queues (queue_insert_tail N ThOccupied (PctxQueue ctx))
                 (w\<lparr>w_pctxs := (w_pctxs w)(ctx \<mapsto> res)\<rparr>)) }"

fun post_finished :: "ngx_api \<Rightarrow> sys_env \<Rightarrow> nat \<Rightarrow> nat \<Rightarrow> worker \<Rightarrow> worker option" where
  "post_finished N E i 0 w = Some w"
| "post_finished N E i (Suc n) w =
     do { res \<leftarrow> finished_task w i;
          w \<leftarrow> ngx_grpc_cli_insert_posted_event_ctx N (sys_alloc E i) res w;
          post_finished N E (Suc i) n w }"

text \<open>nginx has cleared \<^verbatim>\<open>event.active\<close> when it calls this handler.\<close>

definition ngx_grpc_cli_thread_event_handler :: "ngx_api \<Rightarrow> sys_env \<Rightarrow> worker \<Rightarrow> worker option" where
  "ngx_grpc_cli_thread_event_handler N E w =
     do { w \<leftarrow> post_finished N E 0 (nat (w_finished_task_num w)) w;
          w \<leftarrow> (if w_finished_task_num w > 0
                then do {
                  w \<leftarrow> free_buf (w_finished_tasks w) w;
                  Some (w\<lparr>w_finished_tasks := NULL, w_posted := True\<rparr>) }
                else Some w);
          if w_quit w \<or> w_exiting w then Some w
          else if ngx_grpc_cli_task_num w \<le> w_finished_task_num w then Some w
          else Some (w\<lparr>w_task_active := snd (sys_task_post E (w_task_active w))\<rparr>) }"

subsection \<open>Life cycle of the worker\<close>

text \<open>
  What the environment of the worker answers: whether nginx has a configuration of the
  module (\<^verbatim>\<open>ngx_get_conf\<close> is not \<^verbatim>\<open>NULL\<close>); from the dynamic loader the handle (\<^verbatim>\<open>NULL\<close>: failure) and, for each symbol,
  whether it resolves; and what nginx answers for the thread pool and the two allocations.
\<close>

record load_env =
  main_conf_found :: bool
  dlopen_handle :: addr
  dlsym_found :: "string \<Rightarrow> bool"
  thread_pool_get :: addr
  thread_task_alloc :: addr
  posted_ev_alloc :: addr

definition engine_symbols :: "string list" where
  "engine_symbols =
     [''grpc_engine_connect'', ''grpc_engine_close'', ''grpc_engine_close_stream'',
      ''grpc_engine_free'', ''grpc_engine_call'', ''grpc_engine_new_stream'',
      ''grpc_engine_stream_recv'', ''grpc_engine_stream_send'',
      ''grpc_engine_stream_close_send'', ''grpc_engine_wait'']"

text \<open>
  \<^verbatim>\<open>STRINGIFY(NGX_GRPC_CLI_ENGINE_PATH)\<close>.  The macro is a list of preprocessing tokens (written without
  spaces between them): the build option's, or by default one string literal with nothing
  between its quotes.  \<^verbatim>\<open>STRINGIFY\<close> expands its argument and \<^verbatim>\<open>#x\<close> makes a string literal of the spelling,
  with a backslash before each quote and backslash of a string literal; the path is the value of that literal.
\<close>

datatype pp_token = PPLiteral string | PPOther string

abbreviation (input) quote :: char where
  "quote \<equiv> CHR 0x22"

abbreviation (input) backslash :: char where
  "backslash \<equiv> CHR 0x5C"

definition pp_spelling :: "pp_token \<Rightarrow> string" where
  "pp_spelling tok = (case tok of PPLiteral s \<Rightarrow> [quote] @ s @ [quote] | PPOther s \<Rightarrow> s)"

definition pp_escape :: "string \<Rightarrow> string" where
  "pp_escape s = concat (map (\<lambda>c. if c = quote \<or> c = backslash then [backslash, c] else [c]) s)"

definition STRINGIFY2 :: "pp_token list \<Rightarrow> string" where
  "STRINGIFY2 toks =
     concat (map (\<lambda>tok. case tok of PPLiteral _ \<Rightarrow> pp_escape (pp_spelling tok) | PPOther _ \<Rightarrow> pp_spelling tok) toks)"

fun literal_value :: "string \<Rightarrow> string" where
  "literal_value (c # s) =
     (if c = backslash then (case s of [] \<Rightarrow> [] | d # s' \<Rightarrow> d # literal_value s') else c # literal_value s)"
| "literal_value [] = []"

definition engine_path_macro :: "pp_token list option \<Rightarrow> string" where
  "engine_path_macro cc_opt =
     literal_value (STRINGIFY2 (case cc_opt of None \<Rightarrow> [PPLiteral []] | Some toks \<Rightarrow> toks))"

text \<open>\<open>conf\<close> is what \<^verbatim>\<open>ngx_pcalloc\<close> returns.\<close>

definition ngx_grpc_cli_create_main_conf :: "addr \<Rightarrow> pp_token list option \<Rightarrow> ngx_grpc_client_conf option" where
  "ngx_grpc_cli_create_main_conf conf cc_opt =
     (if conf = NULL then None
      else Some \<lparr>engine_path = engine_path_macro cc_opt, conf_engine = NULL,
                 conf_thread_pool = NULL, conf_task = NULL\<rparr>)"

definition ngx_grpc_cli_thread :: "ngx_api \<Rightarrow> load_env \<Rightarrow> worker \<Rightarrow> int \<times> worker" where
  "ngx_grpc_cli_thread N D w =
     (if thread_task_alloc D = NULL then (NGX_ERROR, w)
      else if posted_ev_alloc D = NULL then (NGX_ERROR, w)
      else
        let w = w\<lparr>w_posted := False, w_task_active := False, w_finished_tasks := NULL,
                  w_finished_task_num := 0\<rparr>;
            w = upd_queues (queue_init N ThFree) w;
            w = upd_queues (queue_init N ThOccupied) w
        in (NGX_OK,
            w\<lparr>w_conf := (w_conf w)\<lparr>conf_thread_pool := thread_pool_get D,
                                   conf_task := thread_task_alloc D\<rparr>\<rparr>))"

definition ngx_grpc_cli_init_worker :: "ngx_api \<Rightarrow> load_env \<Rightarrow> worker \<Rightarrow> int \<times> worker" where
  "ngx_grpc_cli_init_worker N D w =
     (if \<not> main_conf_found D then (NGX_OK, w)
      else if length (engine_path (w_conf w)) = 0 then (NGX_OK, w)
      else if thread_pool_get D = NULL then (NGX_OK, w)
      else
        let w = w\<lparr>w_conf := (w_conf w)\<lparr>conf_engine := dlopen_handle D\<rparr>\<rparr>
        in if dlopen_handle D = NULL then (NGX_ERROR, w)
           else if \<not> list_all (dlsym_found D) engine_symbols then (NGX_ERROR, w)
           else ngx_grpc_cli_thread N D (w\<lparr>w_num := 0, w_tree := Sentinel\<rparr>))"

text \<open>The handle passed to \<^verbatim>\<open>dlclose\<close>, if any; the configuration keeps it.\<close>

definition ngx_grpc_cli_exit_worker :: "load_env \<Rightarrow> worker \<Rightarrow> addr option" where
  "ngx_grpc_cli_exit_worker D w =
     (if \<not> main_conf_found D then None
      else if conf_engine (w_conf w) \<noteq> NULL then Some (conf_engine (w_conf w)) else None)"

text \<open>Unlike the functions above it dereferences the configuration unchecked (\<open>None\<close>: there is none).\<close>

definition ngx_grpc_cli_is_engine_inited :: "load_env \<Rightarrow> worker \<Rightarrow> bool option" where
  "ngx_grpc_cli_is_engine_inited D w =
     (if \<not> main_conf_found D then None else Some (conf_engine (w_conf w) \<noteq> NULL))"

subsection \<open>The engine path\<close>

text \<open>A path given as it is in the build option is the path; one given as a literal keeps its quotes.\<close>

lemma literal_value_escape: "literal_value (pp_escape s @ t) = s @ literal_value t"
  by (induction s) (simp_all add: pp_escape_def)

lemma literal_value_plain: "quote \<notin> set s \<Longrightarrow> backslash \<notin> set s \<Longrightarrow> literal_value s = s"
  by (induction s) auto

lemma engine_path_plain:
  "quote \<notin> set path \<Longrightarrow> backslash \<notin> set path \<Longrightarrow> engine_path_macro (Some [PPOther path]) = path"
  by (simp add: engine_path_macro_def STRINGIFY2_def pp_spelling_def literal_value_plain)

lemma engine_path_default: "engine_path_macro None = [quote, quote]"
  using literal_value_escape [of "[quote, quote]" "[]"]
  by (simp add: engine_path_macro_def STRINGIFY2_def pp_spelling_def)

end
