(* ===== verification/Cli_Resume.thy ===== *)
theory Cli_Resume
  imports Cli_Thread
begin

text \<open>
  Resuming coroutines in \<^verbatim>\<open>src/ngx_grpc_client.c\<close>: delivery of results
  (\<^verbatim>\<open>ngx_grpc_cli_put_res\<close>), the two resume handlers, the event handlers that end a
  wait (result, timeout, abort).  Running Lua code is a parameter: the record
  \<open>lua_api\<close> holds the functions of the Lua modules and of nginx that continue a
  request; they take and return the whole worker, because the Lua code they run
  calls back into the module.
\<close>

subsection \<open>The Lua modules\<close>

text \<open>
  \<open>http_core_run_phases\<close> and its stream counterpart run the request's phases, which
  call the resume handler of the request; that handler is passed to them.
\<close>

record lua_api =
  http_lua_run_thread :: "addr \<Rightarrow> worker \<Rightarrow> int \<times> worker"
  http_lua_run_posted_threads :: "addr \<Rightarrow> worker \<Rightarrow> int \<times> worker"
  http_lua_finalize_request :: "addr \<Rightarrow> int \<Rightarrow> worker \<Rightarrow> worker"
  http_core_run_phases :: "addr \<Rightarrow> (worker \<Rightarrow> (int \<times> worker) option) \<Rightarrow> worker \<Rightarrow> worker option"
  http_run_posted_requests :: "addr \<Rightarrow> worker \<Rightarrow> worker"
  stream_lua_run_thread :: "addr \<Rightarrow> worker \<Rightarrow> int \<times> worker"
  stream_lua_run_posted_threads :: "addr \<Rightarrow> worker \<Rightarrow> int \<times> worker"
  stream_lua_finalize_request :: "addr \<Rightarrow> int \<Rightarrow> worker \<Rightarrow> worker"
  stream_lua_core_run_phases :: "addr \<Rightarrow> (worker \<Rightarrow> (int \<times> worker) option) \<Rightarrow> worker \<Rightarrow> worker option"

subsection \<open>Delivering a result\<close>

text \<open>The values pushed for a result of a given type, and the state with the buffer freed.\<close>

definition push_res ::
  "addr \<Rightarrow> addr \<Rightarrow> u64 \<Rightarrow> u64 \<Rightarrow> worker \<Rightarrow> worker option"
where
  "push_res co buf n type w =
     do { w \<leftarrow> (if type = NGX_GRPC_CLIENT_RES_TYPE_OK
                then do { b \<leftarrow> read_buf buf n w; Some (lua_push co [LuaBool True, LuaStr b] w) }
                else if type = NGX_GRPC_CLIENT_RES_TYPE_OK_NOT_RES
                then Some (lua_push co [LuaBool True, LuaNil] w)
                else do { b \<leftarrow> read_buf buf n w; Some (lua_push co [LuaBool False, LuaStr b] w) });
          free_buf buf w }"

definition ngx_grpc_cli_put_res :: "ngx_api \<Rightarrow> addr \<Rightarrow> addr \<Rightarrow> worker \<Rightarrow> worker option" where
  "ngx_grpc_cli_put_res N sctx co w =
     do { s \<leftarrow> w_sctxs w sctx;
          w \<leftarrow> (if sctx_state s = NGX_GRPC_CLIENT_STATE_TIMEOUT
                then Some (lua_push co [LuaBool False, LuaStr (bytes_of ''timeout'')] w)
                else do {
                  let buf = res_buf (sctx_res s);
                  guard (buf \<noteq> NULL);
                  w \<leftarrow> upd_sctx sctx
                         (\<lambda>s. s\<lparr>sctx_res := (sctx_res s)\<lparr>res_buf := res_untag buf\<rparr>\<rparr>) w;
                  push_res co (res_untag buf) (res_size (sctx_res s)) (res_type buf) w });
          if sctx_type s = STREAM_TYPE_UNARY
          then do {
            guard (sctx_parent s \<in> dom (w_ctxs w));
            Some (upd_queues (queue_insert_head N (CtxFree (sctx_parent s)) (SctxQueue sctx)) w) }
          else Some w }"

subsection \<open>Resume handlers\<close>

definition ngx_http_grpc_cli_resume ::
  "ngx_api \<Rightarrow> lua_api \<Rightarrow> addr \<Rightarrow> worker \<Rightarrow> (int \<times> worker) option"
where
  "ngx_http_grpc_cli_resume N L r w =
     (case w_http w r of
        None \<Rightarrow> Some (NGX_ERROR, w)
      | Some lctx \<Rightarrow>
        do { c \<leftarrow> w_cos w (cur_co_ctx lctx);
             let sctx = co_data c;
             s \<leftarrow> w_sctxs w sctx;
             w \<leftarrow> upd_co (cur_co_ctx lctx) (\<lambda>c. c\<lparr>co_data := sctx_prev_data s\<rparr>) w;
             w \<leftarrow> upd_http r (\<lambda>l. l\<lparr>lua_resume_handler := WevHandler\<rparr>) w;
             w \<leftarrow> ngx_grpc_cli_put_res N sctx (cur_co_ctx lctx) w;
             let (rc, w) = http_lua_run_thread L r w;
             if rc = NGX_AGAIN then Some (http_lua_run_posted_threads L r w)
             else if rc = NGX_DONE
             then Some (http_lua_run_posted_threads L r (http_lua_finalize_request L r NGX_DONE w))
             else do {
               lctx \<leftarrow> w_http w r;
               if entered_content_phase lctx
               then Some (NGX_DONE, http_lua_finalize_request L r rc w)
               else Some (rc, w) } })"

definition ngx_stream_grpc_cli_resume ::
  "ngx_api \<Rightarrow> lua_api \<Rightarrow> addr \<Rightarrow> worker \<Rightarrow> (int \<times> worker) option"
where
  "ngx_stream_grpc_cli_resume N L r w =
     (case w_stream w r of
        None \<Rightarrow> Some (NGX_ERROR, w)
      | Some lctx \<Rightarrow>
        do { c \<leftarrow> w_cos w (cur_co_ctx lctx);
             let sctx = co_data c;
             s \<leftarrow> w_sctxs w sctx;
             w \<leftarrow> upd_co (cur_co_ctx lctx) (\<lambda>c. c\<lparr>co_data := sctx_prev_data s\<rparr>) w;
             w \<leftarrow> upd_stream r (\<lambda>l. l\<lparr>lua_resume_handler := WevHandler\<rparr>) w;
             w \<leftarrow> ngx_grpc_cli_put_res N sctx (cur_co_ctx lctx) w;
             let (rc, w) = stream_lua_run_thread L r w;
             if rc = NGX_AGAIN then Some (stream_lua_run_posted_threads L r w)
             else if rc = NGX_DONE
             then Some (stream_lua_run_posted_threads L r (stream_lua_finalize_request L r NGX_DONE w))
             else do {
               lctx \<leftarrow> w_stream w r;
               if entered_content_phase lctx
               then Some (NGX_DONE, stream_lua_finalize_request L r rc w)
               else Some (rc, w) } })"

text \<open>The coroutine that waited becomes current, and carries the stream context in its \<^verbatim>\<open>data\<close>.\<close>

definition attach_ctx :: "addr \<Rightarrow> addr \<Rightarrow> worker \<Rightarrow> worker option" where
  "attach_ctx ctx co w =
     do { w \<leftarrow> upd_sctx ctx (\<lambda>s. s\<lparr>sctx_wait_co_ctx := NULL\<rparr>) w;
          c \<leftarrow> w_cos w co;
          w \<leftarrow> upd_sctx ctx (\<lambda>s. s\<lparr>sctx_prev_data := co_data c\<rparr>) w;
          upd_co co (\<lambda>c. c\<lparr>co_data := ctx\<rparr>) w }"

definition ngx_grpc_cli_to_resume :: "ngx_api \<Rightarrow> lua_api \<Rightarrow> addr \<Rightarrow> worker \<Rightarrow> worker option" where
  "ngx_grpc_cli_to_resume N L ctx w =
     do { w \<leftarrow> ngx_grpc_cli_unkeep_task N ctx w;
          s \<leftarrow> w_sctxs w ctx;
          let r = sctx_r s;
          if sctx_is_http s
          then do {
            lctx \<leftarrow> w_http w r;
            w \<leftarrow> upd_http r (\<lambda>l. l\<lparr>cur_co_ctx := sctx_wait_co_ctx s\<rparr>) w;
            w \<leftarrow> attach_ctx ctx (sctx_wait_co_ctx s) w;
            w \<leftarrow> (if entered_content_phase lctx
                  then map_option snd (ngx_http_grpc_cli_resume N L r w)
                  else do {
                    w \<leftarrow> upd_http r (\<lambda>l. l\<lparr>lua_resume_handler := GrpcResume\<rparr>) w;
                    http_core_run_phases L r (ngx_http_grpc_cli_resume N L r) w });
            Some (http_run_posted_requests L r w) }
          else do {
            lctx \<leftarrow> w_stream w r;
            w \<leftarrow> upd_stream r (\<lambda>l. l\<lparr>cur_co_ctx := sctx_wait_co_ctx s\<rparr>) w;
            w \<leftarrow> attach_ctx ctx (sctx_wait_co_ctx s) w;
            if entered_content_phase lctx
            then map_option snd (ngx_stream_grpc_cli_resume N L r w)
            else do {
              w \<leftarrow> upd_stream r (\<lambda>l. l\<lparr>lua_resume_handler := GrpcResume\<rparr>) w;
              stream_lua_core_run_phases L r (ngx_stream_grpc_cli_resume N L r) w } } }"

subsection \<open>Event handlers\<close>

text \<open>Stop the timer of a waiting coroutine and drop its cleanup handler.\<close>

definition disarm_wait_co_ctx :: "ngx_api \<Rightarrow> addr \<Rightarrow> worker \<Rightarrow> worker option" where
  "disarm_wait_co_ctx N co w =
     upd_co co (\<lambda>c. c\<lparr>co_sleep := (if ev_timer_set (co_sleep c) then del_timer N (co_sleep c)
                                  else co_sleep c),
                      co_cleanup := NoCleanup\<rparr>) w"

text \<open>One round of the loop of \<^verbatim>\<open>ngx_grpc_cli_thread_post_event_handler\<close>, from the head of
  \<^verbatim>\<open>occupied\<close> to the point before the coroutine is resumed: \<open>Some ctx\<close> is the stream context
  to resume.\<close>

definition post_event_round :: "ngx_api \<Rightarrow> worker \<Rightarrow> (addr option \<times> worker) option" where
  "post_event_round N w =
     do { let q = queue_head N ThOccupied (w_queues w);
          let w = upd_queues (queue_remove N q) w;
          let w = upd_queues (queue_insert_tail N ThFree q) w;
          pctx \<leftarrow> pctx_of_link q;
          res \<leftarrow> w_pctxs w pctx;
          if ngx_grpc_cli_lookup_task (task_id res) w = None
          then do {
            let buf = res_untag (res_buf res);
            let w = w\<lparr>w_pctxs := (w_pctxs w)(pctx \<mapsto> res\<lparr>res_buf := buf\<rparr>)\<rparr>;
            w \<leftarrow> free_buf buf w;
            Some (None, w) }
          else do {
            let ctx = task_id res;
            w \<leftarrow> upd_sctx ctx (\<lambda>s. s\<lparr>sctx_res := res\<rparr>) w;
            s \<leftarrow> w_sctxs w ctx;
            w \<leftarrow> disarm_wait_co_ctx N (sctx_wait_co_ctx s) w;
            Some (Some ctx, w) } }"

partial_function (option) ngx_grpc_cli_thread_post_event_handler ::
  "ngx_api \<Rightarrow> lua_api \<Rightarrow> worker \<Rightarrow> worker option"
where
  "ngx_grpc_cli_thread_post_event_handler N L w =
     (if queue_empty N ThOccupied (w_queues w) then Some w
      else do {
        (ctx, w) \<leftarrow> post_event_round N w;
        w \<leftarrow> (case ctx of None \<Rightarrow> Some w | Some ctx \<Rightarrow> ngx_grpc_cli_to_resume N L ctx w);
        ngx_grpc_cli_thread_post_event_handler N L w })"

text \<open>\<open>ctx\<close> is the \<^verbatim>\<open>data\<close> of the timer event.\<close>

definition ngx_grpc_cli_timeout_handler ::
  "ngx_api \<Rightarrow> lua_api \<Rightarrow> addr \<Rightarrow> worker \<Rightarrow> worker option"
where
  "ngx_grpc_cli_timeout_handler N L ctx w =
     do { w \<leftarrow> upd_sctx ctx (\<lambda>s. s\<lparr>sctx_state := NGX_GRPC_CLIENT_STATE_TIMEOUT\<rparr>) w;
          s \<leftarrow> w_sctxs w ctx;
          w \<leftarrow> upd_co (sctx_wait_co_ctx s) (\<lambda>c. c\<lparr>co_cleanup := NoCleanup\<rparr>) w;
          ngx_grpc_cli_to_resume N L ctx w }"

text \<open>The cleanup handlers of the two subsystems; their bodies are the same.\<close>

definition ngx_http_grpc_cli_cleanup :: "ngx_api \<Rightarrow> addr \<Rightarrow> worker \<Rightarrow> worker option" where
  "ngx_http_grpc_cli_cleanup N wait_co_ctx w =
     do { c \<leftarrow> w_cos w wait_co_ctx;
          let ctx = co_data c;
          w \<leftarrow> (if ev_timer_set (co_sleep c)
                then upd_co wait_co_ctx (\<lambda>c. c\<lparr>co_sleep := del_timer N (co_sleep c)\<rparr>) w
                else Some w);
          ngx_grpc_cli_unkeep_task N ctx w }"

definition ngx_stream_grpc_cli_cleanup :: "ngx_api \<Rightarrow> addr \<Rightarrow> worker \<Rightarrow> worker option" where
  "ngx_stream_grpc_cli_cleanup N wait_co_ctx w =
     do { c \<leftarrow> w_cos w wait_co_ctx;
          let ctx = co_data c;
          w \<leftarrow> (if ev_timer_set (co_sleep c)
                then upd_co wait_co_ctx (\<lambda>c. c\<lparr>co_sleep := del_timer N (co_sleep c)\<rparr>) w
                else Some w);
          ngx_grpc_cli_unkeep_task N ctx w }"

end
