(* ===== verification/Worker_Inv.thy ===== *)
theory Worker_Inv
  imports Cli_Resume
begin

text \<open>
  The invariant of the worker, in four parts: the task table (\<open>tasks_ok\<close>), the link
  between waiting stream contexts and armed coroutines (\<open>waits_ok\<close>), the ownership
  of queue links (\<open>queues_ok\<close>, \<open>kept_ok\<close>) and the connections known to the engine
  (\<open>conns_ok\<close>); and that the operations of the module keep it and never fault in a
  state that satisfies it.
\<close>

subsection \<open>Definitions\<close>

text \<open>A coroutine that this module has armed: its timer or its cleanup handler would call us.\<close>

definition armed :: "co_ctx \<Rightarrow> bool" where
  "armed c \<longleftrightarrow> co_cleanup c = HttpCleanup \<or> co_cleanup c = StreamCleanup \<or>
     (ev_timer_set (co_sleep c) \<and> ev_handler (co_sleep c) = TimeoutHandler)"

definition request_ctx :: "worker \<Rightarrow> bool \<Rightarrow> addr \<Rightarrow> lua_ctx option" where
  "request_ctx w is_http r = (if is_http then w_http w r else w_stream w r)"

definition armed_for :: "addr \<Rightarrow> bool \<Rightarrow> co_ctx \<Rightarrow> bool" where
  "armed_for k is_http c \<longleftrightarrow>
     co_data c = k \<and> co_cleanup c = (if is_http then HttpCleanup else StreamCleanup) \<and>
     ev_timer_set (co_sleep c) \<and> ev_handler (co_sleep c) = TimeoutHandler \<and>
     ev_data (co_sleep c) = k"

definition waits_ok :: "worker \<Rightarrow> bool" where
  "waits_ok w \<longleftrightarrow>
     NULL \<notin> dom (w_cos w) \<and>
     (\<forall>k s. w_sctxs w k = Some s \<and> sctx_node s \<noteq> NULL \<longrightarrow>
        sctx_state s = NGX_GRPC_CLIENT_STATE_OK \<and>
        request_ctx w (sctx_is_http s) (sctx_r s) \<noteq> None \<and>
        (\<exists>c. w_cos w (sctx_wait_co_ctx s) = Some c \<and> armed_for k (sctx_is_http s) c)) \<and>
     (\<forall>p c. w_cos w p = Some c \<and> armed c \<longrightarrow>
        (\<exists>s. w_sctxs w (co_data c) = Some s \<and> sctx_node s \<noteq> NULL \<and> sctx_wait_co_ctx s = p))"

definition queues_wf :: "queues \<Rightarrow> bool" where
  "queues_wf qs \<longleftrightarrow>
     (\<forall>h. distinct (qs h)) \<and>
     (\<forall>x h h'. x \<in> set (qs h) \<longrightarrow> x \<in> set (qs h') \<longrightarrow> h = h') \<and>
     (\<forall>a. qs (SctxQueue a) = [] \<and> qs (PctxQueue a) = [])"

definition queues_ok :: "worker \<Rightarrow> bool" where
  "queues_ok w \<longleftrightarrow>
     queues_wf (w_queues w) \<and>
     (\<forall>c x. x \<in> set (w_queues w (CtxFree c)) \<longrightarrow>
        (\<exists>k s. x = SctxQueue k \<and> w_sctxs w k = Some s \<and> sctx_node s = NULL)) \<and>
     (\<forall>c x. x \<in> set (w_queues w (CtxOpening c)) \<longrightarrow>
        c \<in> dom (w_ctxs w) \<and>
        (\<exists>k s. x = SctxQueue k \<and> w_sctxs w k = Some s \<and> sctx_type s \<noteq> STREAM_TYPE_UNARY \<and>
               sctx_parent s = c)) \<and>
     (\<forall>x. x \<in> set (w_queues w ThFree) \<or> x \<in> set (w_queues w ThOccupied) \<longrightarrow>
        (\<exists>p. x = PctxQueue p \<and> p \<in> dom (w_pctxs w))) \<and>
     NULL \<notin> dom (w_sctxs w) \<and> NULL \<notin> dom (w_ctxs w) \<and> NULL \<notin> dom (w_pctxs w)"

text \<open>Where a kept task other than those in \<open>X\<close> is linked; a connection whose memory waits to
  be freed has no unary call under way.\<close>

definition kept_ok :: "addr set \<Rightarrow> worker \<Rightarrow> bool" where
  "kept_ok X w \<longleftrightarrow>
     (\<forall>k s. k \<notin> X \<and> w_sctxs w k = Some s \<and> sctx_node s \<noteq> NULL \<longrightarrow>
        (\<exists>c. w_ctxs w (sctx_parent s) = Some c \<and>
             (sctx_type s = STREAM_TYPE_UNARY \<longrightarrow> \<not> free_delayed c)) \<and>
        (sctx_type s = STREAM_TYPE_UNARY \<longrightarrow> \<not> linked (SctxQueue k) (w_queues w)) \<and>
        (sctx_type s \<noteq> STREAM_TYPE_UNARY \<longrightarrow>
           SctxQueue k \<in> set (w_queues w (CtxOpening (sctx_parent s)))))"

definition conns_ok :: "worker \<Rightarrow> bool" where
  "conns_ok w \<longleftrightarrow>
     (\<forall>c x. w_ctxs w c = Some x \<and> engine_ctx x \<noteq> NULL \<longrightarrow>
        engine_ctx x \<in> dom (EngineCtxRef (w_eng w))) \<and>
     (\<forall>c c' x x'. w_ctxs w c = Some x \<and> w_ctxs w c' = Some x' \<and> engine_ctx x \<noteq> NULL \<and>
        engine_ctx x' = engine_ctx x \<longrightarrow> c' = c)"

definition winv_but :: "addr set \<Rightarrow> worker \<Rightarrow> bool" where
  "winv_but X w \<longleftrightarrow> tasks_ok w \<and> waits_ok w \<and> queues_ok w \<and> kept_ok X w \<and> conns_ok w"

abbreviation winv :: "worker \<Rightarrow> bool" where
  "winv w \<equiv> winv_but {} w"

text \<open>The addresses in use; an allocator never returns one of them.\<close>

definition live_addrs :: "worker \<Rightarrow> addr set" where
  "live_addrs w = dom (w_ctxs w) \<union> dom (w_sctxs w) \<union> dom (w_pctxs w) \<union> fst ` rb_nodes (w_tree w)
     \<union> dom (EngineCtxRef (w_eng w)) \<union> dom (w_heap w)"

definition env_ok :: "sys_env \<Rightarrow> worker \<Rightarrow> bool" where
  "env_ok E w \<longleftrightarrow> fresh_alloc (live_addrs w) (sys_alloc E) \<and> task_post_ok E"

subsection \<open>Reading the invariant\<close>

lemma winv_butD:
  assumes "winv_but X w"
  shows "tasks_ok w" "waits_ok w" "queues_ok w" "kept_ok X w" "conns_ok w"
  using assms by (auto simp: winv_but_def)

lemma tasks_ok_frame:
  assumes "tasks_ok w" "w_tree w' = w_tree w" "w_num w' = w_num w" "w_sctxs w' = w_sctxs w"
  shows "tasks_ok w'"
  using assms(1) unfolding tasks_ok_def assms(2-4) .

lemma waits_ok_frame:
  assumes "waits_ok w" "w_cos w' = w_cos w" "w_sctxs w' = w_sctxs w" "w_http w' = w_http w"
    "w_stream w' = w_stream w"
  shows "waits_ok w'"
  using assms(1) unfolding waits_ok_def request_ctx_def assms(2-5) .

lemma queues_ok_frame:
  assumes "queues_ok w" "w_queues w' = w_queues w" "w_sctxs w' = w_sctxs w" "w_ctxs w' = w_ctxs w"
    "w_pctxs w' = w_pctxs w"
  shows "queues_ok w'"
  using assms(1) unfolding queues_ok_def assms(2-5) .

lemma kept_ok_frame:
  assumes "kept_ok X w" "w_queues w' = w_queues w" "w_sctxs w' = w_sctxs w" "w_ctxs w' = w_ctxs w"
  shows "kept_ok X w'"
  using assms(1) unfolding kept_ok_def assms(2-4) .

lemma conns_ok_frame:
  assumes "conns_ok w" "w_ctxs w' = w_ctxs w"
    "dom (EngineCtxRef (w_eng w)) \<subseteq> dom (EngineCtxRef (w_eng w'))"
  shows "conns_ok w'"
  using assms(1,3) unfolding conns_ok_def assms(2) by blast

lemma request_ctx_upd [simp]:
  "request_ctx (w\<lparr>w_sctxs := a\<rparr>) = request_ctx w" "request_ctx (w\<lparr>w_queues := q\<rparr>) = request_ctx w"
  "request_ctx (w\<lparr>w_cos := b\<rparr>) = request_ctx w" "request_ctx (w\<lparr>w_tree := t\<rparr>) = request_ctx w"
  "request_ctx (w\<lparr>w_num := n\<rparr>) = request_ctx w" "request_ctx (w\<lparr>w_eng := e\<rparr>) = request_ctx w"
  "request_ctx (w\<lparr>w_task_active := v\<rparr>) = request_ctx w"
  by (simp_all add: request_ctx_def fun_eq_iff)

lemmas inv_frames = tasks_ok_frame waits_ok_frame queues_ok_frame kept_ok_frame conns_ok_frame

lemma waits_okD:
  assumes "waits_ok w"
  shows "NULL \<notin> dom (w_cos w)"
    and "w_sctxs w k = Some s \<Longrightarrow> sctx_node s \<noteq> NULL \<Longrightarrow> sctx_state s = NGX_GRPC_CLIENT_STATE_OK"
    and "w_sctxs w k = Some s \<Longrightarrow> sctx_node s \<noteq> NULL \<Longrightarrow>
      request_ctx w (sctx_is_http s) (sctx_r s) \<noteq> None"
    and "w_sctxs w k = Some s \<Longrightarrow> sctx_node s \<noteq> NULL \<Longrightarrow>
      \<exists>c. w_cos w (sctx_wait_co_ctx s) = Some c \<and> armed_for k (sctx_is_http s) c"
    and "w_cos w p = Some c \<Longrightarrow> armed c \<Longrightarrow>
      \<exists>s. w_sctxs w (co_data c) = Some s \<and> sctx_node s \<noteq> NULL \<and> sctx_wait_co_ctx s = p"
  using assms unfolding waits_ok_def by blast+

lemma waits_okI:
  assumes "NULL \<notin> dom (w_cos w)"
    and "\<And>k s. w_sctxs w k = Some s \<Longrightarrow> sctx_node s \<noteq> NULL \<Longrightarrow>
      sctx_state s = NGX_GRPC_CLIENT_STATE_OK \<and>
      request_ctx w (sctx_is_http s) (sctx_r s) \<noteq> None \<and>
      (\<exists>c. w_cos w (sctx_wait_co_ctx s) = Some c \<and> armed_for k (sctx_is_http s) c)"
    and "\<And>p c. w_cos w p = Some c \<Longrightarrow> armed c \<Longrightarrow>
      \<exists>s. w_sctxs w (co_data c) = Some s \<and> sctx_node s \<noteq> NULL \<and> sctx_wait_co_ctx s = p"
  shows "waits_ok w"
  using assms unfolding waits_ok_def by blast

text \<open>Kept tasks and armed coroutines correspond one to one.\<close>

lemma waits_bij:
  assumes "waits_ok w"
  shows "bij_betw (\<lambda>k. sctx_wait_co_ctx (the (w_sctxs w k))) (kept w) {p. \<exists>c. w_cos w p = Some c \<and> armed c}"
    (is "bij_betw ?f _ ?P")
proof (rule bij_betw_imageI)
  have wait: "\<exists>c. w_cos w (?f k) = Some c \<and> armed c \<and> co_data c = k" if k: "k \<in> kept w" for k
  proof -
    obtain s where s: "w_sctxs w k = Some s" "sctx_node s \<noteq> NULL" using k by (auto simp: kept_def)
    with waits_okD(4) [OF assms s] show ?thesis by (auto simp: armed_for_def armed_def)
  qed
  show "inj_on ?f (kept w)"
  proof (rule inj_onI)
    fix j k assume jk: "j \<in> kept w" "k \<in> kept w" and eq: "?f j = ?f k"
    obtain c where "w_cos w (?f j) = Some c" "co_data c = j" using wait [OF jk(1)] by blast
    moreover obtain d where "w_cos w (?f k) = Some d" "co_data d = k" using wait [OF jk(2)] by blast
    ultimately show "j = k" unfolding eq by simp
  qed
  show "?f ` kept w = ?P"
  proof (intro subset_antisym subsetI)
    fix p assume "p \<in> ?P"
    then obtain c where c: "w_cos w p = Some c" "armed c" by blast
    then obtain s where "w_sctxs w (co_data c) = Some s" "sctx_node s \<noteq> NULL" "sctx_wait_co_ctx s = p"
      using waits_okD(5) [OF assms c] by blast
    then show "p \<in> ?f ` kept w" by (intro image_eqI [of _ _ "co_data c"]) (simp_all add: kept_def)
  qed (use wait in blast)
qed

lemma kept_okD:
  assumes "kept_ok X w" "k \<notin> X" "w_sctxs w k = Some s" "sctx_node s \<noteq> NULL"
  shows "\<exists>c. w_ctxs w (sctx_parent s) = Some c \<and> (sctx_type s = STREAM_TYPE_UNARY \<longrightarrow> \<not> free_delayed c)"
    and "sctx_type s = STREAM_TYPE_UNARY \<Longrightarrow> \<not> linked (SctxQueue k) (w_queues w)"
    and "sctx_type s \<noteq> STREAM_TYPE_UNARY \<Longrightarrow>
      SctxQueue k \<in> set (w_queues w (CtxOpening (sctx_parent s)))"
  using assms unfolding kept_ok_def by blast+

lemma kept_okI:
  assumes "\<And>k s. k \<notin> X \<Longrightarrow> w_sctxs w k = Some s \<Longrightarrow> sctx_node s \<noteq> NULL \<Longrightarrow>
      (\<exists>c. w_ctxs w (sctx_parent s) = Some c \<and> (sctx_type s = STREAM_TYPE_UNARY \<longrightarrow> \<not> free_delayed c)) \<and>
      (sctx_type s = STREAM_TYPE_UNARY \<longrightarrow> \<not> linked (SctxQueue k) (w_queues w)) \<and>
      (sctx_type s \<noteq> STREAM_TYPE_UNARY \<longrightarrow>
         SctxQueue k \<in> set (w_queues w (CtxOpening (sctx_parent s))))"
  shows "kept_ok X w"
  unfolding kept_ok_def by (intro allI impI, elim conjE, rule assms) assumption+

lemma conns_okD:
  assumes "conns_ok w" "w_ctxs w c = Some x" "engine_ctx x \<noteq> NULL"
  shows "engine_ctx x \<in> dom (EngineCtxRef (w_eng w))"
    and "w_ctxs w c' = Some x' \<Longrightarrow> engine_ctx x' = engine_ctx x \<Longrightarrow> c' = c"
  using assms unfolding conns_ok_def by blast+

lemma conns_okI:
  assumes "\<And>c x. w_ctxs w c = Some x \<Longrightarrow> engine_ctx x \<noteq> NULL \<Longrightarrow>
      engine_ctx x \<in> dom (EngineCtxRef (w_eng w))"
    and "\<And>c c' x x'. w_ctxs w c = Some x \<Longrightarrow> w_ctxs w c' = Some x' \<Longrightarrow> engine_ctx x \<noteq> NULL \<Longrightarrow>
      engine_ctx x' = engine_ctx x \<Longrightarrow> c' = c"
  shows "conns_ok w"
  unfolding conns_ok_def using assms by (intro conjI allI impI; elim conjE) blast+

lemma armed_for_armed: "armed_for k is_http c \<Longrightarrow> armed c"
  by (auto simp: armed_for_def armed_def)

lemma set_remove1_sub: "x \<in> set (remove1 a xs) \<Longrightarrow> x \<in> set xs"
  by (induction xs) (auto split: if_splits)

lemma winv_butI:
  "tasks_ok w \<Longrightarrow> waits_ok w \<Longrightarrow> queues_ok w \<Longrightarrow> kept_ok X w \<Longrightarrow> conns_ok w \<Longrightarrow> winv_but X w"
  by (simp add: winv_but_def)

lemma winv_frame:
  assumes "winv_but X w" "w_tree w' = w_tree w" "w_num w' = w_num w" "w_sctxs w' = w_sctxs w"
    "w_cos w' = w_cos w" "w_http w' = w_http w" "w_stream w' = w_stream w" "w_queues w' = w_queues w"
    "w_ctxs w' = w_ctxs w" "w_pctxs w' = w_pctxs w"
    "dom (EngineCtxRef (w_eng w)) \<subseteq> dom (EngineCtxRef (w_eng w'))"
  shows "winv_but X w'"
proof (rule winv_butI)
  note inv = winv_butD [OF assms(1)]
  show "tasks_ok w'" using inv(1) assms(2-4) by (rule tasks_ok_frame)
  show "waits_ok w'" using inv(2) assms(5,4,6,7) by (rule waits_ok_frame)
  show "queues_ok w'" using inv(3) assms(8,4,9,10) by (rule queues_ok_frame)
  show "kept_ok X w'" using inv(4) assms(8,4,9) by (rule kept_ok_frame)
  show "conns_ok w'" using inv(5) assms(9,11) by (rule conns_ok_frame)
qed

lemma queues_wf_only:
  "queues_wf qs \<Longrightarrow> x \<in> set (qs h) \<Longrightarrow> linked_only_at h x qs"
  unfolding queues_wf_def linked_only_at_def by blast

lemma queues_wfD:
  assumes "queues_wf qs"
  shows "distinct (qs h)" and "x \<in> set (qs h) \<Longrightarrow> x \<in> set (qs h') \<Longrightarrow> h = h'"
    and "qs (SctxQueue a) = []" and "qs (PctxQueue a) = []"
  using assms unfolding queues_wf_def by blast+

lemma queues_wfI:
  assumes "\<And>h. distinct (qs h)"
    and "\<And>x h h'. x \<in> set (qs h) \<Longrightarrow> x \<in> set (qs h') \<Longrightarrow> h \<noteq> h' \<Longrightarrow> False"
    and "\<And>a. qs (SctxQueue a) = []" "\<And>a. qs (PctxQueue a) = []"
  shows "queues_wf qs"
  using assms unfolding queues_wf_def by blast

lemma queues_wf_upd:
  assumes "queues_wf qs" "distinct xs" "\<And>y. y \<in> set xs \<Longrightarrow> y \<in> set (qs h) \<or> \<not> linked y qs"
    "\<And>a. h \<noteq> SctxQueue a" "\<And>a. h \<noteq> PctxQueue a"
  shows "queues_wf (qs(h := xs))"
proof (rule queues_wfI)
  fix g show "distinct ((qs(h := xs)) g)" using assms(2) queues_wfD(1) [OF assms(1)] by simp
next
  fix y g g'
  assume y: "y \<in> set ((qs(h := xs)) g)" "y \<in> set ((qs(h := xs)) g')" and "g \<noteq> g'"
  have "False" if "y \<in> set xs" "y \<in> set (qs j)" "j \<noteq> h" for j
    using assms(3) [OF that(1)] that(2,3) queues_wfD(2) [OF assms(1), of y h j]
    by (auto simp: linked_def)
  with y \<open>g \<noteq> g'\<close> show False
    using queues_wfD(2) [OF assms(1), of y g g'] by (auto split: if_splits)
next
  fix a
  show "(qs(h := xs)) (SctxQueue a) = []" "(qs(h := xs)) (PctxQueue a) = []"
    using assms(4,5) queues_wfD(3,4) [OF assms(1)] by auto
qed

lemma queues_wf_insert:
  assumes "queues_wf qs" "\<not> linked x qs" "\<And>a. h \<noteq> SctxQueue a" "\<And>a. h \<noteq> PctxQueue a"
  shows "queues_wf (qs(h := x # qs h))" "queues_wf (qs(h := qs h @ [x]))"
proof -
  have "x \<notin> set (qs h)" using assms(2) by (auto simp: linked_def)
  then show "queues_wf (qs(h := x # qs h))" "queues_wf (qs(h := qs h @ [x]))"
    using assms queues_wfD(1) [OF assms(1)] by (auto intro!: queues_wf_upd)
qed

lemma queues_wf_remove:
  assumes "queues_wf qs"
  shows "queues_wf (qs(h := remove1 x (qs h)))"
proof (cases "x \<in> set (qs h)")
  case True
  then have "h \<noteq> SctxQueue a" "h \<noteq> PctxQueue a" for a
    using queues_wfD(3,4) [OF assms] by auto
  then show ?thesis
    using assms queues_wfD(1) [OF assms] by (intro queues_wf_upd) (auto dest: set_remove1_sub)
next
  case False
  then show ?thesis using assms by (simp add: remove1_idem)
qed

lemma not_linked_removed:
  assumes "queues_wf qs" "x \<in> set (qs h)"
  shows "\<not> linked x (qs(h := remove1 x (qs h)))"
  using queues_wfD(1,2) [OF assms(1)] assms(2) by (auto simp: linked_def)

lemma queues_okD:
  assumes "queues_ok w"
  shows "queues_wf (w_queues w)"
    and "x \<in> set (w_queues w (CtxFree c)) \<Longrightarrow>
      \<exists>k s. x = SctxQueue k \<and> w_sctxs w k = Some s \<and> sctx_node s = NULL"
    and "x \<in> set (w_queues w (CtxOpening c)) \<Longrightarrow>
      c \<in> dom (w_ctxs w) \<and> (\<exists>k s. x = SctxQueue k \<and> w_sctxs w k = Some s \<and>
        sctx_type s \<noteq> STREAM_TYPE_UNARY \<and> sctx_parent s = c)"
    and "x \<in> set (w_queues w ThFree) \<Longrightarrow> \<exists>p. x = PctxQueue p \<and> p \<in> dom (w_pctxs w)"
    and "x \<in> set (w_queues w ThOccupied) \<Longrightarrow> \<exists>p. x = PctxQueue p \<and> p \<in> dom (w_pctxs w)"
    and "NULL \<notin> dom (w_sctxs w)" "NULL \<notin> dom (w_ctxs w)" "NULL \<notin> dom (w_pctxs w)"
  using assms unfolding queues_ok_def by blast+

lemma queues_okI:
  assumes "queues_wf (w_queues w)"
    and "\<And>x c. x \<in> set (w_queues w (CtxFree c)) \<Longrightarrow>
      \<exists>k s. x = SctxQueue k \<and> w_sctxs w k = Some s \<and> sctx_node s = NULL"
    and "\<And>x c. x \<in> set (w_queues w (CtxOpening c)) \<Longrightarrow>
      c \<in> dom (w_ctxs w) \<and> (\<exists>k s. x = SctxQueue k \<and> w_sctxs w k = Some s \<and>
        sctx_type s \<noteq> STREAM_TYPE_UNARY \<and> sctx_parent s = c)"
    and "\<And>x. x \<in> set (w_queues w ThFree) \<Longrightarrow> \<exists>p. x = PctxQueue p \<and> p \<in> dom (w_pctxs w)"
    and "\<And>x. x \<in> set (w_queues w ThOccupied) \<Longrightarrow> \<exists>p. x = PctxQueue p \<and> p \<in> dom (w_pctxs w)"
    and "NULL \<notin> dom (w_sctxs w)" "NULL \<notin> dom (w_ctxs w)" "NULL \<notin> dom (w_pctxs w)"
  shows "queues_ok w"
  unfolding queues_ok_def using assms(1,6-8)
  by (intro conjI allI impI assms(2,3)) (auto dest: assms(4,5))

lemma queues_ok_sub:
  assumes "queues_ok w" "queues_wf q" "\<And>h x. x \<in> set (q h) \<Longrightarrow> x \<in> set (w_queues w h)"
  shows "queues_ok (w\<lparr>w_queues := q\<rparr>)"
proof (rule queues_okI)
  note D = queues_okD [OF assms(1)]
  fix x c
  show "x \<in> set (w_queues (w\<lparr>w_queues := q\<rparr>) (CtxFree c)) \<Longrightarrow>
    \<exists>k s. x = SctxQueue k \<and> w_sctxs (w\<lparr>w_queues := q\<rparr>) k = Some s \<and> sctx_node s = NULL"
    using D(2) [OF assms(3)] by simp
  show "x \<in> set (w_queues (w\<lparr>w_queues := q\<rparr>) (CtxOpening c)) \<Longrightarrow>
    c \<in> dom (w_ctxs (w\<lparr>w_queues := q\<rparr>)) \<and> (\<exists>k s. x = SctxQueue k \<and>
      w_sctxs (w\<lparr>w_queues := q\<rparr>) k = Some s \<and> sctx_type s \<noteq> STREAM_TYPE_UNARY \<and> sctx_parent s = c)"
    using D(3) [OF assms(3)] by simp
  show "x \<in> set (w_queues (w\<lparr>w_queues := q\<rparr>) ThFree) \<Longrightarrow>
    \<exists>p. x = PctxQueue p \<and> p \<in> dom (w_pctxs (w\<lparr>w_queues := q\<rparr>))"
    using D(4) [OF assms(3)] by simp
  show "x \<in> set (w_queues (w\<lparr>w_queues := q\<rparr>) ThOccupied) \<Longrightarrow>
    \<exists>p. x = PctxQueue p \<and> p \<in> dom (w_pctxs (w\<lparr>w_queues := q\<rparr>))"
    using D(5) [OF assms(3)] by simp
qed (use assms(2) queues_okD(6-8) [OF assms(1)] in simp_all)

lemmas queues_wf_no_head = queues_wfD(3,4)

lemma linked_sctx_cases:
  assumes "queues_ok w" "linked (SctxQueue k) (w_queues w)"
  obtains s where "w_sctxs w k = Some s" "sctx_node s = NULL" "\<exists>c. SctxQueue k \<in> set (w_queues w (CtxFree c))"
  | s where "w_sctxs w k = Some s" "sctx_type s \<noteq> STREAM_TYPE_UNARY"
      "SctxQueue k \<in> set (w_queues w (CtxOpening (sctx_parent s)))"
proof -
  obtain h where h: "SctxQueue k \<in> set (w_queues w h)" using assms(2) by (auto simp: linked_def)
  show thesis
  proof (cases h)
    case (CtxFree c)
    with h queues_okD(2) [OF assms(1), of "SctxQueue k" c] that(1) show ?thesis by auto
  next
    case (CtxOpening c)
    with h queues_okD(3) [OF assms(1), of "SctxQueue k" c] that(2) show ?thesis by auto
  next
    case ThFree
    with h queues_okD(4) [OF assms(1)] show ?thesis by blast
  next
    case ThOccupied
    with h queues_okD(5) [OF assms(1)] show ?thesis by blast
  next
    case (SctxQueue a)
    with h queues_wf_no_head(1) [OF queues_okD(1) [OF assms(1)]] show ?thesis by auto
  next
    case (PctxQueue a)
    with h queues_wf_no_head(2) [OF queues_okD(1) [OF assms(1)]] show ?thesis by auto
  qed
qed

lemma linked_sctx_live:
  "queues_ok w \<Longrightarrow> linked (SctxQueue k) (w_queues w) \<Longrightarrow> k \<in> dom (w_sctxs w)"
  by (auto elim: linked_sctx_cases)

lemma linked_pctx:
  assumes "queues_ok w" "linked (PctxQueue k) (w_queues w)"
  shows "PctxQueue k \<in> set (w_queues w ThFree) \<or> PctxQueue k \<in> set (w_queues w ThOccupied)"
    and "k \<in> dom (w_pctxs w)"
proof -
  obtain h where h: "PctxQueue k \<in> set (w_queues w h)" using assms(2) by (auto simp: linked_def)
  have "h = ThFree \<or> h = ThOccupied"
    using h queues_okD(2,3) [OF assms(1), of "PctxQueue k"]
      queues_wf_no_head [OF queues_okD(1) [OF assms(1)]]
    by (cases h) auto
  with h show "PctxQueue k \<in> set (w_queues w ThFree) \<or> PctxQueue k \<in> set (w_queues w ThOccupied)"
    by auto
  then show "k \<in> dom (w_pctxs w)" using queues_okD(4,5) [OF assms(1)] by blast
qed

lemma free_link_unkept:
  assumes "queues_ok w" "x \<in> set (w_queues w (CtxFree c))"
  obtains k s where "x = SctxQueue k" "w_sctxs w k = Some s" "sctx_node s = NULL"
  using queues_okD(2) [OF assms] by blast

subsection \<open>Small steps that keep the invariant\<close>

lemma tasks_ok_upd_unkept:
  assumes "tasks_ok w" "\<And>s. w_sctxs w k = Some s \<Longrightarrow> sctx_node s = NULL"
    "\<And>s. v = Some s \<Longrightarrow> sctx_node s = NULL"
  shows "tasks_ok (w\<lparr>w_sctxs := (w_sctxs w)(k := v)\<rparr>)"
  using assms unfolding tasks_ok_def by auto

lemma waits_ok_upd_unkept:
  assumes "waits_ok w" "\<And>s. w_sctxs w k = Some s \<Longrightarrow> sctx_node s = NULL"
    "\<And>s. v = Some s \<Longrightarrow> sctx_node s = NULL"
  shows "waits_ok (w\<lparr>w_sctxs := (w_sctxs w)(k := v)\<rparr>)" (is "waits_ok ?w")
proof (rule waits_okI)
  show "NULL \<notin> dom (w_cos ?w)" using waits_okD(1) [OF assms(1)] by simp
next
  fix j s assume j: "w_sctxs ?w j = Some s" "sctx_node s \<noteq> NULL"
  then have "w_sctxs w j = Some s" using assms(3) by (auto split: if_splits)
  then show "sctx_state s = NGX_GRPC_CLIENT_STATE_OK \<and>
      request_ctx ?w (sctx_is_http s) (sctx_r s) \<noteq> None \<and>
      (\<exists>c. w_cos ?w (sctx_wait_co_ctx s) = Some c \<and> armed_for j (sctx_is_http s) c)"
    using waits_okD(2-4) [OF assms(1) _ j(2), of j] by simp
next
  fix p c assume "w_cos ?w p = Some c" "armed c"
  then obtain s where "w_sctxs w (co_data c) = Some s" "sctx_node s \<noteq> NULL" "sctx_wait_co_ctx s = p"
    using waits_okD(5) [OF assms(1)] by auto
  then show "\<exists>s. w_sctxs ?w (co_data c) = Some s \<and> sctx_node s \<noteq> NULL \<and> sctx_wait_co_ctx s = p"
    using assms(2) by auto
qed

lemma kept_ok_upd_unkept:
  assumes "kept_ok X w" "\<And>s. v = Some s \<Longrightarrow> sctx_node s = NULL"
  shows "kept_ok X (w\<lparr>w_sctxs := (w_sctxs w)(k := v)\<rparr>)"
  using assms unfolding kept_ok_def by auto

lemma queues_ok_upd_unlinked:
  assumes "queues_ok w" "\<not> linked (SctxQueue k) (w_queues w)" "k \<noteq> NULL \<or> v = None"
  shows "queues_ok (w\<lparr>w_sctxs := (w_sctxs w)(k := v)\<rparr>)"
proof -
  have ne: "x \<noteq> SctxQueue k" if "x \<in> set (w_queues w h)" for x h
    using assms(2) that by (auto simp: linked_def)
  have "\<exists>j s. x = SctxQueue j \<and> ((w_sctxs w)(k := v)) j = Some s \<and> sctx_node s = NULL"
    if "x \<in> set (w_queues w (CtxFree c))" for x c
    using queues_okD(2) [OF assms(1) that] ne [OF that] by auto
  moreover have "\<exists>j s. x = SctxQueue j \<and> ((w_sctxs w)(k := v)) j = Some s \<and>
      sctx_type s \<noteq> STREAM_TYPE_UNARY \<and> sctx_parent s = c"
    if "x \<in> set (w_queues w (CtxOpening c))" for x c
    using queues_okD(3) [OF assms(1) that] ne [OF that] by auto
  ultimately show ?thesis
    using queues_okD [OF assms(1)] assms(3) by (intro queues_okI) (auto split: if_splits)
qed

text \<open>A write to a stream context that leaves its kind and its connection.\<close>

lemma queues_ok_same_kind:
  assumes "queues_ok w" "w_sctxs w k = Some s" "sctx_type u = sctx_type s"
    "sctx_parent u = sctx_parent s"
    "\<And>c. SctxQueue k \<in> set (w_queues w (CtxFree c)) \<Longrightarrow> sctx_node u = NULL"
    "w_queues w' = w_queues w" "w_sctxs w' = (w_sctxs w)(k \<mapsto> u)" "w_ctxs w' = w_ctxs w"
    "w_pctxs w' = w_pctxs w"
  shows "queues_ok w'"
proof (rule queues_okI)
  note D = queues_okD [OF assms(1)]
  show "queues_wf (w_queues w')" using D(1) assms(6) by simp
  fix x c
  show "\<exists>j t. x = SctxQueue j \<and> w_sctxs w' j = Some t \<and> sctx_node t = NULL"
    if "x \<in> set (w_queues w' (CtxFree c))"
    using D(2) [of x c] that assms(5) [of c] by (auto simp: assms(6,7))
  show "c \<in> dom (w_ctxs w') \<and> (\<exists>j t. x = SctxQueue j \<and> w_sctxs w' j = Some t \<and>
      sctx_type t \<noteq> STREAM_TYPE_UNARY \<and> sctx_parent t = c)"
    if "x \<in> set (w_queues w' (CtxOpening c))"
    using D(3) [of x c] that assms(2-4) by (auto simp: assms(6-8))
  show "\<exists>p. x = PctxQueue p \<and> p \<in> dom (w_pctxs w')" if "x \<in> set (w_queues w' ThFree)"
    using D(4) that by (simp add: assms(6,9))
  show "\<exists>p. x = PctxQueue p \<and> p \<in> dom (w_pctxs w')" if "x \<in> set (w_queues w' ThOccupied)"
    using D(5) that by (simp add: assms(6,9))
  show "NULL \<notin> dom (w_sctxs w')" using D(6) assms(2) by (auto simp: assms(7))
  show "NULL \<notin> dom (w_ctxs w')" "NULL \<notin> dom (w_pctxs w')" using D(7,8) assms(8,9) by simp_all
qed

text \<open>Writing or freeing a stream context that is neither kept nor linked.\<close>

lemma winv_upd_unlinked:
  assumes "winv_but X w" "\<not> linked (SctxQueue k) (w_queues w)" "k \<noteq> NULL \<or> v = None"
    "\<And>s. w_sctxs w k = Some s \<Longrightarrow> sctx_node s = NULL" "\<And>s. v = Some s \<Longrightarrow> sctx_node s = NULL"
  shows "winv_but X (w\<lparr>w_sctxs := (w_sctxs w)(k := v)\<rparr>)"
proof (rule winv_butI)
  note inv = winv_butD [OF assms(1)]
  show "tasks_ok (w\<lparr>w_sctxs := (w_sctxs w)(k := v)\<rparr>)"
    using inv(1) assms(4,5) by (rule tasks_ok_upd_unkept)
  show "waits_ok (w\<lparr>w_sctxs := (w_sctxs w)(k := v)\<rparr>)"
    using inv(2) assms(4,5) by (rule waits_ok_upd_unkept)
  show "queues_ok (w\<lparr>w_sctxs := (w_sctxs w)(k := v)\<rparr>)"
    using inv(3) assms(2,3) by (rule queues_ok_upd_unlinked)
  show "kept_ok X (w\<lparr>w_sctxs := (w_sctxs w)(k := v)\<rparr>)"
    using inv(4) assms(5) by (rule kept_ok_upd_unkept)
  show "conns_ok (w\<lparr>w_sctxs := (w_sctxs w)(k := v)\<rparr>)"
    using inv(5) by (rule conns_ok_frame) simp_all
qed

lemma winv_upd_idle:
  assumes "winv_but X w" "w_sctxs w k = Some s" "sctx_node s = NULL" "sctx_node u = NULL"
    "sctx_type u = sctx_type s" "sctx_parent u = sctx_parent s"
  shows "winv_but X (w\<lparr>w_sctxs := (w_sctxs w)(k \<mapsto> u)\<rparr>)"
proof (rule winv_butI)
  note inv = winv_butD [OF assms(1)]
  show "tasks_ok (w\<lparr>w_sctxs := (w_sctxs w)(k \<mapsto> u)\<rparr>)"
    using inv(1) by (rule tasks_ok_upd_unkept) (use assms(2-4) in simp_all)
  show "waits_ok (w\<lparr>w_sctxs := (w_sctxs w)(k \<mapsto> u)\<rparr>)"
    using inv(2) by (rule waits_ok_upd_unkept) (use assms(2-4) in simp_all)
  show "queues_ok (w\<lparr>w_sctxs := (w_sctxs w)(k \<mapsto> u)\<rparr>)"
    by (rule queues_ok_same_kind [OF inv(3) assms(2,5,6)]) (simp_all add: assms(4))
  show "kept_ok X (w\<lparr>w_sctxs := (w_sctxs w)(k \<mapsto> u)\<rparr>)"
    using inv(4) by (rule kept_ok_upd_unkept) (use assms(4) in simp_all)
  show "conns_ok (w\<lparr>w_sctxs := (w_sctxs w)(k \<mapsto> u)\<rparr>)"
    using inv(5) by (rule conns_ok_frame) simp_all
qed

lemma winv_queues:
  assumes "winv_but X w" "queues_ok (w\<lparr>w_queues := q\<rparr>)" "kept_ok Y (w\<lparr>w_queues := q\<rparr>)"
  shows "winv_but Y (w\<lparr>w_queues := q\<rparr>)"
proof (rule winv_butI)
  note inv = winv_butD [OF assms(1)]
  show "tasks_ok (w\<lparr>w_queues := q\<rparr>)" using inv(1) by (rule tasks_ok_frame) simp_all
  show "waits_ok (w\<lparr>w_queues := q\<rparr>)" using inv(2) by (rule waits_ok_frame) simp_all
  show "conns_ok (w\<lparr>w_queues := q\<rparr>)" using inv(5) by (rule conns_ok_frame) simp_all
qed (fact assms)+

text \<open>Linking an unkept stream context into the free queue of a connection, and taking it out.\<close>

lemma winv_link_free:
  assumes "winv_but X w" "\<not> linked (SctxQueue k) (w_queues w)"
    "w_sctxs w k = Some s" "sctx_node s = NULL"
  shows "winv_but X (w\<lparr>w_queues := (w_queues w)(CtxFree c := SctxQueue k # w_queues w (CtxFree c))\<rparr>)"
    (is "winv_but X (w\<lparr>w_queues := ?q\<rparr>)")
proof -
  note inv = winv_butD [OF assms(1)]
  have "queues_wf ?q"
    using queues_okD(1) [OF inv(3)] assms(2) by (rule queues_wf_insert) simp_all
  then have "queues_ok (w\<lparr>w_queues := ?q\<rparr>)"
    using queues_okD(2-8) [OF inv(3)] assms(3,4)
    by (intro queues_okI) (auto split: if_splits)
  moreover have "kept_ok X (w\<lparr>w_queues := ?q\<rparr>)"
  proof (rule kept_okI, goal_cases)
    case (1 j t)
    then have "j \<noteq> k" using assms(3,4) by auto
    with 1 kept_okD [OF inv(4), of j t] show ?case by (auto simp: linked_def)
  qed
  ultimately show ?thesis using assms(1) by (intro winv_queues)
qed

lemma winv_unlink:
  assumes "winv_but X w" "w_sctxs w k = Some s" "sctx_node s = NULL"
  shows "winv_but X (w\<lparr>w_queues := (w_queues w)(h := remove1 (SctxQueue k) (w_queues w h))\<rparr>)"
    (is "winv_but X (w\<lparr>w_queues := ?q\<rparr>)")
proof -
  note inv = winv_butD [OF assms(1)]
  have sub: "x \<in> set (w_queues w g)" if "x \<in> set (?q g)" for x g
    using that by (cases "g = h") (auto dest: set_remove1_sub)
  have stay: "x \<in> set (?q g)" if "x \<in> set (w_queues w g)" "x \<noteq> SctxQueue k" for x g
    using that by (cases "g = h") (auto simp: in_set_remove1)
  have "queues_wf ?q" using queues_okD(1) [OF inv(3)] by (rule queues_wf_remove)
  then have "queues_ok (w\<lparr>w_queues := ?q\<rparr>)"
    using inv(3) sub by (intro queues_ok_sub)
  moreover have "kept_ok X (w\<lparr>w_queues := ?q\<rparr>)"
  proof (rule kept_okI, goal_cases)
    case (1 j t)
    then have "j \<noteq> k" using assms(2,3) by auto
    moreover have "\<not> linked (SctxQueue j) ?q" if "\<not> linked (SctxQueue j) (w_queues w)"
      using that sub by (auto simp: linked_def)
    moreover have "j \<notin> X" "w_sctxs w j = Some t" "sctx_node t \<noteq> NULL" using 1 by simp_all
    ultimately show ?case using kept_okD [OF inv(4), of j t] stay by auto
  qed
  ultimately show ?thesis using assms(1) by (intro winv_queues)
qed

lemma winv_unlink_free:
  assumes "winv_but X w" "SctxQueue k \<in> set (w_queues w (CtxFree c))"
  shows "winv_but X (w\<lparr>w_queues := (w_queues w)(CtxFree c := remove1 (SctxQueue k) (w_queues w (CtxFree c)))\<rparr>)"
  using free_link_unkept [OF winv_butD(3) [OF assms(1)] assms(2)] winv_unlink [OF assms(1)] by blast

end
