(* ===== verification/Cli_Conn_Inv.thy ===== *)
theory Cli_Conn_Inv
  imports Worker_Inv
begin

text \<open>
  The operations on connections and streams keep the invariant of the worker and never
  fault where the Lua library may call them; what each of them does on its branches.
\<close>

subsection \<open>Definitions\<close>

text \<open>
  When an operation that yields may be called: the worker's thread is set up, and the
  coroutine that runs is not one this module has put to sleep.
\<close>

definition can_wait :: "worker \<Rightarrow> bool \<Rightarrow> addr \<Rightarrow> bool" where
  "can_wait w is_http r \<longleftrightarrow>
     conf_task (w_conf w) \<noteq> NULL \<and>
     (case request_ctx w is_http r of
        None \<Rightarrow> True
      | Some l \<Rightarrow> (case w_cos w (cur_co_ctx l) of None \<Rightarrow> False | Some c \<Rightarrow> \<not> armed c))"

text \<open>The part of the state that belongs to the background thread and its results.\<close>

definition thread_same :: "worker \<Rightarrow> worker \<Rightarrow> bool" where
  "thread_same w w' \<longleftrightarrow>
     w_host w' = w_host w \<and> w_conf w' = w_conf w \<and> w_quit w' = w_quit w \<and>
     w_exiting w' = w_exiting w \<and> w_terminate w' = w_terminate w \<and>
     w_posted w' = w_posted w \<and> w_finished_tasks w' = w_finished_tasks w \<and>
     w_finished_task_num w' = w_finished_task_num w \<and> w_pctxs w' = w_pctxs w \<and>
     w_queues w' ThFree = w_queues w ThFree \<and> w_queues w' ThOccupied = w_queues w ThOccupied \<and>
     w_heap w' = w_heap w \<and> (w_task_active w \<longrightarrow> w_task_active w')"

text \<open>The state after a task was kept (tree node \<open>n\<close>) and the coroutine \<open>p\<close> put to sleep for it.\<close>

definition waiting_state ::
  "ngx_api \<Rightarrow> addr \<Rightarrow> addr \<Rightarrow> ngx_grpc_cli_stream_ctx \<Rightarrow> addr \<Rightarrow> co_ctx \<Rightarrow> u64 \<Rightarrow> worker \<Rightarrow> worker"
where
  "waiting_state N n k s p c t w =
     w\<lparr>w_task_active := True, w_num := w_num w + 1, w_tree := rbtree_insert N n k (w_tree w),
       w_sctxs := (w_sctxs w)(k \<mapsto> s\<lparr>sctx_node := n, sctx_state := NGX_GRPC_CLIENT_STATE_OK,
                                     sctx_wait_co_ctx := p\<rparr>),
       w_cos := (w_cos w)(p \<mapsto> c\<lparr>co_data := k,
         co_sleep := (co_sleep c)\<lparr>ev_handler := TimeoutHandler, ev_data := k,
                                   ev_timer_set := True, ev_timer := t\<rparr>,
         co_cleanup := (if sctx_is_http s then HttpCleanup else StreamCleanup)\<rparr>)\<rparr>"

text \<open>Stream context \<open>k\<close> waits: its task is kept for request \<open>r\<close> and coroutine \<open>p\<close> sleeps for it.\<close>

definition waits_for :: "worker \<Rightarrow> addr \<Rightarrow> bool \<Rightarrow> addr \<Rightarrow> addr \<Rightarrow> bool" where
  "waits_for w k is_http r p \<longleftrightarrow>
     (case w_sctxs w k of
        None \<Rightarrow> False
      | Some s \<Rightarrow>
          sctx_node s \<noteq> NULL \<and> sctx_r s = r \<and> sctx_is_http s = is_http \<and> sctx_wait_co_ctx s = p \<and>
          (case w_cos w p of None \<Rightarrow> False | Some c \<Rightarrow> armed_for k is_http c))"

text \<open>The outcome of an operation that starts a task for stream context \<open>k\<close>.\<close>

definition task_started :: "worker \<Rightarrow> worker \<Rightarrow> addr \<Rightarrow> bool \<Rightarrow> addr \<Rightarrow> bool" where
  "task_started w w' k is_http r \<longleftrightarrow>
     k \<notin> kept w \<and> kept w' = insert k (kept w) \<and> w_task_active w' \<and>
     (\<exists>l. request_ctx w is_http r = Some l \<and> waits_for w' k is_http r (cur_co_ctx l) \<and>
          (\<forall>q. q \<noteq> cur_co_ctx l \<longrightarrow> w_cos w' q = w_cos w q)) \<and>
     (\<exists>j. e_goroutines (w_eng w') = e_goroutines (w_eng w) @ [j] \<and> go_task j = k)"

text \<open>The outcome of an operation that reports an error instead.\<close>

definition task_refused :: "worker \<Rightarrow> worker \<Rightarrow> bool" where
  "task_refused w w' \<longleftrightarrow>
     kept w' = kept w \<and> w_tree w' = w_tree w \<and> w_num w' = w_num w \<and> w_cos w' = w_cos w \<and>
     w_eng w' = w_eng w \<and> w_ctxs w' = w_ctxs w"

text \<open>A stream the Lua library holds: in the \<^verbatim>\<open>opening\<close> queue of its connection.\<close>

definition open_stream :: "worker \<Rightarrow> addr \<Rightarrow> bool" where
  "open_stream w k \<longleftrightarrow>
     (case w_sctxs w k of
        None \<Rightarrow> False
      | Some s \<Rightarrow> SctxQueue k \<in> set (w_queues w (CtxOpening (sctx_parent s))))"

subsection \<open>The thread's part of the state\<close>

lemma thread_same_refl [simp]: "thread_same w w"
  by (simp add: thread_same_def)

lemma thread_same_trans [trans]:
  "thread_same a b \<Longrightarrow> thread_same b c \<Longrightarrow> thread_same a c"
  by (simp add: thread_same_def)

lemma thread_same_upd [simp]:
  "thread_same w (w'\<lparr>w_sctxs := a\<rparr>) = thread_same w w'"
  "thread_same w (w'\<lparr>w_ctxs := b\<rparr>) = thread_same w w'"
  "thread_same w (w'\<lparr>w_eng := e\<rparr>) = thread_same w w'"
  "thread_same w (w'\<lparr>w_tree := t\<rparr>) = thread_same w w'"
  "thread_same w (w'\<lparr>w_num := n\<rparr>) = thread_same w w'"
  "thread_same w (w'\<lparr>w_cos := d\<rparr>) = thread_same w w'"
  "thread_same w (w'\<lparr>w_http := u\<rparr>) = thread_same w w'"
  "thread_same w (w'\<lparr>w_stream := u\<rparr>) = thread_same w w'"
  "thread_same w (w'\<lparr>w_lua := l\<rparr>) = thread_same w w'"
  by (simp_all add: thread_same_def)

lemma thread_same_queues:
  "h \<noteq> ThFree \<Longrightarrow> h \<noteq> ThOccupied \<Longrightarrow>
   thread_same w (w'\<lparr>w_queues := (w_queues w')(h := xs)\<rparr>) = thread_same w w'"
  by (simp add: thread_same_def)

lemma thread_same_active:
  "thread_same w w' \<Longrightarrow> thread_same w (w'\<lparr>w_task_active := True\<rparr>)"
  by (simp add: thread_same_def)

lemma thread_same_tasks:
  "same_but_tasks w w' \<Longrightarrow> thread_same w w'"
  by (metis same_but_tasks_def thread_same_refl thread_same_upd(1,4,5))

subsection \<open>Taking a stream context\<close>

context ngx_laws
begin

lemma take_stream_ctx_ok:
  assumes inv: "winv w" and env: "env_ok E w"
  obtains "take_stream_ctx N E ctx w = Some (NULL, w)"
  | k q where "take_stream_ctx N E ctx w =
        Some (k, w\<lparr>w_queues := q, w_sctxs := (w_sctxs w)(k \<mapsto> zero_sctx)\<rparr>)"
      "k \<noteq> NULL" "\<not> linked (SctxQueue k) q"
      "winv (w\<lparr>w_queues := q, w_sctxs := (w_sctxs w)(k \<mapsto> zero_sctx)\<rparr>)"
      "k \<notin> kept w"
      "\<exists>xs. q = (w_queues w)(CtxFree ctx := xs)"
proof (cases "w_queues w (CtxFree ctx) = []")
  case True
  note run = take_stream_ctx_def queue_empty True
  show ?thesis
  proof (cases "sys_alloc E 0 = NULL")
    case True
    with run that(1) show ?thesis by simp
  next
    case False
    then have fresh: "sys_alloc E 0 \<notin> dom (w_sctxs w)"
      using env by (auto simp: env_ok_def live_addrs_def fresh_alloc_def)
    then have nl: "\<not> linked (SctxQueue (sys_alloc E 0)) (w_queues w)"
      using linked_sctx_live [OF winv_butD(3) [OF inv]] by blast
    then have "winv (w\<lparr>w_sctxs := (w_sctxs w)(sys_alloc E 0 \<mapsto> zero_sctx)\<rparr>)"
      using inv False fresh by (intro winv_upd_unlinked) (auto simp: zero_sctx_def)
    moreover have "sys_alloc E 0 \<notin> kept w" using fresh by (auto simp: kept_def)
    moreover have "\<exists>xs. w_queues w = (w_queues w)(CtxFree ctx := xs)"
      by (rule exI [of _ "w_queues w (CtxFree ctx)"]) simp
    ultimately show ?thesis
      using False run nl that(2) [of "sys_alloc E 0" "w_queues w"] by simp
  qed
next
  case False
  let ?l = "last (w_queues w (CtxFree ctx))"
  let ?q = "(w_queues w)(CtxFree ctx := remove1 ?l (w_queues w (CtxFree ctx)))"
  have mem: "?l \<in> set (w_queues w (CtxFree ctx))" using False by simp
  obtain k s where k: "?l = SctxQueue k" "w_sctxs w k = Some s" "sctx_node s = NULL"
    using free_link_unkept [OF winv_butD(3) [OF inv] mem] .
  have wf: "queues_wf (w_queues w)" using winv_butD(3) [OF inv] by (rule queues_okD)
  have "linked_only_at (CtxFree ctx) ?l (w_queues w)" using wf mem by (rule queues_wf_only)
  then have rm: "queue_remove N ?l (w_queues w) = ?q" by (rule queue_remove)
  have nl: "\<not> linked (SctxQueue k) ?q" using not_linked_removed [OF wf mem] k(1) by simp
  have "k \<in> dom (w_sctxs w)" using k(2) by blast
  then have "k \<noteq> NULL" using queues_okD(6) [OF winv_butD(3) [OF inv]] by blast
  have "winv (w\<lparr>w_queues := ?q\<rparr>)"
    using winv_unlink_free [OF inv, of k ctx] mem k(1) by simp
  then have "winv ((w\<lparr>w_queues := ?q\<rparr>)\<lparr>w_sctxs := (w_sctxs (w\<lparr>w_queues := ?q\<rparr>))(k \<mapsto> zero_sctx)\<rparr>)"
    using nl \<open>k \<noteq> NULL\<close> k by (intro winv_upd_unlinked) (auto simp: zero_sctx_def)
  moreover have "take_stream_ctx N E ctx w =
      Some (k, w\<lparr>w_queues := ?q, w_sctxs := (w_sctxs w)(k \<mapsto> zero_sctx)\<rparr>)"
    using False k rm by (simp add: take_stream_ctx_def queue_empty queue_last upd_queues_def)
  moreover have "k \<notin> kept w" using k by (simp add: kept_def)
  ultimately show ?thesis
    using that(2) [of k ?q] nl \<open>k \<noteq> NULL\<close> by auto
qed

subsection \<open>Starting a task\<close>

lemma waits_ok_waiting:
  assumes "waits_ok w" "w_sctxs w k = Some s" "sctx_node s = NULL" "n \<noteq> NULL"
    "w_cos w p = Some c" "\<not> armed c" "request_ctx w (sctx_is_http s) (sctx_r s) \<noteq> None"
  shows "waits_ok (waiting_state N n k s p c t w)" (is "waits_ok ?w")
proof (rule waits_okI)
  show "NULL \<notin> dom (w_cos ?w)"
    using waits_okD(1) [OF assms(1)] assms(5) by (auto simp: waiting_state_def)
next
  fix j u assume j: "w_sctxs ?w j = Some u" "sctx_node u \<noteq> NULL"
  show "sctx_state u = NGX_GRPC_CLIENT_STATE_OK \<and>
      request_ctx ?w (sctx_is_http u) (sctx_r u) \<noteq> None \<and>
      (\<exists>c. w_cos ?w (sctx_wait_co_ctx u) = Some c \<and> armed_for j (sctx_is_http u) c)"
  proof (cases "j = k")
    case True
    then have "u = s\<lparr>sctx_node := n, sctx_state := NGX_GRPC_CLIENT_STATE_OK, sctx_wait_co_ctx := p\<rparr>"
      using j(1) by (simp add: waiting_state_def)
    with True assms(7) show ?thesis
      by (simp add: waiting_state_def armed_for_def request_ctx_def)
  next
    case False
    then have u: "w_sctxs w j = Some u" using j(1) by (simp add: waiting_state_def)
    note D = waits_okD [OF assms(1)]
    obtain d where d: "w_cos w (sctx_wait_co_ctx u) = Some d" "armed_for j (sctx_is_http u) d"
      using D(4) [OF u j(2)] by blast
    then have "sctx_wait_co_ctx u \<noteq> p" using assms(5,6) armed_for_armed by auto
    then show ?thesis
      using d D(2,3) [OF u j(2)] by (simp add: waiting_state_def request_ctx_def)
  qed
next
  fix q d assume q: "w_cos ?w q = Some d" "armed d"
  show "\<exists>u. w_sctxs ?w (co_data d) = Some u \<and> sctx_node u \<noteq> NULL \<and> sctx_wait_co_ctx u = q"
  proof (cases "q = p")
    case True
    then show ?thesis using q(1) assms(4) by (auto simp: waiting_state_def)
  next
    case False
    then have "w_cos w q = Some d" using q(1) by (simp add: waiting_state_def)
    then obtain u where "w_sctxs w (co_data d) = Some u" "sctx_node u \<noteq> NULL" "sctx_wait_co_ctx u = q"
      using waits_okD(5) [OF assms(1)] q(2) by blast
    then show ?thesis using assms(2,3) by (auto simp: waiting_state_def)
  qed
qed

lemma tasks_ok_waiting:
  assumes "tasks_ok w" "w_sctxs w k = Some s" "sctx_node s = NULL" "n \<noteq> NULL"
    "n \<notin> fst ` rb_nodes (w_tree w)"
  shows "tasks_ok (waiting_state N n k s p c t w)"
proof -
  let ?v = "w\<lparr>w_num := w_num w + 1, w_tree := rbtree_insert N n k (w_tree w),
             w_sctxs := (w_sctxs w)(k \<mapsto> s\<lparr>sctx_node := n\<rparr>)\<rparr>"
  have "tasks_ok ?v" by (rule keep_task_ok [OF assms])
  then show ?thesis
    using assms(2) unfolding tasks_ok_def waiting_state_def by (auto split: if_splits)
qed

lemma winv_waiting:
  assumes "winv_but X w" "w_sctxs w k = Some s" "sctx_node s = NULL" "n \<noteq> NULL"
    "n \<notin> fst ` rb_nodes (w_tree w)"
    "w_cos w p = Some c" "\<not> armed c" "request_ctx w (sctx_is_http s) (sctx_r s) \<noteq> None"
    "\<And>c. SctxQueue k \<notin> set (w_queues w (CtxFree c))"
  shows "winv_but (insert k X) (waiting_state N n k s p c t w)"
proof (rule winv_butI)
  note inv = winv_butD [OF assms(1)]
  show "tasks_ok (waiting_state N n k s p c t w)" using inv(1) assms(2-5) by (rule tasks_ok_waiting)
  show "waits_ok (waiting_state N n k s p c t w)"
    using inv(2) assms(2-4,6-8) by (rule waits_ok_waiting)
  show "queues_ok (waiting_state N n k s p c t w)"
    by (rule queues_ok_same_kind [OF inv(3) assms(2)])
      (use assms(9) in \<open>simp_all add: waiting_state_def\<close>)
  show "kept_ok (insert k X) (waiting_state N n k s p c t w)"
  proof (rule kept_okI, goal_cases)
    case (1 j u)
    then have "j \<notin> X" "w_sctxs w j = Some u" by (auto simp: waiting_state_def)
    with 1(3) show ?case
      using kept_okD [OF inv(4), of j u] by (auto simp: waiting_state_def)
  qed
  show "conns_ok (waiting_state N n k s p c t w)"
    using inv(5) by (rule conns_ok_frame) (simp_all add: waiting_state_def)
qed

text \<open>A task that does not start leaves at most the thread running and a message; one that
  starts leaves the state \<open>waiting_state\<close>.\<close>

lemma can_waitD:
  assumes "can_wait w is_http r"
  shows "conf_task (w_conf w) \<noteq> NULL"
    and "request_ctx w is_http r = Some l \<Longrightarrow> \<exists>c. w_cos w (cur_co_ctx l) = Some c \<and> \<not> armed c"
  using assms by (auto simp: can_wait_def split: option.splits)

lemma can_wait_frame:
  assumes "w_conf w' = w_conf w" "w_http w' = w_http w" "w_stream w' = w_stream w"
    "w_cos w' = w_cos w"
  shows "can_wait w' is_http r = can_wait w is_http r"
  unfolding can_wait_def request_ctx_def assms ..

lemma schedule_ok:
  assumes "conf_task (w_conf w) \<noteq> NULL" "task_post_ok E"
  shows "ngx_grpc_cli_schedule_task_thread_if_needed E w =
     (if w_task_active w \<or> fst (sys_task_post E False) = NGX_OK
      then Some (NGX_OK, w\<lparr>w_task_active := True\<rparr>) else Some (NGX_ERROR, w))"
proof -
  have post: "snd (sys_task_post E False) \<longleftrightarrow> fst (sys_task_post E False) = NGX_OK"
    using assms(2) by (simp add: task_post_ok_def)
  have same: "w_task_active w = a \<Longrightarrow> w\<lparr>w_task_active := a\<rparr> = w" for a by (cases w) simp
  show ?thesis
    using assms(1) post
    by (cases "w_task_active w")
      (auto simp: ngx_grpc_cli_schedule_task_thread_if_needed_def same split: prod.splits)
qed

lemma kick_off_task_cases:
  assumes "w_sctxs w k = Some s" and post: "task_post_ok E"
    and fresh: "sys_alloc E 1 = NULL \<or> sys_alloc E 1 \<notin> fst ` rb_nodes (w_tree w)"
    and "can_wait w (sctx_is_http s) r"
  obtains msg a where "ngx_grpc_cli_kick_off_task N E el r k opt w =
      Some ((NGX_ERROR, Some msg), w\<lparr>w_task_active := a\<rparr>)" "w_task_active w \<longrightarrow> a"
  | l c where "request_ctx w (sctx_is_http s) r = Some l" "w_cos w (cur_co_ctx l) = Some c"
      "\<not> armed c" "sys_alloc E 1 \<noteq> NULL" "sys_alloc E 1 \<notin> fst ` rb_nodes (w_tree w)"
      "ngx_grpc_cli_kick_off_task N E el r k opt w =
        Some ((NGX_OK, None), waiting_state N (sys_alloc E 1) k s (cur_co_ctx l) c (co_timeout opt) w)"
proof -
  note W = can_waitD [OF assms(4)]
  note sched = schedule_ok [OF W(1) post]
  note run = ngx_grpc_cli_kick_off_task_def assms(1) request_ctx_def [symmetric]
  show thesis
  proof (cases "request_ctx w (sctx_is_http s) r")
    case None
    then show ?thesis using that(1) [of _ "w_task_active w"] by (simp add: run)
  next
    case l: (Some l)
    obtain c where c: "w_cos w (cur_co_ctx l) = Some c" "\<not> armed c" using W(2) [OF l] by blast
    show ?thesis
    proof (cases "sys_check_context E r")
      case (Some m)
      then show ?thesis using that(1) [of _ "w_task_active w"] l by (simp add: run)
    next
      case chk: None
      show ?thesis
      proof (cases "w_task_active w \<or> fst (sys_task_post E False) = NGX_OK")
        case False
        then show ?thesis using that(1) [of _ "w_task_active w"] l chk by (simp add: run sched)
      next
        case active: True
        show ?thesis
        proof (cases "sys_alloc E 1 = NULL")
          case True
          then show ?thesis
            using that(1) [of _ True] l chk active by (simp add: run sched ngx_grpc_cli_keep_task_def)
        next
          case False
          then have "ngx_grpc_cli_kick_off_task N E el r k opt w =
            Some ((NGX_OK, None), waiting_state N (sys_alloc E 1) k s (cur_co_ctx l) c (co_timeout opt) w)"
            using l chk active c
            by (simp add: run sched ngx_grpc_cli_keep_task_def Let_def arm_wait_co_ctx_def
                waiting_state_def add_timer)
          then show ?thesis using that(2) l c False fresh by blast
        qed
      qed
    qed
  qed
qed

lemma env_okD:
  assumes "env_ok E w"
  shows "task_post_ok E"
    and "sys_alloc E i \<noteq> NULL \<Longrightarrow> sys_alloc E i \<notin> fst ` rb_nodes (w_tree w)"
    and "sys_alloc E i \<noteq> NULL \<Longrightarrow> sys_alloc E i \<notin> dom (w_sctxs w)"
    and "sys_alloc E i \<noteq> NULL \<Longrightarrow> sys_alloc E i \<notin> dom (w_ctxs w)"
    and "sys_alloc E i \<noteq> NULL \<Longrightarrow> sys_alloc E i \<notin> dom (w_pctxs w)"
    and "sys_alloc E i \<noteq> NULL \<Longrightarrow> sys_alloc E i \<notin> dom (EngineCtxRef (w_eng w))"
    and "sys_alloc E i \<noteq> NULL \<Longrightarrow> sys_alloc E j = sys_alloc E i \<Longrightarrow> j = i"
  using assms by (auto simp: env_ok_def live_addrs_def fresh_alloc_def)

subsection \<open>Handing the task to the engine\<close>

lemma winv_settle_unary:
  assumes "winv_but {k} w" "w_sctxs w k = Some s" "sctx_type s = STREAM_TYPE_UNARY"
    "w_ctxs w (sctx_parent s) = Some c" "\<not> free_delayed c" "\<not> linked (SctxQueue k) (w_queues w)"
  shows "winv w"
proof (rule winv_butI)
  note inv = winv_butD [OF assms(1)]
  show "tasks_ok w" "waits_ok w" "queues_ok w" "conns_ok w" by (fact inv)+
  show "kept_ok {} w"
  proof (rule kept_okI, goal_cases)
    case (1 j u)
    then show ?case using kept_okD [OF inv(4), of j u] assms(2-6) by (cases "j = k") auto
  qed
qed

lemma winv_settle_stream:
  assumes "winv_but {k} w" "w_sctxs w k = Some s" "sctx_type s \<noteq> STREAM_TYPE_UNARY"
    "sctx_parent s = ctx" "ctx \<in> dom (w_ctxs w)" "\<not> linked (SctxQueue k) (w_queues w)"
  shows "winv (w\<lparr>w_queues := (w_queues w)(CtxOpening ctx := SctxQueue k # w_queues w (CtxOpening ctx))\<rparr>)"
    (is "winv (w\<lparr>w_queues := ?q\<rparr>)")
proof -
  note inv = winv_butD [OF assms(1)]
  have "queues_wf ?q"
    using queues_okD(1) [OF inv(3)] assms(6) by (rule queues_wf_insert) simp_all
  then have "queues_ok (w\<lparr>w_queues := ?q\<rparr>)"
    using queues_okD(2-8) [OF inv(3)] assms(2-5)
    by (intro queues_okI) (auto split: if_splits)
  moreover have "kept_ok {} (w\<lparr>w_queues := ?q\<rparr>)"
  proof (rule kept_okI, goal_cases)
    case (1 j u)
    then show ?case
      using kept_okD [OF inv(4), of j u] assms(2-5) by (cases "j = k") (auto simp: linked_def)
  qed
  ultimately show ?thesis using assms(1) by (intro winv_queues)
qed

lemma winv_eng:
  "winv_but X w \<Longrightarrow> EngineCtxRef g = EngineCtxRef (w_eng w) \<Longrightarrow> winv_but X (w\<lparr>w_eng := g\<rparr>)"
  by (erule winv_frame) simp_all

lemma submit_task_ok:
  assumes "winv_but {k} w" "w_ctxs w ctx = Some c" "engine_ctx c \<noteq> NULL" "call_opt_ok opt"
    "\<not> free_delayed c"
    "w_sctxs w k = Some s" "sctx_type s = ty" "sctx_parent s = ctx"
    "\<not> linked (SctxQueue k) (w_queues w)"
  obtains j xs where
    "submit_task N k ctx meth req opt ty w =
       Some (w\<lparr>w_eng := spawn j (w_eng w), w_queues := (w_queues w)(CtxOpening ctx := xs)\<rparr>)"
    "go_task j = k"
    "winv (w\<lparr>w_eng := spawn j (w_eng w), w_queues := (w_queues w)(CtxOpening ctx := xs)\<rparr>)"
proof -
  obtain e where e: "EngineCtxRef (w_eng w) (engine_ctx c) = Some e"
    using conns_okD(1) [OF winv_butD(5) [OF assms(1)] assms(2,3)] by blast
  obtain co where co: "call_option opt = Some co" using call_option_ok [OF assms(4)] by blast
  have eng: "winv_but {k} (w\<lparr>w_eng := spawn j (w_eng w)\<rparr>)" for j
    using assms(1) by (rule winv_eng) (simp add: spawn_def)
  show thesis
  proof (cases "ty = STREAM_TYPE_UNARY")
    case True
    let ?j = "GoCall k e meth req co"
    have "winv (w\<lparr>w_eng := spawn ?j (w_eng w)\<rparr>)"
      using eng by (rule winv_settle_unary) (use assms True in auto)
    then show ?thesis
      using True that [of "w_queues w (CtxOpening ctx)" ?j] assms(2) e co
      by (simp add: submit_task_def grpc_engine_call_def mustFind_def)
  next
    case False
    let ?j = "GoNewStream k e meth req co ty"
    let ?w = "w\<lparr>w_eng := spawn ?j (w_eng w)\<rparr>"
    have "winv (?w\<lparr>w_queues := (w_queues ?w)(CtxOpening ctx := SctxQueue k # w_queues ?w (CtxOpening ctx))\<rparr>)"
      using eng by (rule winv_settle_stream) (use assms False in auto)
    then show ?thesis
      using False that [of "SctxQueue k # w_queues w (CtxOpening ctx)" ?j] assms(2,9) e co
      by (simp add: submit_task_def grpc_engine_new_stream_def mustFind_def upd_queues_def
          queue_insert_head)
  qed
qed

subsection \<open>New streams\<close>

lemma kept_upd_unkept:
  assumes "\<And>s. w_sctxs w k = Some s \<Longrightarrow> sctx_node s = NULL" "sctx_node u = NULL"
    "w_sctxs w' = (w_sctxs w)(k \<mapsto> u)"
  shows "kept w' = kept w"
  using assms by (auto simp: kept_def)

lemma kept_waiting [simp]:
  "n \<noteq> NULL \<Longrightarrow> kept (waiting_state N n k s p c t w) = insert k (kept w)"
  by (auto simp: kept_def waiting_state_def)

lemma waits_for_waiting:
  "n \<noteq> NULL \<Longrightarrow> w_sctxs w' = w_sctxs (waiting_state N n k s p c t w) \<Longrightarrow>
   w_cos w' = w_cos (waiting_state N n k s p c t w) \<Longrightarrow>
   waits_for w' k (sctx_is_http s) (sctx_r s) p"
  by (simp add: waits_for_def waiting_state_def armed_for_def)

text \<open>The context as \<open>ngx_grpc_cli_new_stream\<close> fills it in.\<close>

lemma new_stream_filled:
  assumes "winv w" "env_ok E w" "can_wait w is_http r"
    "\<not> linked (SctxQueue k) q" "k \<noteq> NULL" "k \<notin> kept w" "q = (w_queues w)(CtxFree ctx := xs)"
    "winv (w\<lparr>w_queues := q, w_sctxs := (w_sctxs w)(k \<mapsto> zero_sctx)\<rparr>)"
    "sctx_node s = NULL" "sctx_is_http s = is_http"
  defines "w1 \<equiv> w\<lparr>w_queues := q, w_sctxs := (w_sctxs w)(k \<mapsto> s)\<rparr>"
  shows "winv w1" "w_sctxs w1 k = Some s" "can_wait w1 (sctx_is_http s) r"
    "kept w1 = kept w" "thread_same w w1"
proof -
  let ?w0 = "w\<lparr>w_queues := q, w_sctxs := (w_sctxs w)(k \<mapsto> zero_sctx)\<rparr>"
  have "winv (?w0\<lparr>w_sctxs := (w_sctxs ?w0)(k \<mapsto> s)\<rparr>)"
    using assms(8) by (rule winv_upd_unlinked) (use assms in \<open>auto simp: zero_sctx_def\<close>)
  then show "winv w1" by (simp add: w1_def)
  show "w_sctxs w1 k = Some s" by (simp add: w1_def)
  show "can_wait w1 (sctx_is_http s) r"
    using can_wait_frame [of w1 w] assms(3,10) by (simp add: w1_def)
  show "kept w1 = kept w"
    by (rule kept_upd_unkept [of w k s]) (use assms in \<open>auto simp: kept_def\<close>)
  show "thread_same w w1"
    using assms(7) by (simp add: w1_def thread_same_def)
qed

lemma new_stream_ok:
  assumes inv: "winv w" and env: "env_ok E w" and ctx: "w_ctxs w ctx = Some c"
    and wait: "can_wait w is_http r" and opt: "call_opt_ok opt" and nd: "\<not> free_delayed c"
  obtains msg w' where
    "ngx_grpc_cli_new_stream N E el r is_http ctx meth req opt ty w = Some ((NULL, Some msg), w')"
    "winv w'" "thread_same w w'" "task_refused w w'"
  | k w' where
    "ngx_grpc_cli_new_stream N E el r is_http ctx meth req opt ty w = Some ((k, None), w')"
    "winv w'" "thread_same w w'" "k \<noteq> NULL" "engine_ctx c \<noteq> NULL" "w_ctxs w' = w_ctxs w"
    "task_started w w' k is_http r"
    "\<exists>s. w_sctxs w' k = Some s \<and> sctx_type s = ty \<and> sctx_parent s = ctx"
proof (cases "engine_ctx c = NULL")
  case True
  then show ?thesis
    using that(1) [of _ w] ctx inv by (simp add: ngx_grpc_cli_new_stream_def task_refused_def)
next
  case opened: False
  show ?thesis
  proof (rule take_stream_ctx_ok [OF inv env, of ctx], goal_cases)
    case 1
    then show ?thesis
      using that(1) [of _ w] opened ctx inv by (simp add: ngx_grpc_cli_new_stream_def task_refused_def)
  next
    case take: (2 k q)
    obtain xs where q: "q = (w_queues w)(CtxFree ctx := xs)" using take(6) by blast
    let ?s = "zero_sctx\<lparr>sctx_r := r, sctx_is_http := is_http, sctx_parent := ctx, sctx_type := ty\<rparr>"
    let ?w1 = "w\<lparr>w_queues := q, w_sctxs := (w_sctxs w)(k \<mapsto> ?s)\<rparr>"
    have s: "sctx_node ?s = NULL" "sctx_is_http ?s = is_http" by (simp_all add: zero_sctx_def)
    note w1 = new_stream_filled [OF inv env wait take(3,2,5) q take(4) s]
    have fresh: "sys_alloc E 1 = NULL \<or> sys_alloc E 1 \<notin> fst ` rb_nodes (w_tree ?w1)"
      using env_okD(2) [OF env] by auto
    note run = ngx_grpc_cli_new_stream_def ctx opened take(1,2)
    show ?thesis
    proof (rule kick_off_task_cases [OF w1(2) env_okD(1) [OF env] fresh w1(3), of el opt], goal_cases)
      case (1 msg a)
      let ?w2 = "?w1\<lparr>w_task_active := a\<rparr>"
      have w2: "winv ?w2" using w1(1) by (rule winv_frame) simp_all
      have w': "winv (?w2\<lparr>w_queues := (w_queues ?w2)(CtxFree ctx := SctxQueue k # w_queues ?w2 (CtxFree ctx))\<rparr>)"
        (is "winv ?w'")
        using w2 by (rule winv_link_free [where s = ?s]) (use take(3) s(1) in simp_all)
      have "ngx_grpc_cli_new_stream N E el r is_http ctx meth req opt ty w = Some ((NULL, Some msg), ?w')"
        using 1(1) take(3) by (simp add: run upd_queues_def queue_insert_head)
      moreover have "thread_same w ?w'" using 1(2) w1(5) by (simp add: thread_same_def)
      moreover have "task_refused w ?w'"
        using w1(4) by (simp add: task_refused_def kept_def)
      ultimately show ?thesis using that(1) w' by blast
    next
      case (2 l d)
      let ?w2 = "waiting_state N (sys_alloc E 1) k ?s (cur_co_ctx l) d (co_timeout opt) ?w1"
      have "winv_but {k} ?w2"
        using w1(1,2) s(1) 2(4,5,2,3) by (rule winv_waiting) (use 2(1) take(3) in \<open>auto simp: linked_def s\<close>)
      then show ?thesis
      proof (rule submit_task_ok [of k ?w2 ctx c opt _ ty meth req], goal_cases)
        case (9 j ys)
        let ?w' = "?w2\<lparr>w_eng := spawn j (w_eng ?w2), w_queues := (w_queues ?w2)(CtxOpening ctx := ys)\<rparr>"
        have "ngx_grpc_cli_new_stream N E el r is_http ctx meth req opt ty w = Some ((k, None), ?w')"
          using 2(6) 9(1) by (simp add: run)
        moreover have "task_started w ?w' k is_http r"
          using 2 take(5) w1(4) 9(2)
          by (auto simp: task_started_def waiting_state_def kept_def spawn_def waits_for_def
              armed_for_def request_ctx_def zero_sctx_def split: if_splits)
        moreover have "thread_same w ?w'"
          using w1(5) by (simp add: waiting_state_def thread_same_def)
        ultimately show ?thesis
          using that(2) [of k ?w'] 9(3) opened take(2) by (simp add: waiting_state_def)
      qed (use opened ctx opt nd take(3) in \<open>auto simp: waiting_state_def\<close>)
    qed
  qed
qed

subsection \<open>Operations on a stream\<close>

lemma open_streamD:
  assumes "open_stream w k" "queues_ok w"
  obtains s where "w_sctxs w k = Some s" "SctxQueue k \<in> set (w_queues w (CtxOpening (sctx_parent s)))"
    "sctx_type s \<noteq> STREAM_TYPE_UNARY" "sctx_parent s \<in> dom (w_ctxs w)"
    "\<And>c. SctxQueue k \<notin> set (w_queues w (CtxFree c))"
proof -
  obtain s where s: "w_sctxs w k = Some s"
    "SctxQueue k \<in> set (w_queues w (CtxOpening (sctx_parent s)))"
    using assms(1) by (auto simp: open_stream_def split: option.splits)
  have "SctxQueue k \<notin> set (w_queues w (CtxFree c))" for c
    using s(2) queues_wfD(2) [OF queues_okD(1) [OF assms(2)]] by blast
  then show thesis using that s queues_okD(3) [OF assms(2) s(2)] by auto
qed

text \<open>A stream context that passes \<open>ngx_grpc_cli_check_stream_status\<close> has no task under way.\<close>

lemma idle_stream_unkept:
  assumes "waits_ok w" "w_sctxs w k = Some s" "sctx_wait_co_ctx s = NULL"
  shows "sctx_node s = NULL"
  using waits_okD(1,4) [OF assms(1)] assms(2,3) by force

lemma stream_task_ok:
  assumes inv: "winv w" and env: "env_ok E w" and "open_stream w k" and k: "w_sctxs w k = Some s"
    and r: "sctx_r s = r" "sctx_wait_co_ctx s = NULL" and wait: "can_wait w (sctx_is_http s) r"
  obtains msg w' where "ngx_grpc_cli_kick_off_task N E el r k opt w = Some ((NGX_ERROR, Some msg), w')"
      "winv w'" "thread_same w w'" "task_refused w w'"
  | w2 where "ngx_grpc_cli_kick_off_task N E el r k opt w = Some ((NGX_OK, None), w2)"
      "w_eng w2 = w_eng w"
      "\<And>j. go_task j = k \<Longrightarrow> winv (w2\<lparr>w_eng := spawn j (w_eng w)\<rparr>) \<and>
         thread_same w (w2\<lparr>w_eng := spawn j (w_eng w)\<rparr>) \<and>
         task_started w (w2\<lparr>w_eng := spawn j (w_eng w)\<rparr>) k (sctx_is_http s) r"
proof -
  note parts = winv_butD [OF inv]
  have idle: "sctx_node s = NULL" using parts(2) k r(2) by (rule idle_stream_unkept)
  have fresh: "sys_alloc E 1 = NULL \<or> sys_alloc E 1 \<notin> fst ` rb_nodes (w_tree w)"
    using env_okD(2) [OF env] by auto
  show thesis
  proof (rule kick_off_task_cases [OF k env_okD(1) [OF env] fresh wait, of el opt], goal_cases)
    case (1 msg a)
    have "winv (w\<lparr>w_task_active := a\<rparr>)" using inv by (rule winv_frame) simp_all
    then show ?thesis
      using 1 that(1) by (simp add: thread_same_def task_refused_def kept_def)
  next
    case (2 l d)
    let ?w2 = "waiting_state N (sys_alloc E 1) k s (cur_co_ctx l) d (co_timeout opt) w"
    obtain "SctxQueue k \<in> set (w_queues w (CtxOpening (sctx_parent s)))"
      "sctx_type s \<noteq> STREAM_TYPE_UNARY" "sctx_parent s \<in> dom (w_ctxs w)"
      "\<And>c. SctxQueue k \<notin> set (w_queues w (CtxFree c))"
      using assms(3) parts(3) by (rule open_streamD) (use k in auto)
    note op = this
    have but: "winv_but {k} ?w2"
      using inv k idle 2(4,5,2,3) by (rule winv_waiting) (use 2(1) r op in auto)
    have "kept_ok {} ?w2"
    proof (rule kept_okI, goal_cases)
      case (1 j u)
      then show ?case
        using kept_okD [OF winv_butD(4) [OF but], of j u] op
        by (cases "j = k") (auto simp: waiting_state_def)
    qed
    then have w2: "winv ?w2" using winv_butD [OF but] by (intro winv_butI)
    have "winv (?w2\<lparr>w_eng := spawn j (w_eng w)\<rparr>)" for j
      using w2 by (rule winv_eng) (simp add: spawn_def waiting_state_def)
    moreover have "thread_same w (?w2\<lparr>w_eng := spawn j (w_eng w)\<rparr>)" for j
      by (simp add: waiting_state_def thread_same_def)
    moreover have "task_started w (?w2\<lparr>w_eng := spawn j (w_eng w)\<rparr>) k (sctx_is_http s) r"
      if "go_task j = k" for j
      using 2 k idle r that
      by (auto simp: task_started_def waiting_state_def kept_def spawn_def waits_for_def armed_for_def
          request_ctx_def split: if_splits)
    ultimately show ?thesis using that(2) [of ?w2] 2(6) by (simp add: waiting_state_def)
  qed
qed

text \<open>The three operations differ in the call of the engine.\<close>

lemma stream_ops_ok:
  assumes inv: "winv w" and env: "env_ok E w" and st: "open_stream w k" and k: "w_sctxs w k = Some s"
    and wait: "can_wait w (sctx_is_http s) r" and ref: "StreamRef (w_eng w) k = Some i"
    and run: "run = ngx_grpc_cli_stream_recv N E el r k opt w \<or>
              run = ngx_grpc_cli_stream_send N E el r k opt req w \<or>
              run = ngx_grpc_cli_stream_close_send N E el r k opt w"
  obtains msg w' where "run = Some ((NGX_ERROR, Some msg), w')"
      "winv w'" "thread_same w w'" "task_refused w w'"
  | w' where "run = Some ((NGX_OK, None), w')" "sctx_r s = r" "sctx_wait_co_ctx s = NULL"
      "winv w'" "thread_same w w'" "task_started w w' k (sctx_is_http s) r"
proof -
  note ops = ngx_grpc_cli_stream_recv_def ngx_grpc_cli_stream_send_def
    ngx_grpc_cli_stream_close_send_def ngx_grpc_cli_check_stream_status_def k
    grpc_engine_stream_recv_def grpc_engine_stream_send_def grpc_engine_stream_close_send_def
    mustFind_def ref
  show thesis
  proof (cases "sctx_r s \<noteq> NULL \<and> sctx_r s = r \<and> sctx_wait_co_ctx s = NULL")
    case False
    then have "\<exists>msg. run = Some ((NGX_ERROR, Some msg), w)" using run by (auto simp: ops)
    then show ?thesis using that(1) inv by (auto simp: task_refused_def)
  next
    case True
    then have r: "sctx_r s \<noteq> NULL" "sctx_r s = r" "sctx_wait_co_ctx s = NULL" by blast+
    show ?thesis
    proof (rule stream_task_ok [OF inv env st k r(2,3) wait, of el opt], goal_cases)
      case (1 msg w')
      then have "run = Some ((NGX_ERROR, Some msg), w')" using run r by (auto simp: ops)
      with 1 that(1) show ?thesis by blast
    next
      case (2 w2)
      then have "\<exists>j\<in>{GoRecv k i, GoSend k i req, GoCloseSend k i}.
          run = Some ((NGX_OK, None), w2\<lparr>w_eng := spawn j (w_eng w)\<rparr>)"
        using run r by (elim disjE) (simp_all add: ops)
      moreover have "go_task j = k" if "j \<in> {GoRecv k i, GoSend k i req, GoCloseSend k i}" for j
        using that by auto
      ultimately have "\<exists>j. go_task j = k \<and> run = Some ((NGX_OK, None), w2\<lparr>w_eng := spawn j (w_eng w)\<rparr>)"
        by blast
      with 2(3) that(2) r(2,3) show ?thesis by blast
    qed
  qed
qed

text \<open>The same on a stream the engine does not know: refused, or the engine panics.\<close>

lemma stream_ops_unknown:
  assumes inv: "winv w" and env: "env_ok E w" and st: "open_stream w k" and k: "w_sctxs w k = Some s"
    and wait: "can_wait w (sctx_is_http s) r" and ref: "StreamRef (w_eng w) k = None"
    and run: "run = ngx_grpc_cli_stream_recv N E el r k opt w \<or>
              run = ngx_grpc_cli_stream_send N E el r k opt req w \<or>
              run = ngx_grpc_cli_stream_close_send N E el r k opt w"
  obtains msg w' where "run = Some ((NGX_ERROR, Some msg), w')"
      "winv w'" "thread_same w w'" "task_refused w w'"
  | "run = None"
proof -
  note ops = ngx_grpc_cli_stream_recv_def ngx_grpc_cli_stream_send_def
    ngx_grpc_cli_stream_close_send_def ngx_grpc_cli_check_stream_status_def k
    grpc_engine_stream_recv_def grpc_engine_stream_send_def grpc_engine_stream_close_send_def
    mustFind_def ref
  show thesis
  proof (cases "sctx_r s \<noteq> NULL \<and> sctx_r s = r \<and> sctx_wait_co_ctx s = NULL")
    case False
    then have "\<exists>msg. run = Some ((NGX_ERROR, Some msg), w)" using run by (auto simp: ops)
    then show ?thesis using that(1) inv by (auto simp: task_refused_def)
  next
    case True
    then have r: "sctx_r s \<noteq> NULL" "sctx_r s = r" "sctx_wait_co_ctx s = NULL" by blast+
    show ?thesis
    proof (rule stream_task_ok [OF inv env st k r(2,3) wait, of el opt], goal_cases)
      case (1 msg w')
      then have "run = Some ((NGX_ERROR, Some msg), w')" using run r by (auto simp: ops)
      with 1 that(1) show ?thesis by blast
    next
      case (2 w2)
      then have "run = None" using run r by (elim disjE) (simp_all add: ops)
      then show ?thesis using that(2) by blast
    qed
  qed
qed

end

end
