(* ===== verification/Cli_Close_Inv.thy ===== *)
theory Cli_Close_Inv
  imports Cli_Conn_Inv
begin

text \<open>
  Opening, closing and freeing connections and streams: the free loop returns, memory is
  freed once, and a connection with open streams stays until the last of them is freed.
\<close>

subsection \<open>Definitions\<close>

text \<open>No unary call on the connection is under way; a coroutine waiting in one holds the
  connection, so the garbage collector calls \<^verbatim>\<open>ngx_grpc_cli_close\<close> only then.\<close>

definition no_unary_call :: "worker \<Rightarrow> addr \<Rightarrow> bool" where
  "no_unary_call w ctx \<longleftrightarrow>
     (\<forall>k s. w_sctxs w k = Some s \<longrightarrow> sctx_node s \<noteq> NULL \<longrightarrow> sctx_parent s = ctx \<longrightarrow>
        sctx_type s \<noteq> STREAM_TYPE_UNARY)"

text \<open>The stream contexts of the free queue of a connection are gone.\<close>

definition freed :: "addr \<Rightarrow> worker \<Rightarrow> worker" where
  "freed ctx w =
     w\<lparr>w_queues := (w_queues w)(CtxFree ctx := []),
       w_sctxs := (\<lambda>k. if SctxQueue k \<in> set (w_queues w (CtxFree ctx)) then None else w_sctxs w k)\<rparr>"

text \<open>The first half of \<open>ngx_grpc_cli_close\<close>: the engine's connection is closed and forgotten.\<close>

definition engine_closed :: "addr \<Rightarrow> ngx_grpc_cli_ctx \<Rightarrow> worker \<Rightarrow> worker" where
  "engine_closed ctx c w =
     (if engine_ctx c = NULL then w
      else w\<lparr>w_eng := grpc_engine_close (engine_ctx c) (w_eng w),
             w_ctxs := (w_ctxs w)(ctx \<mapsto> c\<lparr>engine_ctx := NULL\<rparr>)\<rparr>)"

lemma thread_same_freed [simp]: "thread_same w (freed ctx w') = thread_same w w'"
  by (simp add: freed_def thread_same_def)

subsection \<open>The loop\<close>

context ngx_laws
begin

lemma free_conn_loop_ok:
  assumes "winv_but X w"
  shows "free_conn_loop N ctx w = Some (freed ctx w) \<and> winv_but X (freed ctx w)"
  using assms
proof (induction "w_queues w (CtxFree ctx)" arbitrary: w rule: rev_induct)
  case Nil
  then have "freed ctx w = w" by (simp add: freed_def fun_upd_idem)
  with Nil show ?case by (simp add: free_conn_loop.simps queue_empty)
next
  case (snoc x xs)
  note xs = snoc.hyps(2) [symmetric]
  note inv = winv_butD [OF snoc.prems]
  have mem: "x \<in> set (w_queues w (CtxFree ctx))" using xs by simp
  obtain k s where k: "x = SctxQueue k" "w_sctxs w k = Some s" "sctx_node s = NULL"
    using free_link_unkept [OF inv(3) mem] .
  have wf: "queues_wf (w_queues w)" using inv(3) by (rule queues_okD)
  have "distinct (xs @ [x])" using queues_wfD(1) [OF wf, of "CtxFree ctx"] xs by simp
  then have rem: "remove1 x (w_queues w (CtxFree ctx)) = xs" and "x \<notin> set xs"
    using xs by (auto simp: remove1_append)
  let ?q = "(w_queues w)(CtxFree ctx := xs)"
  let ?w1 = "w\<lparr>w_queues := ?q\<rparr>"
  let ?w2 = "?w1\<lparr>w_sctxs := (w_sctxs ?w1)(k := None)\<rparr>"
  have rm: "queue_remove N x (w_queues w) = ?q"
    using queue_remove [OF queues_wf_only [OF wf mem]] rem by simp
  have "winv_but X ?w1" using winv_unlink_free [OF snoc.prems, of k ctx] mem k(1) rem by simp
  moreover have "\<not> linked (SctxQueue k) (w_queues ?w1)"
    using not_linked_removed [OF wf mem] rem k(1) by simp
  ultimately have w2: "winv_but X ?w2" using k by (intro winv_upd_unlinked) auto
  have "freed ctx ?w2 = freed ctx w"
    using xs k(1) by (auto simp: freed_def fun_eq_iff)
  moreover have "free_conn_loop N ctx w = free_conn_loop N ctx ?w2"
    using xs k rm
    by (subst free_conn_loop.simps) (auto simp: queue_empty queue_last upd_queues_def domIff)
  moreover have "xs = w_queues ?w2 (CtxFree ctx)" by simp
  ultimately show ?case using snoc.hyps(1) [of ?w2] w2 by metis
qed

subsection \<open>Connections in the table\<close>

lemma winv_ctxs:
  assumes "winv_but X w" "NULL \<notin> dom cs"
    "\<And>c x. x \<in> set (w_queues w (CtxOpening c)) \<Longrightarrow> c \<in> dom cs"
    "\<And>k s. k \<notin> X \<Longrightarrow> w_sctxs w k = Some s \<Longrightarrow> sctx_node s \<noteq> NULL \<Longrightarrow>
      \<exists>c. cs (sctx_parent s) = Some c \<and> (sctx_type s = STREAM_TYPE_UNARY \<longrightarrow> \<not> free_delayed c)"
    "conns_ok (w\<lparr>w_eng := g, w_ctxs := cs\<rparr>)"
  shows "winv_but X (w\<lparr>w_eng := g, w_ctxs := cs\<rparr>)" (is "winv_but X ?w")
proof (rule winv_butI)
  note inv = winv_butD [OF assms(1)]
  show "tasks_ok ?w" using inv(1) by (rule tasks_ok_frame) simp_all
  show "waits_ok ?w" using inv(2) by (rule waits_ok_frame) simp_all
  show "conns_ok ?w" by (fact assms(5))
  show "queues_ok ?w"
  proof (rule queues_okI)
    note D = queues_okD [OF inv(3)]
    fix x c
    show "\<exists>k s. x = SctxQueue k \<and> w_sctxs ?w k = Some s \<and> sctx_node s = NULL"
      if "x \<in> set (w_queues ?w (CtxFree c))" using D(2) that by simp
    show "c \<in> dom (w_ctxs ?w) \<and> (\<exists>k s. x = SctxQueue k \<and> w_sctxs ?w k = Some s \<and>
        sctx_type s \<noteq> STREAM_TYPE_UNARY \<and> sctx_parent s = c)"
      if "x \<in> set (w_queues ?w (CtxOpening c))" using D(3) [of x c] assms(3) [of x c] that by simp
  qed (use queues_okD [OF inv(3)] assms(2) in simp_all)
  show "kept_ok X ?w"
  proof (rule kept_okI, goal_cases)
    case (1 k s)
    then show ?case using kept_okD [OF inv(4), of k s] assms(4) [of k s] by simp
  qed
qed

lemma kept_parent_cases:
  assumes "winv w" "w_sctxs w k = Some s" "sctx_node s \<noteq> NULL"
  shows "\<exists>c. w_ctxs w (sctx_parent s) = Some c \<and> (sctx_type s = STREAM_TYPE_UNARY \<longrightarrow> \<not> free_delayed c)"
    and "no_unary_call w (sctx_parent s) \<Longrightarrow> w_queues w (CtxOpening (sctx_parent s)) \<noteq> []"
  using kept_okD [OF winv_butD(4) [OF assms(1)] _ assms(2,3)] assms(2,3)
  by (auto simp: no_unary_call_def)

lemma winv_free_ctx:
  assumes "winv w" "w_queues w (CtxOpening ctx) = []" "no_unary_call w ctx"
  shows "winv (w\<lparr>w_ctxs := (w_ctxs w)(ctx := None)\<rparr>)"
proof -
  let ?cs = "(w_ctxs w)(ctx := None)"
  note inv = winv_butD [OF assms(1)]
  have "conns_ok (w\<lparr>w_eng := w_eng w, w_ctxs := ?cs\<rparr>)"
    by (rule conns_okI) (auto dest: conns_okD [OF inv(5)] split: if_splits)
  then have "winv (w\<lparr>w_eng := w_eng w, w_ctxs := ?cs\<rparr>)"
  proof (rule winv_ctxs [OF assms(1), rotated 3], goal_cases)
    case 1
    then show ?case using queues_okD(7) [OF inv(3)] by simp
  next
    case (2 c x)
    then show ?case using queues_okD(3) [OF inv(3)] assms(2) by auto
  next
    case (3 k s)
    then show ?case using kept_parent_cases [OF assms(1) 3(2,3)] assms(2,3) by auto
  qed
  then show ?thesis by simp
qed

lemma free_conn_ok:
  assumes "winv w" "w_queues w (CtxOpening ctx) = []" "no_unary_call w ctx" "w_ctxs w ctx = Some c"
  defines "w' \<equiv> (freed ctx w)\<lparr>w_ctxs := (w_ctxs w)(ctx := None)\<rparr>"
  shows "ngx_grpc_cli_free_conn N ctx w = Some w'" "winv w'"
proof -
  have loop: "free_conn_loop N ctx w = Some (freed ctx w)" "winv (freed ctx w)"
    using free_conn_loop_ok [OF assms(1)] by auto
  have sel: "w_ctxs (freed ctx w) = w_ctxs w" by (simp add: freed_def)
  then show "ngx_grpc_cli_free_conn N ctx w = Some w'"
    using loop(1) assms(4) by (auto simp: ngx_grpc_cli_free_conn_def w'_def)
  have "no_unary_call (freed ctx w) ctx"
    using assms(3) by (auto simp: no_unary_call_def freed_def split: if_splits)
  then have "winv ((freed ctx w)\<lparr>w_ctxs := (w_ctxs (freed ctx w))(ctx := None)\<rparr>)"
    using loop(2) assms(2) by (intro winv_free_ctx) (simp_all add: freed_def)
  then show "winv w'" by (simp add: w'_def sel)
qed

subsection \<open>Connecting\<close>

lemma winv_clear_free:
  assumes "winv w"
  shows "winv (w\<lparr>w_queues := (w_queues w)(CtxFree ctx := [])\<rparr>)" (is "winv (w\<lparr>w_queues := ?q\<rparr>)")
proof -
  note inv = winv_butD [OF assms]
  have wf: "queues_wf ?q" using queues_okD(1) [OF inv(3)] by (rule queues_wf_upd) simp_all
  have "queues_ok (w\<lparr>w_queues := ?q\<rparr>)"
    using inv(3) wf by (rule queues_ok_sub) (auto split: if_splits)
  moreover have "kept_ok {} (w\<lparr>w_queues := ?q\<rparr>)"
  proof (rule kept_okI, goal_cases)
    case (1 k s)
    then show ?case using kept_okD [OF inv(4), of k s] by (auto simp: linked_def)
  qed
  ultimately show ?thesis using assms by (intro winv_queues)
qed

lemma opening_dead_empty:
  "queues_ok w \<Longrightarrow> ctx \<notin> dom (w_ctxs w) \<Longrightarrow> w_queues w (CtxOpening ctx) = []"
  using queues_okD(3) by (metis list.set_intros(1) neq_Nil_conv)

lemma conns_ok_connect:
  assumes ok: "conns_ok w" and fresh: "ref \<notin> dom (EngineCtxRef (w_eng w))" and "ref \<noteq> NULL"
    and w': "w_ctxs w' = (w_ctxs w)(ctx \<mapsto> \<lparr>engine_ctx = ref, free_delayed = d\<rparr>)"
      "EngineCtxRef (w_eng w') = (EngineCtxRef (w_eng w))(ref \<mapsto> e)"
  shows "conns_ok w'"
proof (rule conns_okI)
  fix c x assume "w_ctxs w' c = Some x" "engine_ctx x \<noteq> NULL"
  then show "engine_ctx x \<in> dom (EngineCtxRef (w_eng w'))"
    using conns_okD(1) [OF ok] by (auto simp: w' split: if_splits)
next
  fix c c' x x'
  assume *: "w_ctxs w' c = Some x" "w_ctxs w' c' = Some x'" "engine_ctx x \<noteq> NULL"
    "engine_ctx x' = engine_ctx x"
  have old: "engine_ctx y \<noteq> ref" if "w_ctxs w d = Some y" "engine_ctx y \<noteq> NULL" for d y
    using conns_okD(1) [OF ok that] fresh by auto
  have new: "engine_ctx y = ref" if "w_ctxs w' ctx = Some y" for y using that by (auto simp: w')
  show "c' = c"
  proof (cases "c = ctx \<or> c' = ctx")
    case True
    show ?thesis
    proof (rule ccontr)
      assume "c' \<noteq> c"
      then consider "c = ctx" "w_ctxs w c' = Some x'" | "c' = ctx" "w_ctxs w c = Some x"
        using True *(1,2) by (auto simp: w')
      then show False using new * old by cases (metis *)+
    qed
  next
    case False
    then have "w_ctxs w c = Some x" "w_ctxs w c' = Some x'" using *(1,2) by (auto simp: w')
    then show ?thesis using conns_okD(2) [OF ok] *(3,4) by blast
  qed
qed

lemma connect_ok:
  assumes inv: "winv w" and env: "env_ok E w"
  obtains err w' where "ngx_grpc_cli_connect N G E target opt w = ((NULL, err), w')"
      "winv w'" "thread_same w w'" "w_ctxs w' = w_ctxs w" "w_sctxs w' = w_sctxs w"
  | ctx w' where "ngx_grpc_cli_connect N G E target opt w = ((ctx, None), w')"
      "winv w'" "thread_same w w'" "ctx \<noteq> NULL" "ctx \<notin> dom (w_ctxs w)" "w_sctxs w' = w_sctxs w"
      "w_ctxs w' = (w_ctxs w)(ctx \<mapsto> \<lparr>engine_ctx = sys_alloc E 1, free_delayed = False\<rparr>)"
      "sys_alloc E 1 \<noteq> NULL" "w_queues w' (CtxOpening ctx) = []" "w_queues w' (CtxFree ctx) = []"
proof (cases "sys_alloc E 0 = NULL")
  case True
  then show ?thesis using that(1) [of _ w] inv by (simp add: ngx_grpc_cli_connect_def)
next
  case False
  let ?ctx = "sys_alloc E 0" and ?ref = "sys_alloc E 1"
  note parts = winv_butD [OF inv]
  have new: "?ctx \<notin> dom (w_ctxs w)" using env_okD(4) [OF env False] .
  let ?w1 = "w\<lparr>w_queues := (w_queues w)(CtxFree ?ctx := [])\<rparr>"
  have w1: "winv ?w1" using inv by (rule winv_clear_free)
  have q: "((w_queues w)(CtxFree ?ctx := []))(CtxOpening ?ctx := []) = w_queues ?w1"
    using opening_dead_empty [OF parts(3) new] by (simp add: fun_eq_iff)
  have drop: "(w_ctxs w)(?ctx := None) = w_ctxs w" using new by (auto simp: fun_eq_iff domIff)
  obtain ectx err g where conn: "grpc_engine_connect G ?ref target opt (w_eng w) = (ectx, err, g)"
    using prod_cases3 by blast
  then consider "ectx = NULL" "g = w_eng w"
    | e where "ectx = ?ref" "err = None" "g = (w_eng w)\<lparr>EngineCtxRef := (EngineCtxRef (w_eng w))(?ref \<mapsto> e)\<rparr>"
    by (auto simp: grpc_engine_connect_def Let_def split: outcome.splits sum.splits)
  then show ?thesis
  proof cases
    case 1
    have "winv (?w1\<lparr>w_eng := w_eng w, w_ctxs := w_ctxs w\<rparr>)" using w1 by (rule winv_frame) simp_all
    moreover have "ngx_grpc_cli_connect N G E target opt w =
        ((NULL, err), ?w1\<lparr>w_eng := w_eng w, w_ctxs := w_ctxs w\<rparr>)"
      using False 1 conn q drop
      by (simp add: ngx_grpc_cli_connect_def upd_queues_def queue_init Let_def)
    ultimately show ?thesis using that(1) by (simp add: thread_same_def)
  next
    case (2 e)
    show ?thesis
    proof (cases "?ref = NULL")
      case True
      have "winv (?w1\<lparr>w_eng := g, w_ctxs := w_ctxs w\<rparr>)"
        using w1 by (rule winv_frame) (use 2(3) in auto)
      moreover have "ngx_grpc_cli_connect N G E target opt w =
          ((NULL, None), ?w1\<lparr>w_eng := g, w_ctxs := w_ctxs w\<rparr>)"
        using False True 2 conn q drop
        by (simp add: ngx_grpc_cli_connect_def upd_queues_def queue_init Let_def)
      ultimately show ?thesis using that(1) by (simp add: thread_same_def)
    next
      case ref: False
      let ?cs = "(w_ctxs w)(?ctx \<mapsto> \<lparr>engine_ctx = ?ref, free_delayed = False\<rparr>)"
      let ?w' = "?w1\<lparr>w_eng := g, w_ctxs := ?cs\<rparr>"
      have fresh: "?ref \<notin> dom (EngineCtxRef (w_eng w))" using env_okD(6) [OF env ref] .
      have "conns_ok ?w'"
        using parts(5) fresh ref by (rule conns_ok_connect) (simp_all add: 2(3))
      then have "winv ?w'"
      proof (rule winv_ctxs [OF w1, rotated 3], goal_cases)
        case 1
        then show ?case using False queues_okD(7) [OF parts(3)] by simp
      next
        case (2 c x)
        then show ?case using queues_okD(3) [OF parts(3), of x c] by auto
      next
        case (3 k s)
        then show ?case using kept_okD(1) [OF parts(4), of k s] by auto
      qed
      moreover have "ngx_grpc_cli_connect N G E target opt w = ((?ctx, None), ?w')"
        using False ref 2 conn q
        by (simp add: ngx_grpc_cli_connect_def upd_queues_def queue_init Let_def)
      ultimately show ?thesis
        using that(2) [of ?ctx ?w'] False ref new opening_dead_empty [OF parts(3) new]
        by (simp add: thread_same_def)
    qed
  qed
qed

subsection \<open>Closing\<close>

lemma conns_ok_reset:
  assumes ok: "conns_ok w" and w': "w_ctxs w' = (w_ctxs w)(ctx \<mapsto> y)" "engine_ctx y = NULL"
    and ref: "\<And>d x. d \<noteq> ctx \<Longrightarrow> w_ctxs w d = Some x \<Longrightarrow> engine_ctx x \<noteq> NULL \<Longrightarrow>
      engine_ctx x \<in> dom (EngineCtxRef (w_eng w'))"
  shows "conns_ok w'"
proof (rule conns_okI)
  have old: "d \<noteq> ctx \<and> w_ctxs w d = Some x" if "w_ctxs w' d = Some x" "engine_ctx x \<noteq> NULL" for d x
    using that w' by (auto split: if_splits)
  show "engine_ctx x \<in> dom (EngineCtxRef (w_eng w'))"
    if "w_ctxs w' d = Some x" "engine_ctx x \<noteq> NULL" for d x
    using old [OF that] ref that(2) by blast
  show "d' = d"
    if "w_ctxs w' d = Some x" "w_ctxs w' d' = Some x'" "engine_ctx x \<noteq> NULL"
      "engine_ctx x' = engine_ctx x" for d d' x x'
  proof -
    have "engine_ctx x' \<noteq> NULL" using that(3,4) by simp
    then show ?thesis
      using old [OF that(1,3)] old [OF that(2)] conns_okD(2) [OF ok _ that(3) _ that(4)] by blast
  qed
qed

lemma winv_close_engine:
  assumes "winv w" "w_ctxs w ctx = Some c" "engine_ctx c \<noteq> NULL"
  shows "winv (w\<lparr>w_eng := grpc_engine_close (engine_ctx c) (w_eng w),
                 w_ctxs := (w_ctxs w)(ctx \<mapsto> c\<lparr>engine_ctx := NULL\<rparr>)\<rparr>)"
    (is "winv (w\<lparr>w_eng := ?g, w_ctxs := ?cs\<rparr>)")
proof (rule winv_ctxs [OF assms(1)])
  note parts = winv_butD [OF assms(1)]
  show "NULL \<notin> dom ?cs" using queues_okD(7) [OF parts(3)] assms(2) by auto
  show "d \<in> dom ?cs" if "x \<in> set (w_queues w (CtxOpening d))" for d x
    using queues_okD(3) [OF parts(3) that] by simp
  show "\<exists>d. ?cs (sctx_parent s) = Some d \<and> (sctx_type s = STREAM_TYPE_UNARY \<longrightarrow> \<not> free_delayed d)"
    if "w_sctxs w k = Some s" "sctx_node s \<noteq> NULL" for k s
    using kept_okD(1) [OF parts(4) _ that] assms(2) by auto
  show "conns_ok (w\<lparr>w_eng := ?g, w_ctxs := ?cs\<rparr>)"
  proof (rule conns_ok_reset [OF parts(5), where ctx = ctx and y = "c\<lparr>engine_ctx := NULL\<rparr>"], goal_cases)
    case (3 d x)
    then have "engine_ctx x \<noteq> engine_ctx c"
      using conns_okD(2) [OF parts(5) assms(2,3)] by blast
    with conns_okD(1) [OF parts(5) 3(2,3)] show ?case
      by (auto simp: grpc_engine_close_def split: option.split)
  qed simp_all
qed

lemma engine_closed_sel [simp]:
  "w_queues (engine_closed ctx c w) = w_queues w" "w_sctxs (engine_closed ctx c w) = w_sctxs w"
  "w_cos (engine_closed ctx c w) = w_cos w" "w_tree (engine_closed ctx c w) = w_tree w"
  "thread_same v (engine_closed ctx c w) = thread_same v w"
  "no_unary_call (engine_closed ctx c w) = no_unary_call w"
  by (simp_all add: engine_closed_def no_unary_call_def fun_eq_iff)

lemma engine_closed_ctx:
  "w_ctxs w ctx = Some c \<Longrightarrow>
   w_ctxs (engine_closed ctx c w) = (w_ctxs w)(ctx \<mapsto> c\<lparr>engine_ctx := NULL\<rparr>)"
  by (cases c) (auto simp: engine_closed_def fun_eq_iff)

lemma close_eq:
  assumes "w_ctxs w ctx = Some c"
  shows "ngx_grpc_cli_close N ctx r w =
    (if r \<noteq> NULL then Some (engine_closed ctx c w)
     else if w_queues w (CtxOpening ctx) \<noteq> []
     then Some ((engine_closed ctx c w)\<lparr>w_ctxs := (w_ctxs w)(ctx \<mapsto> \<lparr>engine_ctx = NULL, free_delayed = True\<rparr>)\<rparr>)
     else ngx_grpc_cli_free_conn N ctx (engine_closed ctx c w))"
  using assms
  by (cases c) (auto simp: ngx_grpc_cli_close_def engine_closed_def queue_empty fun_upd_idem)

lemma winv_engine_closed:
  "winv w \<Longrightarrow> w_ctxs w ctx = Some c \<Longrightarrow> winv (engine_closed ctx c w)"
  by (simp add: engine_closed_def winv_close_engine)

lemma winv_delay_free:
  assumes "winv w" "w_ctxs w ctx = Some c" "no_unary_call w ctx" "engine_ctx c = NULL"
  shows "winv (w\<lparr>w_ctxs := (w_ctxs w)(ctx \<mapsto> \<lparr>engine_ctx = NULL, free_delayed = True\<rparr>)\<rparr>)"
    (is "winv (w\<lparr>w_ctxs := ?cs\<rparr>)")
proof -
  note parts = winv_butD [OF assms(1)]
  have "winv (w\<lparr>w_eng := w_eng w, w_ctxs := ?cs\<rparr>)"
  proof (rule winv_ctxs [OF assms(1)])
    show "NULL \<notin> dom ?cs" using queues_okD(7) [OF parts(3)] assms(2) by auto
    show "d \<in> dom ?cs" if "x \<in> set (w_queues w (CtxOpening d))" for d x
      using queues_okD(3) [OF parts(3) that] by simp
    show "\<exists>d. ?cs (sctx_parent s) = Some d \<and> (sctx_type s = STREAM_TYPE_UNARY \<longrightarrow> \<not> free_delayed d)"
      if "w_sctxs w k = Some s" "sctx_node s \<noteq> NULL" for k s
      using kept_okD(1) [OF parts(4) _ that] assms(3) that by (auto simp: no_unary_call_def)
    show "conns_ok (w\<lparr>w_eng := w_eng w, w_ctxs := ?cs\<rparr>)"
      by (rule conns_ok_reset [OF parts(5)]) (use conns_okD(1) [OF parts(5)] in auto)
  qed
  then show ?thesis by simp
qed

lemma close_ok:
  assumes inv: "winv w" and c: "w_ctxs w ctx = Some c" and gc: "r = NULL \<Longrightarrow> no_unary_call w ctx"
  obtains "r \<noteq> NULL" "ngx_grpc_cli_close N ctx r w = Some (engine_closed ctx c w)"
      "winv (engine_closed ctx c w)"
  | w' where "r = NULL" "w_queues w (CtxOpening ctx) \<noteq> []" "ngx_grpc_cli_close N ctx r w = Some w'"
      "w' = (engine_closed ctx c w)\<lparr>w_ctxs := (w_ctxs w)(ctx \<mapsto> \<lparr>engine_ctx = NULL, free_delayed = True\<rparr>)\<rparr>"
      "winv w'"
  | w' where "r = NULL" "w_queues w (CtxOpening ctx) = []" "ngx_grpc_cli_close N ctx r w = Some w'"
      "w' = (freed ctx (engine_closed ctx c w))\<lparr>w_ctxs := (w_ctxs w)(ctx := None)\<rparr>" "winv w'"
proof -
  let ?w = "engine_closed ctx c w"
  have w: "winv ?w" using inv c by (rule winv_engine_closed)
  have ctx: "w_ctxs ?w ctx = Some (c\<lparr>engine_ctx := NULL\<rparr>)"
    using c by (simp add: engine_closed_ctx)
  note eq = close_eq [OF c, of r]
  show thesis
  proof (cases "r \<noteq> NULL")
    case True
    then show ?thesis using that(1) w eq by simp
  next
    case False
    then have un: "no_unary_call ?w ctx" using gc by simp
    show ?thesis
    proof (cases "w_queues w (CtxOpening ctx) = []")
      case True
      have op: "w_queues ?w (CtxOpening ctx) = []" using True by simp
      have cs: "(w_ctxs ?w)(ctx := None) = (w_ctxs w)(ctx := None)" using c by (simp add: engine_closed_ctx)
      show ?thesis
        using that(3) free_conn_ok [OF w op un ctx] False True eq by (simp add: cs)
    next
      case opened: False
      have cs: "(w_ctxs ?w)(ctx \<mapsto> x) = (w_ctxs w)(ctx \<mapsto> x)" for x using c by (simp add: engine_closed_ctx)
      show ?thesis
        using that(2) winv_delay_free [OF w ctx un] opened False eq by (simp add: cs)
    qed
  qed
qed

subsection \<open>Closing a stream\<close>

lemma winv_close_stream_engine:
  "winv w \<Longrightarrow> winv (w\<lparr>w_eng := grpc_engine_close_stream k (w_eng w)\<rparr>)"
  by (erule winv_eng) (simp add: grpc_engine_close_stream_def split: option.split)

text \<open>A stream context moved to the free queue of its connection.\<close>

lemma winv_retire:
  assumes inv: "winv w" and k: "w_sctxs w k = Some s" "sctx_node s = NULL"
    and mem: "SctxQueue k \<in> set (w_queues w (CtxOpening p))"
  defines "q \<equiv> (w_queues w)(CtxOpening p := remove1 (SctxQueue k) (w_queues w (CtxOpening p)))"
  defines "q' \<equiv> q(CtxFree p := SctxQueue k # q (CtxFree p))"
  shows "queue_insert_head N (CtxFree p) (SctxQueue k) (queue_remove N (SctxQueue k) (w_queues w)) = q'"
    and "winv (w\<lparr>w_queues := q', w_sctxs := (w_sctxs w)(k \<mapsto> s\<lparr>sctx_r := NULL\<rparr>)\<rparr>)"
proof -
  note wf = queues_okD(1) [OF winv_butD(3) [OF inv]]
  have q: "queue_remove N (SctxQueue k) (w_queues w) = q"
    using queue_remove [OF queues_wf_only [OF wf mem]] by (simp add: q_def)
  have nl: "\<not> linked (SctxQueue k) q" using not_linked_removed [OF wf mem] by (simp add: q_def)
  show "queue_insert_head N (CtxFree p) (SctxQueue k) (queue_remove N (SctxQueue k) (w_queues w)) = q'"
    using nl by (simp add: q q'_def queue_insert_head)
  have "k \<in> dom (w_sctxs w)" using k(1) by blast
  then have "k \<noteq> NULL" using queues_okD(6) [OF winv_butD(3) [OF inv]] by blast
  let ?w1 = "w\<lparr>w_queues := q\<rparr>"
  let ?w2 = "?w1\<lparr>w_sctxs := (w_sctxs ?w1)(k \<mapsto> s\<lparr>sctx_r := NULL\<rparr>)\<rparr>"
  have "winv ?w1" unfolding q_def using inv k by (rule winv_unlink)
  then have "winv ?w2" by (rule winv_upd_unlinked) (use nl k \<open>k \<noteq> NULL\<close> in simp_all)
  then have "winv (?w2\<lparr>w_queues := (w_queues ?w2)(CtxFree p := SctxQueue k # w_queues ?w2 (CtxFree p))\<rparr>)"
    by (rule winv_link_free [where s = "s\<lparr>sctx_r := NULL\<rparr>"]) (use nl k in simp_all)
  moreover have "?w2\<lparr>w_queues := (w_queues ?w2)(CtxFree p := SctxQueue k # w_queues ?w2 (CtxFree p))\<rparr> =
      w\<lparr>w_queues := q', w_sctxs := (w_sctxs w)(k \<mapsto> s\<lparr>sctx_r := NULL\<rparr>)\<rparr>"
    by (rule worker.equality) (simp_all add: q'_def)
  ultimately show "winv (w\<lparr>w_queues := q', w_sctxs := (w_sctxs w)(k \<mapsto> s\<lparr>sctx_r := NULL\<rparr>)\<rparr>)" by simp
qed

lemma delayed_no_unary:
  assumes "winv w" "w_ctxs w ctx = Some c" "free_delayed c"
  shows "no_unary_call w ctx"
  using kept_okD(1) [OF winv_butD(4) [OF assms(1)]] assms(2,3) by (force simp: no_unary_call_def)

lemma remove1_Nil_iff: "distinct xs \<Longrightarrow> x \<in> set xs \<Longrightarrow> remove1 x xs = [] \<longleftrightarrow> xs = [x]"
  by (cases xs) (auto split: if_splits)

lemma close_stream_gc_ok:
  assumes inv: "winv w" and st: "open_stream w k" and s: "w_sctxs w k = Some s" "sctx_node s = NULL"
  defines "p \<equiv> sctx_parent s"
  obtains c w' where "w_ctxs w p = Some c" "ngx_grpc_cli_close_stream N k NULL w = Some w'" "winv w'"
    "thread_same w w'" "StreamRef (w_eng w') k = None"
    "if free_delayed c \<and> w_queues w (CtxOpening p) = [SctxQueue k]
     then w_ctxs w' = (w_ctxs w)(p := None) \<and> k \<notin> dom (w_sctxs w')
     else w_ctxs w' = w_ctxs w \<and> hd (w_queues w' (CtxFree p)) = SctxQueue k \<and>
          w_sctxs w' = (w_sctxs w)(k \<mapsto> s\<lparr>sctx_r := NULL\<rparr>)"
proof -
  let ?w0 = "w\<lparr>w_eng := grpc_engine_close_stream k (w_eng w)\<rparr>"
  have w0: "winv ?w0" using inv by (rule winv_close_stream_engine)
  have mem: "SctxQueue k \<in> set (w_queues ?w0 (CtxOpening p))"
    using st s(1) by (simp add: open_stream_def p_def)
  then obtain c where c: "w_ctxs w p = Some c"
    using queues_okD(3) [OF winv_butD(3) [OF inv], of "SctxQueue k" p] by auto
  define q where "q = (w_queues w)(CtxOpening p := remove1 (SctxQueue k) (w_queues w (CtxOpening p)))"
  define w1 where "w1 = ?w0\<lparr>w_queues := q(CtxFree p := SctxQueue k # q (CtxFree p)),
      w_sctxs := (w_sctxs w)(k \<mapsto> s\<lparr>sctx_r := NULL\<rparr>)\<rparr>"
  have w1: "winv w1" and ins: "queue_insert_head N (CtxFree p) (SctxQueue k)
      (queue_remove N (SctxQueue k) (w_queues w)) = q(CtxFree p := SctxQueue k # q (CtxFree p))"
    using winv_retire [OF w0 _ s(2) mem] s(1) by (simp_all add: w1_def q_def)
  have run: "ngx_grpc_cli_close_stream N k NULL w =
      (if free_delayed c \<and> w_queues w1 (CtxOpening p) = [] then ngx_grpc_cli_free_conn N p w1 else Some w1)"
    using s(1) c ins
    by (simp add: ngx_grpc_cli_close_stream_def Let_def upd_queues_def queue_empty w1_def p_def [symmetric])
  have empty: "w_queues w1 (CtxOpening p) = [] \<longleftrightarrow> w_queues w (CtxOpening p) = [SctxQueue k]"
    using mem queues_wfD(1) [OF queues_okD(1) [OF winv_butD(3) [OF inv]], of "CtxOpening p"]
    by (simp add: w1_def q_def remove1_Nil_iff)
  have same: "thread_same w w1" by (simp add: w1_def q_def thread_same_def)
  have ref: "StreamRef (w_eng w1) k = None"
    by (simp add: w1_def grpc_engine_close_stream_def split: option.split)
  have cs: "w_ctxs w1 = w_ctxs w" by (simp add: w1_def)
  show thesis
  proof (cases "free_delayed c \<and> w_queues w1 (CtxOpening p) = []")
    case True
    then have "no_unary_call w1 p" using delayed_no_unary [OF w1, of p c] c cs by simp
    from free_conn_ok [OF w1 _ this, of c] True c cs run same ref empty show ?thesis
      by (intro that [of c "(freed p w1)\<lparr>w_ctxs := (w_ctxs w1)(p := None)\<rparr>"])
        (simp_all add: freed_def thread_same_def w1_def domIff)
  next
    case False
    with w1 run same ref cs c empty show ?thesis
      by (intro that [of c w1]) (auto simp: w1_def)
  qed
qed

end

end
