(* ===== verification/Client_Calls.thy ===== *)
theory Client_Calls
  imports Cli_Close_Inv
begin

text \<open>
  What Lua code and the engine may do to the worker while no event handler of the module
  runs, as an inductive relation: one rule for each function of the module the Lua library
  calls, with the conditions under which it calls it, one for the abort of a waiting
  coroutine, one for the changes the Lua modules make to requests and coroutines, and two
  for the engine's goroutines and timers.  The last argument is the outcome, \<open>None\<close> when
  the call faults.  A call that returns keeps the invariant, and the only call that faults is an
  operation on a stream the engine does not know.
\<close>

subsection \<open>The relation\<close>

text \<open>The Lua library holds a connection until its finaliser has run.\<close>

definition held_conn :: "worker \<Rightarrow> addr \<Rightarrow> bool" where
  "held_conn w ctx \<longleftrightarrow> (case w_ctxs w ctx of None \<Rightarrow> False | Some c \<Rightarrow> \<not> free_delayed c)"

text \<open>
  The Lua modules create, run and destroy coroutines and requests.  A coroutine that sleeps
  for this module is left alone, and a request with such a coroutine is not destroyed
  (its pending operations are cleaned up first, which is the rule \<open>abort_http\<close>).
\<close>

definition lua_change :: "worker \<Rightarrow> worker \<Rightarrow> bool" where
  "lua_change w w' \<longleftrightarrow>
     w' = w\<lparr>w_cos := w_cos w', w_http := w_http w', w_stream := w_stream w'\<rparr> \<and>
     NULL \<notin> dom (w_cos w') \<and>
     (\<forall>p c. w_cos w p = Some c \<and> armed c \<longrightarrow> w_cos w' p = Some c) \<and>
     (\<forall>p c. w_cos w' p = Some c \<and> armed c \<longrightarrow> w_cos w p = Some c) \<and>
     (\<forall>k s. w_sctxs w k = Some s \<and> sctx_node s \<noteq> NULL \<longrightarrow>
        request_ctx w' (sctx_is_http s) (sctx_r s) \<noteq> None)"

text \<open>After a cleanup handler the Lua module forgets it.\<close>

definition aborted :: "addr \<Rightarrow> worker option \<Rightarrow> worker option" where
  "aborted p x = Option.bind x (upd_co p (\<lambda>c. c\<lparr>co_cleanup := NoCleanup\<rparr>))"

text \<open>
  The label names the stream of an operation on a stream.  Nothing in the library checks that the
  engine knows that stream, so the rules do not ask for it.
\<close>

datatype call_op = StreamOp addr | OtherCall

inductive client_call :: "ngx_api \<Rightarrow> call_op \<Rightarrow> worker \<Rightarrow> worker option \<Rightarrow> bool" for N :: ngx_api where
  connect:
    "env_ok E w \<Longrightarrow> client_call N OtherCall w (Some (snd (ngx_grpc_cli_connect N G E target dial_opt w)))"
| close:
    "held_conn w ctx \<Longrightarrow> r = NULL \<longrightarrow> no_unary_call w ctx \<Longrightarrow>
     client_call N OtherCall w (ngx_grpc_cli_close N ctx r w)"
| new_stream:
    "held_conn w ctx \<Longrightarrow> env_ok E w \<Longrightarrow> can_wait w is_http r \<Longrightarrow> call_opt_ok opt \<Longrightarrow>
     client_call N OtherCall w (map_option snd (ngx_grpc_cli_new_stream N E el r is_http ctx meth req opt ty w))"
| call:
    "held_conn w ctx \<Longrightarrow> env_ok E w \<Longrightarrow> can_wait w is_http r \<Longrightarrow> call_opt_ok opt \<Longrightarrow>
     client_call N OtherCall w (map_option snd (ngx_grpc_cli_call N E el r is_http ctx meth req opt w))"
| stream_recv:
    "open_stream w k \<Longrightarrow> env_ok E w \<Longrightarrow>
     w_sctxs w k = Some s \<Longrightarrow> can_wait w (sctx_is_http s) r \<Longrightarrow>
     client_call N (StreamOp k) w (map_option snd (ngx_grpc_cli_stream_recv N E el r k opt w))"
| stream_send:
    "open_stream w k \<Longrightarrow> env_ok E w \<Longrightarrow>
     w_sctxs w k = Some s \<Longrightarrow> can_wait w (sctx_is_http s) r \<Longrightarrow>
     client_call N (StreamOp k) w (map_option snd (ngx_grpc_cli_stream_send N E el r k opt req w))"
| stream_close_send:
    "open_stream w k \<Longrightarrow> env_ok E w \<Longrightarrow>
     w_sctxs w k = Some s \<Longrightarrow> can_wait w (sctx_is_http s) r \<Longrightarrow>
     client_call N (StreamOp k) w (map_option snd (ngx_grpc_cli_stream_close_send N E el r k opt w))"
| close_stream:
    "open_stream w k \<Longrightarrow> r = NULL \<longrightarrow> k \<notin> kept w \<Longrightarrow>
     client_call N OtherCall w (ngx_grpc_cli_close_stream N k r w)"
| abort_http:
    "w_cos w p = Some c \<Longrightarrow> co_cleanup c = HttpCleanup \<Longrightarrow>
     client_call N OtherCall w (aborted p (ngx_http_grpc_cli_cleanup N p w))"
| abort_stream:
    "w_cos w p = Some c \<Longrightarrow> co_cleanup c = StreamCleanup \<Longrightarrow>
     client_call N OtherCall w (aborted p (ngx_stream_grpc_cli_cleanup N p w))"
| lua:
    "lua_change w w' \<Longrightarrow> client_call N OtherCall w (Some w')"
| goroutine:
    "run_goroutine G i (w_eng w) = Some g \<Longrightarrow> client_call N OtherCall w (Some (w\<lparr>w_eng := g\<rparr>))"
| engine_timer:
    "client_call N OtherCall w (Some (w\<lparr>w_eng := (w_eng w)
       \<lparr>finishedTaskQueue := taskQueue_timer (finishedTaskQueue (w_eng w))\<rparr>\<rparr>))"

definition lua_runs :: "ngx_api \<Rightarrow> worker \<Rightarrow> worker \<Rightarrow> bool" where
  "lua_runs N = (\<lambda>w w'. \<exists>e. client_call N e w (Some w'))\<^sup>*\<^sup>*"

subsection \<open>Ending a wait\<close>

text \<open>
  The one lemma behind results, timeouts and aborts: when the task of \<open>k\<close> has left the
  table and its coroutine is no longer armed, the rest of the invariant holds.
\<close>

lemma winv_release:
  assumes inv: "winv w" and k: "w_sctxs w k = Some s" "sctx_node s \<noteq> NULL"
    and tasks: "tasks_ok w'"
    and s': "w_sctxs w' = (w_sctxs w)(k \<mapsto> s')" "sctx_node s' = NULL" "sctx_type s' = sctx_type s"
      "sctx_parent s' = sctx_parent s"
    and co: "w_cos w' = (w_cos w)(sctx_wait_co_ctx s \<mapsto> c')" "\<not> armed c'"
    and req: "\<And>h r. request_ctx w h r \<noteq> None \<Longrightarrow> request_ctx w' h r \<noteq> None"
    and same: "w_queues w' = w_queues w" "w_ctxs w' = w_ctxs w" "w_pctxs w' = w_pctxs w"
      "EngineCtxRef (w_eng w') = EngineCtxRef (w_eng w)"
  shows "winv w'"
proof (rule winv_butI)
  note parts = winv_butD [OF inv]
  obtain c where c: "w_cos w (sctx_wait_co_ctx s) = Some c" "armed_for k (sctx_is_http s) c"
    using waits_okD(4) [OF parts(2) k] by blast
  show "tasks_ok w'" by (fact tasks)
  show "waits_ok w'"
  proof (rule waits_okI)
    show "NULL \<notin> dom (w_cos w')" using waits_okD(1) [OF parts(2)] c(1) by (auto simp: co(1))
  next
    fix j t assume "w_sctxs w' j = Some t" "sctx_node t \<noteq> NULL"
    then have j: "w_sctxs w j = Some t" "sctx_node t \<noteq> NULL" "j \<noteq> k"
      using s'(1,2) by (auto split: if_splits)
    obtain d where d: "w_cos w (sctx_wait_co_ctx t) = Some d" "armed_for j (sctx_is_http t) d"
      using waits_okD(4) [OF parts(2) j(1,2)] by blast
    then have "sctx_wait_co_ctx t \<noteq> sctx_wait_co_ctx s" using c j(3) by (auto simp: armed_for_def)
    with d waits_okD(2,3) [OF parts(2) j(1,2)] req
    show "sctx_state t = NGX_GRPC_CLIENT_STATE_OK \<and>
        request_ctx w' (sctx_is_http t) (sctx_r t) \<noteq> None \<and>
        (\<exists>c. w_cos w' (sctx_wait_co_ctx t) = Some c \<and> armed_for j (sctx_is_http t) c)"
      by (simp add: co(1))
  next
    fix q d assume "w_cos w' q = Some d" "armed d"
    then have q: "w_cos w q = Some d" "armed d" "q \<noteq> sctx_wait_co_ctx s"
      using co by (auto split: if_splits)
    then obtain t where "w_sctxs w (co_data d) = Some t" "sctx_node t \<noteq> NULL" "sctx_wait_co_ctx t = q"
      using waits_okD(5) [OF parts(2)] by blast
    then show "\<exists>t. w_sctxs w' (co_data d) = Some t \<and> sctx_node t \<noteq> NULL \<and> sctx_wait_co_ctx t = q"
      using q(3) k(1) by (auto simp: s'(1))
  qed
  show "queues_ok w'"
    by (rule queues_ok_same_kind [OF parts(3) k(1) s'(3,4) _ same(1) s'(1) same(2,3)]) (rule s'(2))
  show "kept_ok {} w'"
  proof (rule kept_okI, goal_cases)
    case (1 j t)
    then have "w_sctxs w j = Some t" using s'(1,2) by (auto split: if_splits)
    then show ?case using kept_okD [OF parts(4) 1(1) _ 1(3)] same(1,2) by simp
  qed
  show "conns_ok w'" using parts(5) same(2) by (rule conns_ok_frame) (simp add: same(4))
qed

subsection \<open>Every call keeps the invariant\<close>

lemma lua_change_ok:
  assumes "winv w" "lua_change w w'"
  shows "winv w'" "thread_same w w'"
proof -
  note parts = winv_butD [OF assms(1)]
  have eq: "w' = w\<lparr>w_cos := w_cos w', w_http := w_http w', w_stream := w_stream w'\<rparr>"
    and keep: "\<And>p c. w_cos w p = Some c \<Longrightarrow> armed c \<Longrightarrow> w_cos w' p = Some c"
    and new: "\<And>p c. w_cos w' p = Some c \<Longrightarrow> armed c \<Longrightarrow> w_cos w p = Some c"
    and req: "\<And>k s. w_sctxs w k = Some s \<Longrightarrow> sctx_node s \<noteq> NULL \<Longrightarrow>
        request_ctx w' (sctx_is_http s) (sctx_r s) \<noteq> None"
    and null: "NULL \<notin> dom (w_cos w')"
    using assms(2) unfolding lua_change_def by blast+
  have sel: "w_tree w' = w_tree w" "w_num w' = w_num w" "w_sctxs w' = w_sctxs w"
    "w_queues w' = w_queues w" "w_ctxs w' = w_ctxs w" "w_pctxs w' = w_pctxs w" "w_eng w' = w_eng w"
    by (subst eq, simp)+
  have "waits_ok w'"
  proof (rule waits_okI)
    fix k s assume "w_sctxs w' k = Some s" "sctx_node s \<noteq> NULL"
    then have k: "w_sctxs w k = Some s" "sctx_node s \<noteq> NULL" by (simp_all add: sel)
    show "sctx_state s = NGX_GRPC_CLIENT_STATE_OK \<and>
        request_ctx w' (sctx_is_http s) (sctx_r s) \<noteq> None \<and>
        (\<exists>c. w_cos w' (sctx_wait_co_ctx s) = Some c \<and> armed_for k (sctx_is_http s) c)"
      using waits_okD(2,4) [OF parts(2) k] req [OF k] keep armed_for_armed by blast
  next
    fix p c assume "w_cos w' p = Some c" "armed c"
    then show "\<exists>s. w_sctxs w' (co_data c) = Some s \<and> sctx_node s \<noteq> NULL \<and> sctx_wait_co_ctx s = p"
      using waits_okD(5) [OF parts(2)] new by (simp add: sel)
  qed (fact null)
  then show "winv w'"
    using tasks_ok_frame [OF parts(1) sel(1-3)] queues_ok_frame [OF parts(3) sel(4,3,5,6)]
      kept_ok_frame [OF parts(4) sel(4,3,5)] conns_ok_frame [OF parts(5) sel(5)] sel(7)
    by (simp add: winv_but_def)
  show "thread_same w w'" by (subst eq) simp
qed

text \<open>What a call may come to: it returns and keeps the invariant, or the engine does not know the stream.\<close>

definition call_ends :: "call_op \<Rightarrow> worker \<Rightarrow> worker option \<Rightarrow> bool" where
  "call_ends e w x \<longleftrightarrow>
     (case x of
        Some w' \<Rightarrow> winv w' \<and> thread_same w w'
      | None \<Rightarrow> (case e of StreamOp k \<Rightarrow> StreamRef (w_eng w) k = None | OtherCall \<Rightarrow> False))"

lemma call_ends_Some [simp]: "call_ends e w (Some w') \<longleftrightarrow> winv w' \<and> thread_same w w'"
  by (simp add: call_ends_def)

context ngx_laws
begin

text \<open>Both cleanup handlers, with what the Lua module does after them.\<close>

lemma cleanup_ok:
  assumes inv: "winv w" and c: "w_cos w p = Some c" and "co_cleanup c = HttpCleanup \<or> co_cleanup c = StreamCleanup"
    and x: "x = ngx_http_grpc_cli_cleanup N p w \<or> x = ngx_stream_grpc_cli_cleanup N p w"
  obtains w' where "aborted p x = Some w'" "winv w'" "thread_same w w'" "co_data c \<in> kept w"
    "kept w' = kept w - {co_data c}" "w_eng w' = w_eng w" "w_queues w' = w_queues w" "w_ctxs w' = w_ctxs w"
    "w_lua w' = w_lua w"
    "w_cos w' = (w_cos w)(p \<mapsto> c\<lparr>co_sleep := (co_sleep c)\<lparr>ev_timer_set := False\<rparr>, co_cleanup := NoCleanup\<rparr>)"
    "\<And>s. w_sctxs w (co_data c) = Some s \<Longrightarrow> w_sctxs w' = (w_sctxs w)(co_data c \<mapsto> s\<lparr>sctx_node := NULL\<rparr>)"
    "w' = w\<lparr>w_tree := w_tree w', w_num := w_num w', w_sctxs := w_sctxs w', w_cos := w_cos w'\<rparr>"
proof -
  note parts = winv_butD [OF inv]
  let ?k = "co_data c"
  obtain s where s: "w_sctxs w ?k = Some s" "sctx_node s \<noteq> NULL" "sctx_wait_co_ctx s = p"
    using waits_okD(5) [OF parts(2) c] assms(3) by (auto simp: armed_def)
  obtain d where "w_cos w p = Some d" "armed_for ?k (sctx_is_http s) d"
    using waits_okD(4) [OF parts(2) s(1,2)] s(3) by blast
  then have timer: "ev_timer_set (co_sleep c)" using c by (simp add: armed_for_def)
  let ?c1 = "c\<lparr>co_sleep := (co_sleep c)\<lparr>ev_timer_set := False\<rparr>\<rparr>"
  let ?w1 = "w\<lparr>w_cos := (w_cos w)(p \<mapsto> ?c1)\<rparr>"
  have t1: "tasks_ok ?w1" using parts(1) by (rule tasks_ok_frame) simp_all
  obtain w2 where w2: "ngx_grpc_cli_unkeep_task N ?k ?w1 = Some w2" "tasks_ok w2"
    "same_but_tasks ?w1 w2" "w_sctxs w2 = (w_sctxs w)(?k \<mapsto> s\<lparr>sctx_node := NULL\<rparr>)"
    using unkeep_task_ok [OF t1, of ?k s] s(1) by auto
  have eq2: "w2 = ?w1\<lparr>w_tree := w_tree w2, w_num := w_num w2, w_sctxs := w_sctxs w2\<rparr>"
    using w2(3) by (rule same_but_tasksD)
  let ?w' = "w2\<lparr>w_cos := (w_cos w)(p \<mapsto> ?c1\<lparr>co_cleanup := NoCleanup\<rparr>)\<rparr>"
  have sel: "w_cos w2 = (w_cos w)(p \<mapsto> ?c1)" "w_queues w2 = w_queues w" "w_ctxs w2 = w_ctxs w"
    "w_pctxs w2 = w_pctxs w" "w_eng w2 = w_eng w" "w_http w2 = w_http w" "w_stream w2 = w_stream w"
    "w_lua w2 = w_lua w"
    by (subst eq2, simp)+
  have "aborted p x = Some ?w'"
    using x c timer w2(1)
    by (auto simp: aborted_def ngx_http_grpc_cli_cleanup_def ngx_stream_grpc_cli_cleanup_def del_timer sel)
  moreover have "winv ?w'"
  proof (rule winv_release [OF inv s(1,2)])
    show "tasks_ok ?w'" using w2(2) by (rule tasks_ok_frame) simp_all
    show "w_sctxs ?w' = (w_sctxs w)(?k \<mapsto> s\<lparr>sctx_node := NULL\<rparr>)" using w2(4) by simp
    show "w_cos ?w' = (w_cos w)(sctx_wait_co_ctx s \<mapsto> ?c1\<lparr>co_cleanup := NoCleanup\<rparr>)" using s(3) by simp
  qed (auto simp: sel armed_def request_ctx_def split: if_splits)
  moreover have "thread_same w ?w'" by (subst eq2) simp
  moreover have "?w' = w\<lparr>w_tree := w_tree ?w', w_num := w_num ?w', w_sctxs := w_sctxs ?w', w_cos := w_cos ?w'\<rparr>"
    by (subst eq2) simp
  moreover have "kept ?w' = kept w - {?k}" using w2(4) by (auto simp: kept_def)
  moreover have "?k \<in> kept w" using s by (auto simp: kept_def)
  ultimately show thesis using that sel s(1) w2(4) by simp
qed

lemma held_connD: "held_conn w ctx \<Longrightarrow> \<exists>c. w_ctxs w ctx = Some c \<and> \<not> free_delayed c"
  by (auto simp: held_conn_def split: option.splits)

lemma stream_op_ends:
  assumes "winv w" "open_stream w k" "env_ok E w" "w_sctxs w k = Some s" "can_wait w (sctx_is_http s) r"
    "run = ngx_grpc_cli_stream_recv N E el r k opt w \<or> run = ngx_grpc_cli_stream_send N E el r k opt req w \<or>
     run = ngx_grpc_cli_stream_close_send N E el r k opt w"
  shows "call_ends (StreamOp k) w (map_option snd run)"
proof (cases "StreamRef (w_eng w) k")
  case None
  show ?thesis
    by (rule stream_ops_unknown [OF assms(1,3,2,4,5) None assms(6)]) (simp_all add: call_ends_def None)
next
  case (Some i)
  show ?thesis by (rule stream_ops_ok [OF assms(1,3,2,4,5) Some assms(6)]) simp_all
qed

theorem client_call_ends:
  assumes "client_call N e w x" and inv: "winv w"
  shows "call_ends e w x"
  using assms(1)
proof cases
  case (connect E G target dial_opt)
  show ?thesis
    by (rule connect_ok [OF inv connect(3), of G target dial_opt]) (simp_all add: connect(2))
next
  case (close ctx r)
  obtain c where "w_ctxs w ctx = Some c" using held_connD [OF close(3)] by blast
  from inv this show ?thesis
    by (rule close_ok [where r = r]) (use close in simp_all)
next
  case (new_stream ctx E is_http r opt el meth req ty)
  obtain c where "w_ctxs w ctx = Some c" "\<not> free_delayed c" using held_connD [OF new_stream(3)] by blast
  then show ?thesis
    by (rule new_stream_ok [OF inv new_stream(4) _ new_stream(5,6), of ctx c el meth req ty])
      (simp_all add: new_stream(2))
next
  case (call ctx E is_http r opt el meth req)
  obtain c where c: "w_ctxs w ctx = Some c" "\<not> free_delayed c" using held_connD [OF call(3)] by blast
  show ?thesis
    by (rule new_stream_ok [OF inv call(4) c(1) call(5,6) c(2), of el meth req STREAM_TYPE_UNARY])
      (simp_all add: call(2) ngx_grpc_cli_call_def)
next
  case (stream_recv k E s r el opt)
  then show ?thesis using stream_op_ends [OF inv stream_recv(3-6)] by blast
next
  case (stream_send k E s r el opt req)
  then show ?thesis using stream_op_ends [OF inv stream_send(3-6)] by blast
next
  case (stream_close_send k E s r el opt)
  then show ?thesis using stream_op_ends [OF inv stream_close_send(3-6)] by blast
next
  case (close_stream k r)
  obtain s where s: "w_sctxs w k = Some s" using close_stream(3) by (auto simp: open_stream_def split: option.splits)
  show ?thesis
  proof (cases "r = NULL")
    case True
    then have "sctx_node s = NULL" using close_stream(4) s by (auto simp: kept_def)
    from close_stream_gc_ok [OF inv close_stream(3) s this] show ?thesis
      using close_stream(2) True call_ends_Some by metis
  next
    case False
    then show ?thesis
      using close_stream(2) winv_close_stream_engine [OF inv, of k]
      by (simp add: ngx_grpc_cli_close_stream_def Let_def)
  qed
next
  case (abort_http p c)
  then show ?thesis
    using cleanup_ok [OF inv abort_http(3), of "ngx_http_grpc_cli_cleanup N p w"] by (metis call_ends_Some)
next
  case (abort_stream p c)
  then show ?thesis
    using cleanup_ok [OF inv abort_stream(3), of "ngx_stream_grpc_cli_cleanup N p w"] by (metis call_ends_Some)
next
  case (lua w')
  then show ?thesis using lua_change_ok [OF inv] by simp
next
  case (goroutine G i g)
  then show ?thesis using winv_eng [OF inv goroutine_EngineCtxRef] by simp
next
  case engine_timer
  then show ?thesis using winv_eng [OF inv] by simp
qed

lemma client_call_ok:
  "client_call N e w (Some w') \<Longrightarrow> winv w \<Longrightarrow> winv w' \<and> thread_same w w'"
  using client_call_ends by fastforce

lemma lua_runs_ok:
  assumes "lua_runs N w w'" "winv w"
  shows "winv w' \<and> thread_same w w'"
  using assms unfolding lua_runs_def
proof (induction rule: rtranclp_induct)
  case base
  then show ?case by simp
next
  case (step y z)
  then show ?case using client_call_ok thread_same_trans by blast
qed

end

end
