(* ===== verification/Lua_Resume.thy ===== *)
theory Lua_Resume
  imports Client_Calls
begin

text \<open>
  The contract with the Lua modules (locale \<open>lua_laws\<close>): the functions that continue a
  request only act on the worker through calls of \<open>client_call\<close> that return, and running the
  phases of a request calls its resume handler.  Under this contract resuming a stream
  context is the delivery of its result (\<open>deliver\<close>) followed by a run of Lua code.
\<close>

subsection \<open>Contract\<close>

text \<open>
  \<open>R\<close> relates the worker before and after a run of Lua code.  The contract asks for \<open>lua_runs\<close>;
  for a module that runs no code at all it is equality.
\<close>

locale resume_laws =
  fixes L :: lua_api and R :: "worker \<Rightarrow> worker \<Rightarrow> bool"
  assumes runs_refl: "R w w" and runs_trans: "R a b \<Longrightarrow> R b c \<Longrightarrow> R a c"
    and http_run_thread: "R w (snd (http_lua_run_thread L r w))"
    and http_run_thread_ctx:
      "fst (http_lua_run_thread L r w) \<notin> {NGX_AGAIN, NGX_DONE} \<Longrightarrow>
       w_http (snd (http_lua_run_thread L r w)) r \<noteq> None"
    and http_run_posted_threads: "R w (snd (http_lua_run_posted_threads L r w))"
    and http_finalize_request: "R w (http_lua_finalize_request L r rc w)"
    and http_run_phases:
      "\<exists>rest. (\<forall>rc w. R w (rest rc w)) \<and>
         http_core_run_phases L r f w = map_option (\<lambda>(rc, w). rest rc w) (f w)"
    and http_posted_requests: "R w (http_run_posted_requests L r w)"
    and stream_run_thread: "R w (snd (stream_lua_run_thread L r w))"
    and stream_run_thread_ctx:
      "fst (stream_lua_run_thread L r w) \<notin> {NGX_AGAIN, NGX_DONE} \<Longrightarrow>
       w_stream (snd (stream_lua_run_thread L r w)) r \<noteq> None"
    and stream_run_posted_threads: "R w (snd (stream_lua_run_posted_threads L r w))"
    and stream_finalize_request: "R w (stream_lua_finalize_request L r rc w)"
    and stream_run_phases:
      "\<exists>rest. (\<forall>rc w. R w (rest rc w)) \<and>
         stream_lua_core_run_phases L r f w = map_option (\<lambda>(rc, w). rest rc w) (f w)"

locale lua_laws = ngx_laws N + resume_laws L "lua_runs N" for N :: ngx_api and L :: lua_api

text \<open>A Lua module in which every coroutine yields again at once.\<close>

definition yielding_lua :: lua_api where
  "yielding_lua = \<lparr>
     http_lua_run_thread = (\<lambda>r w. (NGX_AGAIN, w)),
     http_lua_run_posted_threads = (\<lambda>r w. (NGX_OK, w)),
     http_lua_finalize_request = (\<lambda>r rc w. w),
     http_core_run_phases = (\<lambda>r f w. map_option (\<lambda>(rc, w). w) (f w)),
     http_run_posted_requests = (\<lambda>r w. w),
     stream_lua_run_thread = (\<lambda>r w. (NGX_AGAIN, w)),
     stream_lua_run_posted_threads = (\<lambda>r w. (NGX_OK, w)),
     stream_lua_finalize_request = (\<lambda>r rc w. w),
     stream_lua_core_run_phases = (\<lambda>r f w. map_option (\<lambda>(rc, w). w) (f w))\<rparr>"

text \<open>What resuming a stream context does before Lua code runs.\<close>

definition deliver :: "ngx_api \<Rightarrow> addr \<Rightarrow> worker \<Rightarrow> worker option" where
  "deliver N k w =
     do { w \<leftarrow> ngx_grpc_cli_unkeep_task N k w;
          s \<leftarrow> w_sctxs w k;
          let p = sctx_wait_co_ctx s;
          c \<leftarrow> w_cos w p;
          w \<leftarrow> (if sctx_is_http s
                then upd_http (sctx_r s) (\<lambda>l. l\<lparr>cur_co_ctx := p, lua_resume_handler := WevHandler\<rparr>) w
                else upd_stream (sctx_r s) (\<lambda>l. l\<lparr>cur_co_ctx := p, lua_resume_handler := WevHandler\<rparr>) w);
          w \<leftarrow> upd_sctx k (\<lambda>s. s\<lparr>sctx_wait_co_ctx := NULL, sctx_prev_data := co_data c\<rparr>) w;
          ngx_grpc_cli_put_res N k p w }"

subsection \<open>Runs of Lua code\<close>

lemma lua_runs_refl [simp]: "lua_runs N w w"
  by (simp add: lua_runs_def)

lemma lua_runs_trans [trans]: "lua_runs N a b \<Longrightarrow> lua_runs N b c \<Longrightarrow> lua_runs N a c"
  by (simp add: lua_runs_def)

context resume_laws
begin

lemma http_resume_ok:
  assumes "w_http w r = Some l" "w_cos w (cur_co_ctx l) = Some c" "co_data c = k" "w_sctxs w k = Some s"
    "ngx_grpc_cli_put_res N k (cur_co_ctx l)
       (w\<lparr>w_cos := (w_cos w)(cur_co_ctx l \<mapsto> c\<lparr>co_data := sctx_prev_data s\<rparr>),
         w_http := (w_http w)(r \<mapsto> l\<lparr>lua_resume_handler := WevHandler\<rparr>)\<rparr>) = Some w1"
  shows "\<exists>rc w2. ngx_http_grpc_cli_resume N L r w = Some (rc, w2) \<and> R w1 w2"
proof -
  obtain rc v where run: "http_lua_run_thread L r w1 = (rc, v)" by force
  then have v: "R w1 v" using http_run_thread [of w1 r] by simp
  note eq = ngx_http_grpc_cli_resume_def assms run
  show ?thesis
  proof (cases "rc = NGX_AGAIN \<or> rc = NGX_DONE")
    case True
    then show ?thesis
      using v runs_trans http_run_posted_threads http_finalize_request
      by (cases "rc = NGX_AGAIN") (simp_all add: eq, (metis prod.collapse)+)
  next
    case False
    then have "w_http v r \<noteq> None" using http_run_thread_ctx [of r w1] run by simp
    then show ?thesis
      using False v runs_trans [OF v http_finalize_request] by (auto simp: eq)
  qed
qed

lemma stream_resume_ok:
  assumes "w_stream w r = Some l" "w_cos w (cur_co_ctx l) = Some c" "co_data c = k" "w_sctxs w k = Some s"
    "ngx_grpc_cli_put_res N k (cur_co_ctx l)
       (w\<lparr>w_cos := (w_cos w)(cur_co_ctx l \<mapsto> c\<lparr>co_data := sctx_prev_data s\<rparr>),
         w_stream := (w_stream w)(r \<mapsto> l\<lparr>lua_resume_handler := WevHandler\<rparr>)\<rparr>) = Some w1"
  shows "\<exists>rc w2. ngx_stream_grpc_cli_resume N L r w = Some (rc, w2) \<and> R w1 w2"
proof -
  obtain rc v where run: "stream_lua_run_thread L r w1 = (rc, v)" by force
  then have v: "R w1 v" using stream_run_thread [of w1 r] by simp
  note eq = ngx_stream_grpc_cli_resume_def assms run
  show ?thesis
  proof (cases "rc = NGX_AGAIN \<or> rc = NGX_DONE")
    case True
    then show ?thesis
      using v runs_trans stream_run_posted_threads stream_finalize_request
      by (cases "rc = NGX_AGAIN") (simp_all add: eq, (metis prod.collapse)+)
  next
    case False
    then have "w_stream v r \<noteq> None" using stream_run_thread_ctx [of r w1] run by simp
    then show ?thesis
      using False v runs_trans [OF v stream_finalize_request] by (auto simp: eq)
  qed
qed

text \<open>The two branches of \<open>ngx_grpc_cli_to_resume\<close>.\<close>

lemma to_resume_http:
  assumes "ngx_grpc_cli_unkeep_task N k w = Some v" "w_sctxs v k = Some s" "sctx_is_http s"
    "w_http v (sctx_r s) = Some l" "w_cos v (sctx_wait_co_ctx s) = Some c"
    "ngx_grpc_cli_put_res N k (sctx_wait_co_ctx s)
       (v\<lparr>w_http := (w_http v)(sctx_r s \<mapsto> l\<lparr>cur_co_ctx := sctx_wait_co_ctx s, lua_resume_handler := WevHandler\<rparr>),
         w_sctxs := (w_sctxs v)(k \<mapsto> s\<lparr>sctx_wait_co_ctx := NULL, sctx_prev_data := co_data c\<rparr>)\<rparr>) = Some w1"
  shows "\<exists>w2. ngx_grpc_cli_to_resume N L k w = Some w2 \<and> R w1 w2"
proof -
  let ?r = "sctx_r s" and ?p = "sctx_wait_co_ctx s"
  let ?s = "s\<lparr>sctx_wait_co_ctx := NULL, sctx_prev_data := co_data c\<rparr>"
  define l1 where "l1 = l\<lparr>cur_co_ctx := ?p\<rparr>"
  define v1 where "v1 = v\<lparr>w_http := (w_http v)(?r \<mapsto> l1), w_sctxs := (w_sctxs v)(k \<mapsto> ?s),
                 w_cos := (w_cos v)(?p \<mapsto> c\<lparr>co_data := k\<rparr>)\<rparr>"
  define v2 where "v2 = v1\<lparr>w_http := (w_http v1)(?r \<mapsto> l1\<lparr>lua_resume_handler := GrpcResume\<rparr>)\<rparr>"
  have run: "ngx_grpc_cli_to_resume N L k w =
      (if entered_content_phase l then map_option snd (ngx_http_grpc_cli_resume N L ?r v1)
       else http_core_run_phases L ?r (ngx_http_grpc_cli_resume N L ?r) v2)
      \<bind> (\<lambda>w. Some (http_run_posted_requests L ?r w))"
    using assms(1-5) by (simp add: ngx_grpc_cli_to_resume_def Let_def attach_ctx_def v1_def v2_def l1_def)
  have ready: "x\<lparr>w_cos := (w_cos x)(?p \<mapsto> c\<lparr>co_data := k\<rparr>\<lparr>co_data := sctx_prev_data ?s\<rparr>),
       w_http := (w_http x)(?r \<mapsto> m\<lparr>lua_resume_handler := WevHandler\<rparr>)\<rparr> =
     v\<lparr>w_http := (w_http v)(?r \<mapsto> l\<lparr>cur_co_ctx := ?p, lua_resume_handler := WevHandler\<rparr>),
       w_sctxs := (w_sctxs v)(k \<mapsto> ?s)\<rparr>"
    if "(x, m) = (v1, l1) \<or> (x, m) = (v2, l1\<lparr>lua_resume_handler := GrpcResume\<rparr>)" for x m
    using that assms(5)
    by (elim disjE Pair_inject) (intro worker.equality; simp add: v1_def v2_def l1_def fun_upd_idem)+
  have resume: "\<exists>rc w2. ngx_http_grpc_cli_resume N L ?r x = Some (rc, w2) \<and> R w1 w2"
    if "(x, m) = (v1, l1) \<or> (x, m) = (v2, l1\<lparr>lua_resume_handler := GrpcResume\<rparr>)" for x m
  proof (rule http_resume_ok [of x ?r m "c\<lparr>co_data := k\<rparr>" k ?s N w1])
    have m: "cur_co_ctx m = ?p" using that by (auto simp: l1_def)
    show "ngx_grpc_cli_put_res N k (cur_co_ctx m)
       (x\<lparr>w_cos := (w_cos x)(cur_co_ctx m \<mapsto> c\<lparr>co_data := k, co_data := sctx_prev_data ?s\<rparr>),
          w_http := (w_http x)(?r \<mapsto> m\<lparr>lua_resume_handler := WevHandler\<rparr>)\<rparr>) = Some w1"
      unfolding m ready [OF that] by (fact assms(6))
  qed (use that in \<open>auto simp: v1_def v2_def l1_def\<close>)
  show ?thesis
  proof (cases "entered_content_phase l")
    case True
    obtain rc w2 where "ngx_http_grpc_cli_resume N L ?r v1 = Some (rc, w2)" "R w1 w2"
      using resume [of v1 l1] by blast
    with True show ?thesis using runs_trans [OF _ http_posted_requests] by (simp add: run)
  next
    case False
    obtain rest where rest: "\<And>rc w. R w (rest rc w)"
      "http_core_run_phases L ?r (ngx_http_grpc_cli_resume N L ?r) v2 =
       map_option (\<lambda>(rc, w). rest rc w) (ngx_http_grpc_cli_resume N L ?r v2)"
      using http_run_phases by blast
    obtain rc w2 where w2: "ngx_http_grpc_cli_resume N L ?r v2 = Some (rc, w2)" "R w1 w2"
      using resume [of v2] by blast
    have "R w1 (http_run_posted_requests L ?r (rest rc w2))"
      using runs_trans [OF runs_trans [OF w2(2) rest(1)] http_posted_requests] .
    with False w2(1) rest(2) show ?thesis by (simp add: run)
  qed
qed

lemma to_resume_stream:
  assumes "ngx_grpc_cli_unkeep_task N k w = Some v" "w_sctxs v k = Some s" "\<not> sctx_is_http s"
    "w_stream v (sctx_r s) = Some l" "w_cos v (sctx_wait_co_ctx s) = Some c"
    "ngx_grpc_cli_put_res N k (sctx_wait_co_ctx s)
       (v\<lparr>w_stream := (w_stream v)(sctx_r s \<mapsto> l\<lparr>cur_co_ctx := sctx_wait_co_ctx s, lua_resume_handler := WevHandler\<rparr>),
         w_sctxs := (w_sctxs v)(k \<mapsto> s\<lparr>sctx_wait_co_ctx := NULL, sctx_prev_data := co_data c\<rparr>)\<rparr>) = Some w1"
  shows "\<exists>w2. ngx_grpc_cli_to_resume N L k w = Some w2 \<and> R w1 w2"
proof -
  let ?r = "sctx_r s" and ?p = "sctx_wait_co_ctx s"
  let ?s = "s\<lparr>sctx_wait_co_ctx := NULL, sctx_prev_data := co_data c\<rparr>"
  define l1 where "l1 = l\<lparr>cur_co_ctx := ?p\<rparr>"
  define v1 where "v1 = v\<lparr>w_stream := (w_stream v)(?r \<mapsto> l1), w_sctxs := (w_sctxs v)(k \<mapsto> ?s),
                 w_cos := (w_cos v)(?p \<mapsto> c\<lparr>co_data := k\<rparr>)\<rparr>"
  define v2 where "v2 = v1\<lparr>w_stream := (w_stream v1)(?r \<mapsto> l1\<lparr>lua_resume_handler := GrpcResume\<rparr>)\<rparr>"
  have run: "ngx_grpc_cli_to_resume N L k w =
      (if entered_content_phase l then map_option snd (ngx_stream_grpc_cli_resume N L ?r v1)
       else stream_lua_core_run_phases L ?r (ngx_stream_grpc_cli_resume N L ?r) v2)"
    using assms(1-5) by (simp add: ngx_grpc_cli_to_resume_def Let_def attach_ctx_def v1_def v2_def l1_def)
  have ready: "x\<lparr>w_cos := (w_cos x)(?p \<mapsto> c\<lparr>co_data := k\<rparr>\<lparr>co_data := sctx_prev_data ?s\<rparr>),
       w_stream := (w_stream x)(?r \<mapsto> m\<lparr>lua_resume_handler := WevHandler\<rparr>)\<rparr> =
     v\<lparr>w_stream := (w_stream v)(?r \<mapsto> l\<lparr>cur_co_ctx := ?p, lua_resume_handler := WevHandler\<rparr>),
       w_sctxs := (w_sctxs v)(k \<mapsto> ?s)\<rparr>"
    if "(x, m) = (v1, l1) \<or> (x, m) = (v2, l1\<lparr>lua_resume_handler := GrpcResume\<rparr>)" for x m
    using that assms(5)
    by (elim disjE Pair_inject) (intro worker.equality; simp add: v1_def v2_def l1_def fun_upd_idem)+
  have resume: "\<exists>rc w2. ngx_stream_grpc_cli_resume N L ?r x = Some (rc, w2) \<and> R w1 w2"
    if "(x, m) = (v1, l1) \<or> (x, m) = (v2, l1\<lparr>lua_resume_handler := GrpcResume\<rparr>)" for x m
  proof (rule stream_resume_ok [of x ?r m "c\<lparr>co_data := k\<rparr>" k ?s N w1])
    have m: "cur_co_ctx m = ?p" using that by (auto simp: l1_def)
    show "ngx_grpc_cli_put_res N k (cur_co_ctx m)
       (x\<lparr>w_cos := (w_cos x)(cur_co_ctx m \<mapsto> c\<lparr>co_data := k, co_data := sctx_prev_data ?s\<rparr>),
          w_stream := (w_stream x)(?r \<mapsto> m\<lparr>lua_resume_handler := WevHandler\<rparr>)\<rparr>) = Some w1"
      unfolding m ready [OF that] by (fact assms(6))
  qed (use that in \<open>auto simp: v1_def v2_def l1_def\<close>)
  show ?thesis
  proof (cases "entered_content_phase l")
    case True
    obtain rc w2 where "ngx_stream_grpc_cli_resume N L ?r v1 = Some (rc, w2)" "R w1 w2"
      using resume [of v1 l1] by blast
    with True show ?thesis by (simp add: run)
  next
    case False
    obtain rest where rest: "\<And>rc w. R w (rest rc w)"
      "stream_lua_core_run_phases L ?r (ngx_stream_grpc_cli_resume N L ?r) v2 =
       map_option (\<lambda>(rc, w). rest rc w) (ngx_stream_grpc_cli_resume N L ?r v2)"
      using stream_run_phases by blast
    obtain rc w2 where w2: "ngx_stream_grpc_cli_resume N L ?r v2 = Some (rc, w2)" "R w1 w2"
      using resume [of v2] by blast
    then show ?thesis using False w2(1) rest(2) runs_trans [OF w2(2) rest(1)] by (simp add: run)
  qed
qed

text \<open>Resuming is delivering and then running Lua code.\<close>

lemma to_resume_deliver:
  assumes "deliver N k w = Some w1"
  shows "\<exists>w2. ngx_grpc_cli_to_resume N L k w = Some w2 \<and> R w1 w2"
proof -
  obtain v s c where v: "ngx_grpc_cli_unkeep_task N k w = Some v" "w_sctxs v k = Some s"
    "w_cos v (sctx_wait_co_ctx s) = Some c"
    using assms by (auto simp: deliver_def Let_def bind_eq_Some_conv)
  show ?thesis
  proof (cases "sctx_is_http s")
    case True
    with assms v show ?thesis
      by (auto simp: deliver_def Let_def bind_eq_Some_conv upd_eq_Some_iff intro!: to_resume_http)
  next
    case False
    with assms v show ?thesis
      by (auto simp: deliver_def Let_def bind_eq_Some_conv upd_eq_Some_iff intro!: to_resume_stream)
  qed
qed

end

text \<open>The module whose coroutines yield at once runs no code.\<close>

interpretation idle: resume_laws yielding_lua "(=)"
  by unfold_locales (auto simp: yielding_lua_def intro!: exI [of _ "\<lambda>_ w. w"])

lemma yielding_lua_laws_of:
  assumes "ngx_laws N"
  shows "lua_laws N yielding_lua"
  by (rule lua_laws.intro [OF assms], unfold_locales)
    (auto simp: yielding_lua_def intro!: exI [of _ "\<lambda>_ w. w"] intro: lua_runs_trans)

interpretation yielding: lua_laws list_api yielding_lua
  by (rule yielding_lua_laws_of [OF list_api_laws])

lemmas yielding_lua_laws = yielding.lua_laws_axioms

lemma to_resume_yielding:
  "deliver N k w = Some w1 \<Longrightarrow> ngx_grpc_cli_to_resume N yielding_lua k w = Some w1"
  using idle.to_resume_deliver by fastforce

end
