(* ===== verification/Event_Inv.thy ===== *)
theory Event_Inv
  imports Lua_Resume
begin

text \<open>
  The events that end a wait.  Results that cross from the engine are owned exactly once
  (\<open>results_ok\<close>): by the array of the thread, then by the \<^verbatim>\<open>occupied\<close> queue, until they are
  delivered or freed.  Each handler keeps the invariant, returns, and hands the coroutine
  the value of its own result.
\<close>

subsection \<open>Definitions\<close>

text \<open>The buffer of a result is a live block of at least the size the result claims.\<close>

definition res_ok :: "heap \<Rightarrow> ngx_grpc_cli_task_res \<Rightarrow> bool" where
  "res_ok h r \<longleftrightarrow>
     res_buf r \<noteq> NULL \<and>
     (if res_type (res_buf r) = NGX_GRPC_CLIENT_RES_TYPE_OK_NOT_RES then res_untag (res_buf r) = NULL
      else res_untag (res_buf r) \<noteq> NULL \<and>
           (case h (res_untag (res_buf r)) of None \<Rightarrow> False | Some b \<Rightarrow> unat (res_size r) \<le> length b))"

text \<open>What Lua gets for a result.\<close>

definition result_values :: "heap \<Rightarrow> ngx_grpc_cli_task_res \<Rightarrow> lua_val list" where
  "result_values h r =
     (let b = (case h (res_untag (res_buf r)) of None \<Rightarrow> [] | Some b \<Rightarrow> take (unat (res_size r)) b)
      in if res_type (res_buf r) = NGX_GRPC_CLIENT_RES_TYPE_OK then [LuaBool True, LuaStr b]
         else if res_type (res_buf r) = NGX_GRPC_CLIENT_RES_TYPE_OK_NOT_RES then [LuaBool True, LuaNil]
         else [LuaBool False, LuaStr b])"

text \<open>The blocks a list of results owns.\<close>

definition blocks :: "ngx_grpc_cli_task_res list \<Rightarrow> addr list" where
  "blocks rs = filter (\<lambda>p. p \<noteq> NULL) (map (\<lambda>r. res_untag (res_buf r)) rs)"

definition pending :: "worker \<Rightarrow> ngx_grpc_cli_task_res list" where
  "pending w = List.map_filter (\<lambda>l. Option.bind (pctx_of_link l) (w_pctxs w)) (w_queues w ThOccupied)"

definition finished :: "worker \<Rightarrow> ngx_grpc_cli_task_res list" where
  "finished w = List.map_filter (finished_task w) [0..<nat (w_finished_task_num w)]"

definition buffers_ok :: "heap \<Rightarrow> ngx_grpc_cli_task_res list \<Rightarrow> bool" where
  "buffers_ok h rs \<longleftrightarrow> list_all (res_ok h) rs \<and> distinct (blocks rs)"

text \<open>\<open>d\<close> says whether the thread has finished and its completion event is still to run.\<close>

definition results_ok :: "bool \<Rightarrow> worker \<Rightarrow> bool" where
  "results_ok d w \<longleftrightarrow>
     (if d
      then w_task_active w \<and> 0 \<le> w_finished_task_num w \<and>
           buffers_ok (w_heap w) (pending w @ finished w) \<and>
           length (finished w) = nat (w_finished_task_num w) \<and>
           (0 < w_finished_task_num w \<longrightarrow>
              w_finished_tasks w \<noteq> NULL \<and> w_finished_tasks w \<notin> set (blocks (pending w @ finished w)))
      else buffers_ok (w_heap w) (pending w))"

text \<open>Everything but the heap is as \<open>thread_same\<close> says.\<close>

definition thread_same_but_heap :: "worker \<Rightarrow> worker \<Rightarrow> bool" where
  "thread_same_but_heap w w' \<longleftrightarrow> thread_same (w\<lparr>w_heap := w_heap w'\<rparr>) w'"

text \<open>The heap after a buffer was freed.\<close>

definition heap_free :: "heap \<Rightarrow> addr \<Rightarrow> heap" where
  "heap_free h p = (if p = NULL then h else h(p := None))"

text \<open>What the coroutine gets, and the heap afterwards: a timeout touches no result.\<close>

definition wait_values :: "heap \<Rightarrow> ngx_grpc_cli_stream_ctx \<Rightarrow> lua_val list" where
  "wait_values h s =
     (if sctx_state s = NGX_GRPC_CLIENT_STATE_TIMEOUT
      then [LuaBool False, LuaStr (bytes_of ''timeout'')] else result_values h (sctx_res s))"

definition wait_heap :: "heap \<Rightarrow> ngx_grpc_cli_stream_ctx \<Rightarrow> heap" where
  "wait_heap h s =
     (if sctx_state s = NGX_GRPC_CLIENT_STATE_TIMEOUT then h
      else heap_free h (res_untag (res_buf (sctx_res s))))"

text \<open>The coroutine of an ended wait: timer stopped, cleanup handler dropped.\<close>

definition disarmed :: "co_ctx \<Rightarrow> co_ctx" where
  "disarmed c = c\<lparr>co_sleep := (co_sleep c)\<lparr>ev_timer_set := False\<rparr>, co_cleanup := NoCleanup\<rparr>"

subsection \<open>Delivery\<close>

lemma disarmed_sel [simp]: "\<not> armed (disarmed c)" "co_data (disarmed c) = co_data c"
  by (simp_all add: disarmed_def armed_def)

text \<open>The state in which \<open>ngx_grpc_cli_put_res\<close> runs satisfies the invariant again.\<close>

context ngx_laws
begin

lemma deliver_prepares:
  assumes inv: "winv w" and k: "w_sctxs w k = Some s" "sctx_node s \<noteq> NULL"
    and c: "w_cos w (sctx_wait_co_ctx s) = Some c"
    and s1: "sctx_node s1 = sctx_node s" "sctx_wait_co_ctx s1 = sctx_wait_co_ctx s"
      "sctx_type s1 = sctx_type s" "sctx_parent s1 = sctx_parent s" "sctx_r s1 = sctx_r s"
      "sctx_is_http s1 = sctx_is_http s"
  defines "w1 \<equiv> w\<lparr>w_sctxs := (w_sctxs w)(k \<mapsto> s1), w_cos := (w_cos w)(sctx_wait_co_ctx s \<mapsto> disarmed c)\<rparr>"
  obtains v s2 where "deliver N k w1 = ngx_grpc_cli_put_res N k (sctx_wait_co_ctx s) v"
    "winv v" "thread_same w v" "w_sctxs v = (w_sctxs w)(k \<mapsto> s2)" "w_lua v = w_lua w" "w_eng v = w_eng w"
    "w_queues v = w_queues w" "w_ctxs v = w_ctxs w" "sctx_node s2 = NULL" "sctx_wait_co_ctx s2 = NULL"
    "sctx_res s2 = sctx_res s1" "sctx_state s2 = sctx_state s1" "sctx_type s2 = sctx_type s"
    "sctx_parent s2 = sctx_parent s" "w_cos v = (w_cos w)(sctx_wait_co_ctx s \<mapsto> disarmed c)"
proof -
  note parts = winv_butD [OF inv]
  let ?p = "sctx_wait_co_ctx s" and ?r = "sctx_r s" and ?h = "sctx_is_http s"
  obtain l where l: "request_ctx w ?h ?r = Some l" using waits_okD(3) [OF parts(2) k] by blast
  have "tasks_ok w1" using parts(1) k(1) s1(1) unfolding tasks_ok_def w1_def by auto
  moreover have "w_sctxs w1 k = Some s1" by (simp add: w1_def)
  ultimately obtain v where v: "ngx_grpc_cli_unkeep_task N k w1 = Some v" "tasks_ok v"
    "same_but_tasks w1 v" "w_sctxs v = (w_sctxs w1)(k \<mapsto> s1\<lparr>sctx_node := NULL\<rparr>)"
    using unkeep_task_ok by blast
  have eqv: "v = w1\<lparr>w_tree := w_tree v, w_num := w_num v, w_sctxs := w_sctxs v\<rparr>"
    using v(3) by (rule same_but_tasksD)
  let ?s2 = "s1\<lparr>sctx_node := NULL, sctx_wait_co_ctx := NULL, sctx_prev_data := co_data c\<rparr>"
  let ?l = "l\<lparr>cur_co_ctx := ?p, lua_resume_handler := WevHandler\<rparr>"
  define v2 where "v2 = (if ?h then v\<lparr>w_http := (w_http w)(?r \<mapsto> ?l), w_sctxs := (w_sctxs w)(k \<mapsto> ?s2)\<rparr>
    else v\<lparr>w_stream := (w_stream w)(?r \<mapsto> ?l), w_sctxs := (w_sctxs w)(k \<mapsto> ?s2)\<rparr>)"
  have sel: "w_cos v = (w_cos w)(?p \<mapsto> disarmed c)" "w_queues v = w_queues w" "w_ctxs v = w_ctxs w"
    "w_pctxs v = w_pctxs w" "w_eng v = w_eng w" "w_http v = w_http w" "w_stream v = w_stream w"
    "w_lua v = w_lua w"
    by (subst eqv, simp add: w1_def)+
  have "deliver N k w1 = ngx_grpc_cli_put_res N k ?p v2"
    using l v(1,4) s1 by (simp add: deliver_def Let_def sel v2_def request_ctx_def w1_def split: if_splits)
  moreover have "winv v2"
  proof (rule winv_release [OF inv k])
    show "tasks_ok v2"
      using v(2,4) unfolding tasks_ok_def v2_def w1_def by (auto split: if_splits)
    show "w_sctxs v2 = (w_sctxs w)(k \<mapsto> ?s2)" by (simp add: v2_def)
    show "w_cos v2 = (w_cos w)(?p \<mapsto> disarmed c)" by (simp add: v2_def sel)
    show "request_ctx v2 h r \<noteq> None" if "request_ctx w h r \<noteq> None" for h r
      using that by (auto simp: v2_def sel request_ctx_def split: if_splits)
  qed (simp_all add: v2_def sel s1)
  moreover have "thread_same w v2"
  proof -
    have "thread_same w v" by (subst eqv) (simp add: w1_def)
    then show ?thesis by (simp add: v2_def)
  qed
  ultimately show thesis
    using that [of v2 ?s2] s1 by (simp add: v2_def sel)
qed

text \<open>Pushing the values and freeing the buffer.\<close>

lemma push_res_ok:
  assumes "res_ok (w_heap w) r"
  shows "push_res co (res_untag (res_buf r)) (res_size r) (res_type (res_buf r)) w =
    Some (w\<lparr>w_lua := w_lua w @ [(co, result_values (w_heap w) r)],
            w_heap := heap_free (w_heap w) (res_untag (res_buf r))\<rparr>)"
proof (cases "res_type (res_buf r) = NGX_GRPC_CLIENT_RES_TYPE_OK_NOT_RES")
  case True
  then show ?thesis
    using assms by (simp add: push_res_def res_ok_def result_values_def lua_push_def heap_free_def)
next
  case False
  then obtain b where "w_heap w (res_untag (res_buf r)) = Some b" "unat (res_size r) \<le> length b"
    "res_untag (res_buf r) \<noteq> NULL"
    using assms by (auto simp: res_ok_def split: option.splits)
  then show ?thesis
    using False by (simp add: push_res_def read_buf_def result_values_def lua_push_def heap_free_def)
qed

text \<open>What \<open>ngx_grpc_cli_put_res\<close> does once the wait has ended.\<close>

lemma put_res_ok:
  assumes inv: "winv v" and k: "w_sctxs v k = Some s" "sctx_node s = NULL" "sctx_parent s \<in> dom (w_ctxs v)"
    and nl: "sctx_type s = STREAM_TYPE_UNARY \<Longrightarrow> \<not> linked (SctxQueue k) (w_queues v)"
    and res: "sctx_state s = NGX_GRPC_CLIENT_STATE_TIMEOUT \<or> res_ok (w_heap v) (sctx_res s)"
  obtains w' s' where "ngx_grpc_cli_put_res N k p v = Some w'" "winv w'"
    "w_lua w' = w_lua v @ [(p, wait_values (w_heap v) s)]" "w_heap w' = wait_heap (w_heap v) s"
    "thread_same_but_heap v w'" "kept w' = kept v" "w_eng w' = w_eng v" "w_cos w' = w_cos v"
    "w_sctxs w' = (w_sctxs v)(k \<mapsto> s')" "sctx_wait_co_ctx s' = sctx_wait_co_ctx s"
    "w_queues w' = (if sctx_type s = STREAM_TYPE_UNARY
       then (w_queues v)(CtxFree (sctx_parent s) := SctxQueue k # w_queues v (CtxFree (sctx_parent s)))
       else w_queues v)"
proof -
  let ?to = "sctx_state s = NGX_GRPC_CLIENT_STATE_TIMEOUT"
  define s' where "s' = (if ?to then s
    else s\<lparr>sctx_res := (sctx_res s)\<lparr>res_buf := res_untag (res_buf (sctx_res s))\<rparr>\<rparr>)"
  define q where "q = (if sctx_type s = STREAM_TYPE_UNARY
       then (w_queues v)(CtxFree (sctx_parent s) := SctxQueue k # w_queues v (CtxFree (sctx_parent s)))
       else w_queues v)"
  define w' where "w' = v\<lparr>w_sctxs := (w_sctxs v)(k \<mapsto> s'), w_lua := w_lua v @ [(p, wait_values (w_heap v) s)],
    w_heap := wait_heap (w_heap v) s, w_queues := q\<rparr>"
  have s': "sctx_node s' = NULL" "sctx_type s' = sctx_type s" "sctx_parent s' = sctx_parent s"
    "sctx_wait_co_ctx s' = sctx_wait_co_ctx s"
    using k(2) by (simp_all add: s'_def)
  let ?v1 = "v\<lparr>w_sctxs := (w_sctxs v)(k \<mapsto> s')\<rparr>"
  have v1: "winv ?v1" using inv k(1,2) s'(1-3) by (rule winv_upd_idle)
  have "winv (?v1\<lparr>w_queues := q\<rparr>)"
  proof (cases "sctx_type s = STREAM_TYPE_UNARY")
    case True
    then show ?thesis
      using winv_link_free [OF v1, of k s' "sctx_parent s"] nl s'(1) by (simp add: q_def)
  next
    case False
    then have "?v1\<lparr>w_queues := q\<rparr> = ?v1" by (intro worker.equality) (simp_all add: q_def)
    with v1 show ?thesis by simp
  qed
  then have w': "winv w'" by (rule winv_frame) (simp_all add: w'_def)
  have run: "ngx_grpc_cli_put_res N k p v = Some w'"
  proof (cases ?to)
    case True
    let ?u = "v\<lparr>w_lua := w_lua v @ [(p, [LuaBool False, LuaStr (bytes_of ''timeout'')])]\<rparr>"
    have "ngx_grpc_cli_put_res N k p v =
        Some (if sctx_type s = STREAM_TYPE_UNARY then ?u\<lparr>w_queues := q\<rparr> else ?u)"
      using True k nl
      by (auto simp: ngx_grpc_cli_put_res_def q_def lua_push_def upd_queues_def queue_insert_head)
    moreover have "(if sctx_type s = STREAM_TYPE_UNARY then ?u\<lparr>w_queues := q\<rparr> else ?u) = w'"
      using True k(1)
      by (intro worker.equality) (simp_all add: w'_def s'_def q_def wait_values_def wait_heap_def fun_upd_idem)
    ultimately show ?thesis by simp
  next
    case False
    then have ok: "res_ok (w_heap ?v1) (sctx_res s)" using res by simp
    have ne: "res_buf (sctx_res s) \<noteq> NULL" using ok by (simp add: res_ok_def)
    show ?thesis
      using False ne k nl push_res_ok [OF ok, of p]
      by (auto simp: ngx_grpc_cli_put_res_def Let_def w'_def s'_def q_def wait_values_def wait_heap_def
          upd_queues_def queue_insert_head)
  qed
  show thesis
  proof (rule that [OF run w'])
    show "kept w' = kept v" using k(1,2) s'(1) by (auto simp: kept_def w'_def)
    show "w_sctxs w' = (w_sctxs v)(k \<mapsto> s')" by (simp add: w'_def)
    show "thread_same_but_heap v w'"
      by (simp add: thread_same_but_heap_def thread_same_def w'_def q_def)
  qed (simp_all add: w'_def q_def s')
qed

text \<open>Delivery from the state of an ended wait.\<close>

lemma deliver_ok:
  assumes inv: "winv w" and k: "w_sctxs w k = Some s" "sctx_node s \<noteq> NULL"
    and c: "w_cos w (sctx_wait_co_ctx s) = Some c"
    and s1: "sctx_node s1 = sctx_node s" "sctx_wait_co_ctx s1 = sctx_wait_co_ctx s"
      "sctx_type s1 = sctx_type s" "sctx_parent s1 = sctx_parent s" "sctx_r s1 = sctx_r s"
      "sctx_is_http s1 = sctx_is_http s"
    and res: "sctx_state s1 = NGX_GRPC_CLIENT_STATE_TIMEOUT \<or> res_ok (w_heap w) (sctx_res s1)"
  defines "w1 \<equiv> w\<lparr>w_sctxs := (w_sctxs w)(k \<mapsto> s1), w_cos := (w_cos w)(sctx_wait_co_ctx s \<mapsto> disarmed c)\<rparr>"
  obtains w' where "deliver N k w1 = Some w'" "winv w'"
    "w_lua w' = w_lua w @ [(sctx_wait_co_ctx s, wait_values (w_heap w) s1)]"
    "w_heap w' = wait_heap (w_heap w) s1" "thread_same_but_heap w w'" "kept w' = kept w - {k}"
    "w_eng w' = w_eng w" "w_cos w' = (w_cos w)(sctx_wait_co_ctx s \<mapsto> disarmed c)"
    "sctx_type s = STREAM_TYPE_UNARY \<Longrightarrow> hd (w_queues w' (CtxFree (sctx_parent s))) = SctxQueue k"
    "sctx_type s \<noteq> STREAM_TYPE_UNARY \<Longrightarrow> w_queues w' = w_queues w"
proof -
  note parts = winv_butD [OF inv]
  note kept = kept_okD [OF parts(4) _ k, simplified]
  obtain v s2 where v: "deliver N k w1 = ngx_grpc_cli_put_res N k (sctx_wait_co_ctx s) v"
    "winv v" "thread_same w v" "w_sctxs v = (w_sctxs w)(k \<mapsto> s2)" "w_lua v = w_lua w" "w_eng v = w_eng w"
    "w_queues v = w_queues w" "w_ctxs v = w_ctxs w" "sctx_node s2 = NULL" "sctx_wait_co_ctx s2 = NULL"
    "sctx_res s2 = sctx_res s1" "sctx_state s2 = sctx_state s1" "sctx_type s2 = sctx_type s"
    "sctx_parent s2 = sctx_parent s" "w_cos v = (w_cos w)(sctx_wait_co_ctx s \<mapsto> disarmed c)"
    using deliver_prepares [OF inv k c s1] unfolding w1_def by metis
  have heap: "w_heap v = w_heap w" using v(3) by (simp add: thread_same_def)
  have kv: "kept v = kept w - {k}" using v(4,9) by (auto simp: kept_def)
  have vals: "wait_values h s2 = wait_values h s1" "wait_heap h s2 = wait_heap h s1" for h
    by (simp_all add: wait_values_def wait_heap_def v)
  have vk: "w_sctxs v k = Some s2" using v(4) by simp
  show thesis
  proof (rule put_res_ok [OF v(2) vk v(9), of "sctx_wait_co_ctx s"], goal_cases)
    case 1
    then show ?case using kept(1) v(8,14) by auto
  next
    case 2
    then show ?case using kept(2) v(7,13) by simp
  next
    case 3
    then show ?case using res v(11,12) heap by simp
  next
    case (4 w' s')
    then show ?case
      using that [of w'] v heap kv vals
      by (simp add: thread_same_but_heap_def thread_same_def)
  qed
qed

end

subsection \<open>Ownership of the buffers\<close>

lemma blocks_simps [simp]:
  "blocks [] = []"
  "blocks (r # rs) = (if res_untag (res_buf r) = NULL then blocks rs else res_untag (res_buf r) # blocks rs)"
  "blocks (rs @ ts) = blocks rs @ blocks ts"
  by (simp_all add: blocks_def)

lemma res_ok_other:
  "res_ok h r \<Longrightarrow> h' (res_untag (res_buf r)) = h (res_untag (res_buf r)) \<Longrightarrow> res_ok h' r"
  by (simp add: res_ok_def)

lemma heap_free_other [simp]: "q \<noteq> p \<Longrightarrow> heap_free h p q = h q" "heap_free h NULL = h"
  by (simp_all add: heap_free_def)

lemma list_all_res_ok_other:
  assumes "list_all (res_ok h) rs" "\<And>b. b \<in> set (blocks rs) \<Longrightarrow> h' b = h b"
  shows "list_all (res_ok h') rs"
  using assms by (induction rs) (auto simp: res_ok_def split: if_splits)

lemma buffers_ok_tail:
  assumes "buffers_ok h (r # rs)"
  shows "buffers_ok (heap_free h (res_untag (res_buf r))) rs"
proof (cases "res_untag (res_buf r) = NULL")
  case False
  have rs: "list_all (res_ok h) rs" "distinct (blocks rs)" "res_untag (res_buf r) \<notin> set (blocks rs)"
    using assms False by (simp_all add: buffers_ok_def)
  have "list_all (res_ok (heap_free h (res_untag (res_buf r)))) rs"
    using rs(1) by (rule list_all_res_ok_other) (use rs(3) in \<open>auto simp: heap_free_def\<close>)
  with rs(2) show ?thesis by (simp add: buffers_ok_def)
qed (use assms in \<open>simp add: buffers_ok_def\<close>)

lemma finished_frame:
  assumes "w_host w' = w_host w" "w_finished_tasks w' = w_finished_tasks w"
    "w_finished_task_num w' = w_finished_task_num w"
    "0 < w_finished_task_num w \<Longrightarrow> w_heap w' (w_finished_tasks w) = w_heap w (w_finished_tasks w)"
  shows "finished w' = finished w"
proof (cases "0 < w_finished_task_num w")
  case True
  then have "finished_task w' = finished_task w"
    using assms by (auto simp: finished_task_def fun_eq_iff split: option.split)
  then show ?thesis using assms(3) by (simp add: finished_def)
qed (simp add: finished_def assms(3))

lemma pending_frame:
  "w_pctxs w' = w_pctxs w \<Longrightarrow> w_queues w' ThOccupied = w_queues w ThOccupied \<Longrightarrow> pending w' = pending w"
  by (simp add: pending_def)

lemma results_ok_frame:
  assumes "results_ok d w" "thread_same w w'"
  shows "results_ok d w'"
proof -
  have same: "w_host w' = w_host w" "w_finished_tasks w' = w_finished_tasks w"
    "w_finished_task_num w' = w_finished_task_num w" "w_pctxs w' = w_pctxs w" "w_heap w' = w_heap w"
    "w_queues w' ThOccupied = w_queues w ThOccupied" "w_task_active w \<longrightarrow> w_task_active w'"
    using assms(2) by (simp_all add: thread_same_def)
  have "finished w' = finished w" using same by (intro finished_frame) simp_all
  moreover have "pending w' = pending w" using same by (intro pending_frame)
  ultimately show ?thesis using assms(1) same by (cases d) (simp_all add: results_ok_def)
qed

text \<open>The first pending result is delivered or dropped: its buffer is freed.\<close>

lemma results_ok_consume:
  assumes ok: "results_ok d w" and pend: "pending w = r # rs" "pending w' = rs"
    and heap: "w_heap w' = heap_free (w_heap w) (res_untag (res_buf r))"
    and same: "w_host w' = w_host w" "w_finished_tasks w' = w_finished_tasks w"
      "w_finished_task_num w' = w_finished_task_num w" "w_task_active w \<longrightarrow> w_task_active w'"
  shows "results_ok d w'"
proof (cases d)
  case True
  have "w_heap w' (w_finished_tasks w) = w_heap w (w_finished_tasks w)" if "0 < w_finished_task_num w"
    using ok True that pend(1) heap by (auto simp: results_ok_def heap_free_def split: if_splits)
  then have fin: "finished w' = finished w" using same by (intro finished_frame)
  have "buffers_ok (w_heap w) (r # rs @ finished w)" using ok True pend by (simp add: results_ok_def)
  then have "buffers_ok (w_heap w') (rs @ finished w)" unfolding heap by (rule buffers_ok_tail)
  with ok True pend same fin show ?thesis by (auto simp: results_ok_def split: if_splits)
next
  case False
  with ok pend buffers_ok_tail [of "w_heap w" r rs] heap show ?thesis by (simp add: results_ok_def)
qed

lemma res_ok_free:
  assumes "res_ok (w_heap w) r"
  shows "free_buf (res_untag (res_buf r)) w = Some (w\<lparr>w_heap := heap_free (w_heap w) (res_untag (res_buf r))\<rparr>)"
proof (cases "res_untag (res_buf r) = NULL")
  case False
  with assms obtain b where "w_heap w (res_untag (res_buf r)) = Some b"
    by (auto simp: res_ok_def split: if_splits option.splits)
  with False show ?thesis by (simp add: heap_free_def)
qed (simp add: heap_free_def)

subsection \<open>One round of the posted event\<close>

lemma pending_Cons:
  assumes "queues_ok w" "w_queues w ThOccupied = x # xs"
  obtains p r where "x = PctxQueue p" "w_pctxs w p = Some r" "p \<noteq> NULL"
    "pending w = r # List.map_filter (\<lambda>l. Option.bind (pctx_of_link l) (w_pctxs w)) xs"
proof -
  obtain p where "x = PctxQueue p" "p \<in> dom (w_pctxs w)"
    using queues_okD(5) [OF assms(1), of x] assms(2) by auto
  then show thesis
    using that assms queues_okD(8) [OF assms(1)] by (auto simp: pending_def map_filter_simps)
qed

lemma winv_move_pctx:
  assumes "winv w" "w_queues w ThOccupied = PctxQueue p # xs"
  defines "q \<equiv> (w_queues w)(ThOccupied := xs, ThFree := w_queues w ThFree @ [PctxQueue p])"
  shows "winv (w\<lparr>w_queues := q\<rparr>)"
proof -
  note parts = winv_butD [OF assms(1)]
  note wf = queues_okD(1) [OF parts(3)]
  have mem: "PctxQueue p \<in> set (w_queues w ThOccupied)" using assms(2) by simp
  let ?q1 = "(w_queues w)(ThOccupied := remove1 (PctxQueue p) (w_queues w ThOccupied))"
  have q: "q = ?q1(ThFree := ?q1 ThFree @ [PctxQueue p])" using assms(2) by (simp add: q_def fun_upd_twist)
  have "queues_wf q"
    unfolding q by (rule queues_wf_insert [OF queues_wf_remove [OF wf] not_linked_removed [OF wf mem]]) simp_all
  moreover have "p \<in> dom (w_pctxs w)" using queues_okD(5) [OF parts(3) mem] by simp
  ultimately have "queues_ok (w\<lparr>w_queues := q\<rparr>)"
    using queues_okD(2-8) [OF parts(3)] assms(2)
    by (intro queues_okI) (auto simp: q_def split: if_splits)
  moreover have "kept_ok {} (w\<lparr>w_queues := q\<rparr>)"
  proof (rule kept_okI, goal_cases)
    case (1 k s)
    have "SctxQueue k \<in> set (w_queues w h)" if "SctxQueue k \<in> set (q h)" for h
      using that assms(2) by (auto simp: q_def split: if_splits)
    then have "\<not> linked (SctxQueue k) q" if "\<not> linked (SctxQueue k) (w_queues w)"
      using that by (auto simp: linked_def)
    then show ?case using 1 kept_okD [OF parts(4), of k s] by (simp add: q_def)
  qed
  ultimately show ?thesis using assms(1) by (intro winv_queues)
qed

text \<open>Writing to a posted context that has left the queue.\<close>

lemma queues_ok_pctxs:
  assumes "queues_ok w" "dom (w_pctxs w) \<subseteq> dom ps" "NULL \<notin> dom ps"
  shows "queues_ok (w\<lparr>w_pctxs := ps\<rparr>)"
proof (rule queues_okI)
  note D = queues_okD [OF assms(1)]
  show "\<exists>p. x = PctxQueue p \<and> p \<in> dom (w_pctxs (w\<lparr>w_pctxs := ps\<rparr>))"
    if "x \<in> set (w_queues (w\<lparr>w_pctxs := ps\<rparr>) ThFree)" for x
    using D(4) [of x] that assms(2) by simp blast
  show "\<exists>p. x = PctxQueue p \<and> p \<in> dom (w_pctxs (w\<lparr>w_pctxs := ps\<rparr>))"
    if "x \<in> set (w_queues (w\<lparr>w_pctxs := ps\<rparr>) ThOccupied)" for x
    using D(5) [of x] that assms(2) by simp blast
qed (use queues_okD [OF assms(1)] assms(3) in simp_all)

lemma winv_pctxs:
  assumes "winv w" "p \<in> dom (w_pctxs w)"
  shows "winv (w\<lparr>w_pctxs := (w_pctxs w)(p \<mapsto> r)\<rparr>)" (is "winv ?w")
proof (rule winv_butI)
  note parts = winv_butD [OF assms(1)]
  show "tasks_ok ?w" using parts(1) by (rule tasks_ok_frame) simp_all
  show "waits_ok ?w" using parts(2) by (rule waits_ok_frame) simp_all
  show "kept_ok {} ?w" using parts(4) by (rule kept_ok_frame) simp_all
  show "conns_ok ?w" using parts(5) by (rule conns_ok_frame) simp_all
  show "queues_ok ?w"
    using parts(3) by (rule queues_ok_pctxs) (use assms(2) queues_okD(8) [OF parts(3)] in auto)
qed

lemma pending_upd_free:
  assumes "PctxQueue p \<notin> set (w_queues w ThOccupied)"
  shows "pending (w\<lparr>w_pctxs := (w_pctxs w)(p \<mapsto> r)\<rparr>) = pending w"
proof -
  have "Option.bind (pctx_of_link l) ((w_pctxs w)(p \<mapsto> r)) = Option.bind (pctx_of_link l) (w_pctxs w)"
    if "l \<in> set (w_queues w ThOccupied)" for l
    by (cases l) (use that assms in auto)
  then show ?thesis by (simp add: pending_def map_filter_def cong: map_cong filter_cong)
qed

context ngx_laws
begin

lemma queue_move:
  assumes "queues_wf qs" "qs ThOccupied = x # xs"
  shows "queue_insert_tail N ThFree x (queue_remove N x qs) = qs(ThOccupied := xs, ThFree := qs ThFree @ [x])"
proof -
  have mem: "x \<in> set (qs ThOccupied)" using assms(2) by simp
  show ?thesis
    using queue_remove [OF queues_wf_only [OF assms(1) mem]] not_linked_removed [OF assms(1) mem] assms(2)
    by (simp add: queue_insert_tail)
qed

lemma round_ok:
  assumes inv: "winv w" and ok: "results_ok d w" and occ: "w_queues w ThOccupied = x # xs"
  obtains r w' where "pending w = r # pending w'" "task_id r \<notin> kept w"
      "post_event_round N w = Some (None, w')" "winv w'" "results_ok d w'"
      "w_queues w' ThOccupied = xs" "w_heap w' = heap_free (w_heap w) (res_untag (res_buf r))"
      "w_lua w' = w_lua w" "kept w' = kept w" "w_eng w' = w_eng w"
  | r w0 s c where "pending w = r # pending w0" "task_id r \<in> kept w" "winv w0"
      "w_queues w0 = (w_queues w)(ThOccupied := xs, ThFree := w_queues w ThFree @ [x])"
      "w0 = w\<lparr>w_queues := w_queues w0\<rparr>"
      "w_sctxs w (task_id r) = Some s" "sctx_node s \<noteq> NULL" "w_cos w (sctx_wait_co_ctx s) = Some c"
      "sctx_state s = NGX_GRPC_CLIENT_STATE_OK" "res_ok (w_heap w) r"
      "post_event_round N w = Some (Some (task_id r),
         w0\<lparr>w_sctxs := (w_sctxs w)(task_id r \<mapsto> s\<lparr>sctx_res := r\<rparr>),
            w_cos := (w_cos w)(sctx_wait_co_ctx s \<mapsto> disarmed c)\<rparr>)"
proof -
  note parts = winv_butD [OF inv]
  note wf = queues_okD(1) [OF parts(3)]
  obtain p r where x: "x = PctxQueue p" "w_pctxs w p = Some r" "p \<noteq> NULL"
    "pending w = r # List.map_filter (\<lambda>l. Option.bind (pctx_of_link l) (w_pctxs w)) xs"
    using pending_Cons [OF parts(3) occ] .
  let ?q = "(w_queues w)(ThOccupied := xs, ThFree := w_queues w ThFree @ [x])"
  let ?w0 = "w\<lparr>w_queues := ?q\<rparr>"
  have w0: "winv ?w0" using winv_move_pctx [OF inv, of p xs] occ x(1) by simp
  have pend: "pending w = r # pending ?w0" using x(4) by (simp add: pending_def)
  have res: "res_ok (w_heap w) r" using ok pend by (cases d) (simp_all add: results_ok_def buffers_ok_def)
  have look: "ngx_grpc_cli_lookup_task t (w\<lparr>w_queues := q\<rparr>) = None \<longleftrightarrow> t \<notin> kept w" for t q
    using lookup_task_kept [OF parts(1)] by (simp add: ngx_grpc_cli_lookup_task_def)
  have mv: "queue_insert_tail N ThFree x (queue_remove N x (w_queues w)) = ?q"
    using queue_move [OF wf occ] .
  have head: "queue_head N ThOccupied (w_queues w) = x" using occ by (simp add: queue_head)
  note run = post_event_round_def Let_def head [unfolded x(1)] upd_queues_def mv [unfolded x(1)] look
  show thesis
  proof (cases "task_id r \<in> kept w")
    case False
    let ?b = "res_untag (res_buf r)"
    let ?w1 = "?w0\<lparr>w_pctxs := (w_pctxs w)(p \<mapsto> r\<lparr>res_buf := ?b\<rparr>)\<rparr>"
    let ?w' = "?w1\<lparr>w_heap := heap_free (w_heap w) ?b\<rparr>"
    have "winv ?w1" using winv_pctxs [OF w0, of p] x(2) by auto
    then have w': "winv ?w'" by (rule winv_frame) simp_all
    have "PctxQueue p \<notin> set xs" using queues_wfD(1) [OF wf, of ThOccupied] occ x(1) by simp
    then have pw: "pending ?w1 = pending ?w0" using pending_upd_free [of p ?w0] by simp
    moreover have "pending ?w' = pending ?w1" by (rule pending_frame) simp_all
    ultimately have pend': "pending w = r # pending ?w'" using pend by simp
    have "post_event_round N w = Some (None, ?w')"
      using False x(1,2) res res_ok_free [of ?w1 r] by (simp add: run)
    moreover have "results_ok d ?w'"
      using ok pend' refl by (rule results_ok_consume) simp_all
    ultimately show ?thesis
      using that(1) [of r ?w'] False w' pend' by (simp add: kept_def)
  next
    case True
    then obtain s where s: "w_sctxs w (task_id r) = Some s" "sctx_node s \<noteq> NULL"
      by (auto simp: kept_def)
    obtain c where c: "w_cos w (sctx_wait_co_ctx s) = Some c" "armed_for (task_id r) (sctx_is_http s) c"
      using waits_okD(4) [OF parts(2) s] by blast
    have "disarm_wait_co_ctx N (sctx_wait_co_ctx s) u = Some (u\<lparr>w_cos := (w_cos u)(sctx_wait_co_ctx s \<mapsto> disarmed c)\<rparr>)"
      if "w_cos u = w_cos w" for u
      using c that by (simp add: disarm_wait_co_ctx_def armed_for_def disarmed_def del_timer)
    then have "post_event_round N w = Some (Some (task_id r),
         ?w0\<lparr>w_sctxs := (w_sctxs w)(task_id r \<mapsto> s\<lparr>sctx_res := r\<rparr>),
            w_cos := (w_cos w)(sctx_wait_co_ctx s \<mapsto> disarmed c)\<rparr>)"
      using True x(1,2) s by (simp add: run)
    then show ?thesis
      using that(2) [of r ?w0 s c] True pend w0 s c(1) res waits_okD(2) [OF parts(2) s] by simp
  qed
qed

end

end
