(* ===== verification/Event_Handlers.thy ===== *)
theory Event_Handlers
  imports Event_Inv
begin

text \<open>
  The handlers of \<^verbatim>\<open>src/ngx_grpc_client.c\<close> that nginx calls: the posted event, the timer, the
  background thread and its completion event.  Each returns without fault and keeps the
  invariants \<open>winv\<close> and \<open>results_ok\<close>.
\<close>

subsection \<open>The posted event\<close>

text \<open>What concerns a worker that shuts down: its flags and what the thread left.\<close>

definition shutdown_same :: "worker \<Rightarrow> worker \<Rightarrow> bool" where
  "shutdown_same w w' \<longleftrightarrow> w_exiting w' = w_exiting w \<and> w_terminate w' = w_terminate w \<and>
     w_finished_tasks w' = w_finished_tasks w \<and> w_finished_task_num w' = w_finished_task_num w"

lemma shutdown_same_refl [simp]: "shutdown_same w w"
  by (simp add: shutdown_same_def)

lemma shutdown_same_trans: "shutdown_same a b \<Longrightarrow> shutdown_same b c \<Longrightarrow> shutdown_same a c"
  by (simp add: shutdown_same_def)

lemma thread_same_shutdown:
  "thread_same w w' \<Longrightarrow> shutdown_same w w'" "thread_same_but_heap w w' \<Longrightarrow> shutdown_same w w'"
  by (simp_all add: shutdown_same_def thread_same_def thread_same_but_heap_def)

lemma dropped_shutdown: "post_event_round N w = Some (None, w') \<Longrightarrow> shutdown_same w w'"
  by (auto simp: post_event_round_def Let_def bind_eq_Some_conv free_buf_def upd_queues_def shutdown_same_def
      split: if_splits option.splits)

context lua_laws
begin

text \<open>Resuming keeps everything of the thread but the heap.\<close>

lemma resume_round_ok:
  assumes inv: "winv w0" and k: "w_sctxs w0 k = Some s" "sctx_node s \<noteq> NULL"
    and c: "w_cos w0 (sctx_wait_co_ctx s) = Some c"
    and s1: "sctx_node s1 = sctx_node s" "sctx_wait_co_ctx s1 = sctx_wait_co_ctx s"
      "sctx_type s1 = sctx_type s" "sctx_parent s1 = sctx_parent s" "sctx_r s1 = sctx_r s"
      "sctx_is_http s1 = sctx_is_http s"
    and res: "sctx_state s1 = NGX_GRPC_CLIENT_STATE_TIMEOUT \<or> res_ok (w_heap w0) (sctx_res s1)"
  obtains w1 w2 where "ngx_grpc_cli_to_resume N L k
      (w0\<lparr>w_sctxs := (w_sctxs w0)(k \<mapsto> s1), w_cos := (w_cos w0)(sctx_wait_co_ctx s \<mapsto> disarmed c)\<rparr>) = Some w2"
    "winv w2" "thread_same_but_heap w0 w2" "w_heap w2 = wait_heap (w_heap w0) s1"
    "winv w1" "lua_runs N w1 w2" "kept w1 = kept w0 - {k}" "w_eng w1 = w_eng w0"
    "w_lua w1 = w_lua w0 @ [(sctx_wait_co_ctx s, wait_values (w_heap w0) s1)]"
    "w_cos w1 = (w_cos w0)(sctx_wait_co_ctx s \<mapsto> disarmed c)"
proof -
  obtain w1 where w1: "deliver N k (w0\<lparr>w_sctxs := (w_sctxs w0)(k \<mapsto> s1),
        w_cos := (w_cos w0)(sctx_wait_co_ctx s \<mapsto> disarmed c)\<rparr>) = Some w1" "winv w1"
    "w_lua w1 = w_lua w0 @ [(sctx_wait_co_ctx s, wait_values (w_heap w0) s1)]"
    "w_heap w1 = wait_heap (w_heap w0) s1" "thread_same_but_heap w0 w1" "kept w1 = kept w0 - {k}"
    "w_eng w1 = w_eng w0" "w_cos w1 = (w_cos w0)(sctx_wait_co_ctx s \<mapsto> disarmed c)"
    using deliver_ok [OF inv k c s1 res] by metis
  obtain w2 where w2: "ngx_grpc_cli_to_resume N L k (w0\<lparr>w_sctxs := (w_sctxs w0)(k \<mapsto> s1),
        w_cos := (w_cos w0)(sctx_wait_co_ctx s \<mapsto> disarmed c)\<rparr>) = Some w2" "lua_runs N w1 w2"
    using to_resume_deliver [OF w1(1)] by blast
  have "winv w2" "thread_same w1 w2" using lua_runs_ok [OF w2(2) w1(2)] by blast+
  moreover have "thread_same_but_heap w0 w2" "w_heap w2 = w_heap w1"
    using w1(5) \<open>thread_same w1 w2\<close> by (simp_all add: thread_same_but_heap_def thread_same_def)
  ultimately show thesis using that w1 w2 by simp
qed

lemma post_event_round_ok:
  assumes inv: "winv w" and ok: "results_ok d w" and occ: "w_queues w ThOccupied = x # xs"
  obtains ctx w1 w2 r where "post_event_round N w = Some (ctx, w1)"
    "(case ctx of None \<Rightarrow> Some w1 | Some ctx \<Rightarrow> ngx_grpc_cli_to_resume N L ctx w1) = Some w2"
    "winv w2" "results_ok d w2" "w_queues w2 ThOccupied = xs" "pending w = r # pending w2"
    "w_heap w2 = heap_free (w_heap w) (res_untag (res_buf r))" "shutdown_same w w2"
proof -
  show thesis
  proof (rule round_ok [OF inv ok occ], goal_cases)
    case (1 r w')
    then show thesis using that [of None w' w' r] dropped_shutdown by simp
  next
    case (2 r w0 s c)
    let ?k = "task_id r" and ?s1 = "s\<lparr>sctx_res := r\<rparr>"
    have eq0: "w0 = w\<lparr>w_queues := w_queues w0\<rparr>" by (fact 2(5))
    have sel: "w_sctxs w0 = w_sctxs w" "w_cos w0 = w_cos w" "w_heap w0 = w_heap w"
      "w_pctxs w0 = w_pctxs w" "w_host w0 = w_host w" "w_finished_tasks w0 = w_finished_tasks w"
      "w_finished_task_num w0 = w_finished_task_num w" "w_task_active w0 = w_task_active w"
      by (subst eq0, simp)+
    have heap: "wait_heap h ?s1 = heap_free h (res_untag (res_buf r))" for h
      using 2(9) by (simp add: wait_heap_def)
    show thesis
    proof (rule resume_round_ok [of w0 ?k s c ?s1], goal_cases)
      case (12 w1 w2)
      then have same: "thread_same_but_heap w0 w2" "w_heap w2 = heap_free (w_heap w) (res_untag (res_buf r))"
        by (simp_all add: heap sel)
      then have q: "w_queues w2 ThOccupied = w_queues w0 ThOccupied" "w_pctxs w2 = w_pctxs w0"
        by (simp_all add: thread_same_but_heap_def thread_same_def)
      then have pend: "pending w = r # pending w2" using 2(1) pending_frame [OF q(2,1)] by simp
      have "results_ok d w2"
        using ok pend refl same(2)
        by (rule results_ok_consume)
          (use same(1) sel in \<open>simp_all add: thread_same_but_heap_def thread_same_def\<close>)
      moreover have "shutdown_same w w0" by (subst eq0) (simp add: shutdown_same_def)
      then have "shutdown_same w w2" using thread_same_shutdown(2) [OF same(1)] by (rule shutdown_same_trans)
      ultimately show thesis
        using that [of "Some ?k" _ w2 r] 2 12 same(2) q(1) pend sel by simp
    qed (use 2 sel in simp_all)
  qed
qed

text \<open>The loop ends with the queue empty, and exactly the buffers of the queued results are freed.\<close>

lemma post_event_handler_ok:
  assumes "winv w" "results_ok d w"
  shows "\<exists>w'. ngx_grpc_cli_thread_post_event_handler N L w = Some w' \<and> winv w' \<and> results_ok d w' \<and>
    w_queues w' ThOccupied = [] \<and>
    w_heap w' = (\<lambda>p. if p \<in> set (blocks (pending w)) then None else w_heap w p) \<and> shutdown_same w w'"
  using assms
proof (induction "w_queues w ThOccupied" arbitrary: w)
  case Nil
  then have "pending w = []" by (simp add: pending_def map_filter_simps)
  with Nil show ?case
    by (subst ngx_grpc_cli_thread_post_event_handler.simps) (simp add: queue_empty)
next
  case (Cons x xs)
  obtain ctx w1 w2 r where step: "post_event_round N w = Some (ctx, w1)"
    "(case ctx of None \<Rightarrow> Some w1 | Some ctx \<Rightarrow> ngx_grpc_cli_to_resume N L ctx w1) = Some w2"
    "winv w2" "results_ok d w2" "w_queues w2 ThOccupied = xs" "pending w = r # pending w2"
    "w_heap w2 = heap_free (w_heap w) (res_untag (res_buf r))" "shutdown_same w w2"
    using post_event_round_ok [OF Cons.prems Cons.hyps(2) [symmetric]] by metis
  obtain w' where w': "ngx_grpc_cli_thread_post_event_handler N L w2 = Some w'" "winv w'" "results_ok d w'"
    "w_queues w' ThOccupied = []"
    "w_heap w' = (\<lambda>p. if p \<in> set (blocks (pending w2)) then None else w_heap w2 p)" "shutdown_same w2 w'"
    using Cons.hyps(1) [OF _ step(3,4)] step(5) by metis
  have "ngx_grpc_cli_thread_post_event_handler N L w = Some w'"
    using step(1,2) w'(1) Cons.hyps(2)
    by (subst ngx_grpc_cli_thread_post_event_handler.simps) (simp add: queue_empty Cons.hyps(2) [symmetric])
  moreover have "w_heap w' = (\<lambda>p. if p \<in> set (blocks (pending w)) then None else w_heap w p)"
    by (auto simp: w'(5) step(6,7) heap_free_def)
  moreover have "shutdown_same w w'" using step(8) w'(6) by (rule shutdown_same_trans)
  ultimately show ?case using w' by blast
qed

subsection \<open>The timer\<close>

text \<open>nginx clears \<^verbatim>\<open>timer_set\<close> and calls the handler of the event.\<close>

lemma timeout_handler_ok:
  assumes inv: "winv w" and ok: "results_ok d w" and c: "w_cos w p = Some c"
    and timer: "ev_timer_set (co_sleep c)" "ev_handler (co_sleep c) = TimeoutHandler"
  defines "k \<equiv> ev_data (co_sleep c)"
  defines "w0 \<equiv> w\<lparr>w_cos := (w_cos w)(p \<mapsto> c\<lparr>co_sleep := (co_sleep c)\<lparr>ev_timer_set := False\<rparr>\<rparr>)\<rparr>"
  obtains w1 w2 where "ngx_grpc_cli_timeout_handler N L k w0 = Some w2" "winv w2" "results_ok d w2"
    "k \<in> kept w" "kept w1 = kept w - {k}" "w_eng w1 = w_eng w" "winv w1" "lua_runs N w1 w2"
    "w_lua w1 = w_lua w @ [(p, [LuaBool False, LuaStr (bytes_of ''timeout'')])]" "w_heap w2 = w_heap w"
    "w_cos w1 = (w_cos w)(p \<mapsto> disarmed c)" "shutdown_same w w2"
proof -
  note parts = winv_butD [OF inv]
  have "armed c" using timer by (simp add: armed_def)
  then obtain s where s: "w_sctxs w (co_data c) = Some s" "sctx_node s \<noteq> NULL" "sctx_wait_co_ctx s = p"
    using waits_okD(5) [OF parts(2) c] by blast
  obtain c' where "w_cos w p = Some c'" "armed_for (co_data c) (sctx_is_http s) c'"
    using waits_okD(4) [OF parts(2) s(1,2)] s(3) by blast
  then have k: "k = co_data c" using c by (simp add: armed_for_def k_def)
  let ?s1 = "s\<lparr>sctx_state := NGX_GRPC_CLIENT_STATE_TIMEOUT\<rparr>"
  have run: "ngx_grpc_cli_timeout_handler N L k w0 = ngx_grpc_cli_to_resume N L k
      (w\<lparr>w_sctxs := (w_sctxs w)(k \<mapsto> ?s1), w_cos := (w_cos w)(p \<mapsto> disarmed c)\<rparr>)"
    unfolding ngx_grpc_cli_timeout_handler_def w0_def k disarmed_def using s(1,3) by simp
  have vals: "wait_values h ?s1 = [LuaBool False, LuaStr (bytes_of ''timeout'')]" "wait_heap h ?s1 = h" for h
    by (simp_all add: wait_values_def wait_heap_def)
  show thesis
  proof (rule resume_round_ok [of w k s c ?s1], goal_cases)
    case (12 w1 w2)
    have "w_heap w2 = w_heap w" using 12(4) vals(2) by simp
    then have "thread_same w w2"
      using 12(3) by (simp add: thread_same_but_heap_def thread_same_def)
    then have "results_ok d w2" by (rule results_ok_frame [OF ok])
    moreover have "k \<in> kept w" using s k by (auto simp: kept_def)
    moreover have "shutdown_same w w2" using 12(3) by (rule thread_same_shutdown)
    ultimately show thesis
      using that 12 s(3) run vals \<open>w_heap w2 = w_heap w\<close> by simp
  qed (use inv s c k in simp_all)
qed

end

end
