(* ===== verification/Thread_Inv.thy ===== *)
theory Thread_Inv
  imports Event_Handlers "HOL-Library.Sublist"
begin

text \<open>
  The background thread and its completion event keep the invariants: the array that the
  thread receives owns its buffers, and the completion event moves them to the
  \<^verbatim>\<open>occupied\<close> queue in order, frees the array once and posts the event.
\<close>

subsection \<open>Definitions\<close>

text \<open>What \<^verbatim>\<open>malloc\<close> gives the engine during one wait: the buffers and the block of the array.\<close>

definition wait_alloc_ok :: "(nat \<Rightarrow> addr) \<Rightarrow> addr \<Rightarrow> worker \<Rightarrow> bool" where
  "wait_alloc_ok al arr w \<longleftrightarrow>
     (let n = length (tq_tasks (finishedTaskQueue (w_eng w)))
      in cbytes_ok n (w_heap w) al \<and> arr \<noteq> NULL \<and> arr \<notin> dom (w_heap w) \<and>
         arr \<notin> set (map al [0..<n]))"

text \<open>The answers of \<^verbatim>\<open>ngx_pcalloc\<close> from index \<open>i\<close> on are new.\<close>

definition pctx_alloc_ok :: "sys_env \<Rightarrow> nat \<Rightarrow> worker \<Rightarrow> bool" where
  "pctx_alloc_ok E i w \<longleftrightarrow>
     (\<forall>j\<ge>i. sys_alloc E j \<noteq> NULL \<longrightarrow> sys_alloc E j \<notin> dom (w_pctxs w) \<and>
        (\<forall>l. sys_alloc E l = sys_alloc E j \<longrightarrow> l = j))"

subsection \<open>What a wait returns\<close>

lemma wait_result_untag:
  assumes "p AND 7 = 0"
  shows "res_untag (res_buf (fst (wait_result p t h))) =
    (if tr_err t = None \<and> tr_result t = None then NULL else p)"
  using assms res_untag_tagged [OF assms, of 1] res_untag_tagged [of 0 2] res_untag_id [OF assms]
  by (auto simp: wait_result_def split: option.split)

lemma represents_res_ok:
  assumes "represents h (fst (wait_result p t g)) t" "p AND 7 = 0" "p \<noteq> NULL"
  shows "res_ok h (fst (wait_result p t g))"
proof -
  let ?r = "fst (wait_result p t g)"
  have sz: "unat (of_nat n :: u64) \<le> n" for n by (simp add: unat_of_nat)
  have "res_buf ?r \<noteq> NULL"
  proof
    assume "res_buf ?r = NULL"
    then have "res_untag (res_buf ?r) = NULL" "res_type (res_buf ?r) = 0"
      by (simp_all add: res_untag_def res_type_def)
    then show False
      using assms wait_result_untag [OF assms(2), of t g]
      by (auto simp: represents_def split: option.splits if_splits)
  qed
  then show ?thesis
    using assms(1,3) wait_result_untag [OF assms(2), of t g] sz
    by (auto simp: represents_def res_ok_def split: option.splits)
qed

lemma wait_results_nth:
  "k < length ts \<Longrightarrow> wait_results al i ts ! k = fst (wait_result (al (i + k)) (ts ! k) Map.empty)"
proof (induction ts arbitrary: i k)
  case (Cons t ts)
  then show ?case by (cases k) simp_all
qed simp

lemma wait_results_blocks:
  assumes "inj_on al {i..<i + length ts}" "\<And>j. i \<le> j \<Longrightarrow> j < i + length ts \<Longrightarrow> al j AND 7 = 0"
  shows "distinct (blocks (wait_results al i ts)) \<and> set (blocks (wait_results al i ts)) \<subseteq> al ` {i..<i + length ts}"
  using assms
proof (induction ts arbitrary: i)
  case (Cons t ts)
  have "inj_on al {Suc i..<Suc i + length ts}" using Cons.prems(1) by (rule inj_on_subset) auto
  then have IH: "distinct (blocks (wait_results al (Suc i) ts))"
    "set (blocks (wait_results al (Suc i) ts)) \<subseteq> al ` {Suc i..<Suc i + length ts}"
    using Cons.IH [of "Suc i"] Cons.prems(2) by auto
  have "al i \<notin> al ` {Suc i..<Suc i + length ts}"
    using Cons.prems(1) by (auto dest: inj_onD)
  then have "al i \<notin> set (blocks (wait_results al (Suc i) ts))" using IH(2) by blast
  moreover have "al ` {Suc i..<Suc i + length ts} \<subseteq> al ` {i..<i + length (t # ts)}" by auto
  moreover have "al i \<in> al ` {i..<i + length (t # ts)}" by simp
  ultimately show ?case
    using IH wait_result_untag [OF Cons.prems(2), of i t Map.empty] by auto
qed simp

lemma wait_loop_res_ok:
  assumes "cbytes_ok (length ts) h al"
  shows "list_all (res_ok (snd (wait_loop e al 0 ts [] h))) (wait_results al 0 ts)"
proof (subst list_all_length, intro allI impI)
  fix k assume "k < length (wait_results al 0 ts)"
  then have k: "k < length ts" by simp
  note al = cbytes_okD [OF assms]
  have "represents (snd (wait_loop e al 0 ts [] h)) (wait_results al 0 ts ! k) (ts ! k)"
    using wait_loop_represents [of al 0 ts k e "[]" h] al(1,2) k by simp
  then show "res_ok (snd (wait_loop e al 0 ts [] h)) (wait_results al 0 ts ! k)"
    using represents_res_ok al(2,4) [OF k] k by (simp add: wait_results_nth)
qed

subsection \<open>The thread\<close>

lemma map_filter_all_Some:
  "(\<And>x. x \<in> set xs \<Longrightarrow> f x = Some (g x)) \<Longrightarrow> List.map_filter f xs = map g xs"
  by (induction xs) (simp_all add: map_filter_simps)

lemma length_map_filter: "length (List.map_filter f xs) \<le> length xs"
  by (simp add: map_filter_def)

lemma map_filter_full:
  "length (List.map_filter f xs) = length xs \<Longrightarrow> map Some (List.map_filter f xs) = map f xs"
proof (induction xs)
  case (Cons x xs)
  then show ?case using length_map_filter [of f xs] by (cases "f x") (simp_all add: map_filter_simps)
qed (simp add: map_filter_simps)

lemma finished_array:
  assumes "w_heap w (w_finished_tasks w) = Some (concat (map (encode_task_res (w_host w)) rs))"
    "w_finished_task_num w = int (length rs)"
  shows "finished w = rs"
proof -
  have "finished w = map (\<lambda>i. rs ! i) [0..<length rs]"
    unfolding finished_def using assms
    by (subst map_filter_all_Some [where g = "\<lambda>i. rs ! i"])
      (auto simp: finished_task_def read_task_res_nth)
  then show ?thesis by (simp add: map_nth)
qed

lemma thread_handler_ok:
  assumes inv: "winv w" and ok: "results_ok False w" and active: "w_task_active w"
    and woken: "tq_done (finishedTaskQueue (w_eng w))" and run: "\<not> w_exiting w" "\<not> w_terminate w"
    and al: "wait_alloc_ok al arr w"
  obtains w' where "ngx_grpc_cli_thread_handler al arr w = Some w'" "winv w'" "results_ok True w'"
    "map task_id (finished w') = map tr_id (tq_tasks (finishedTaskQueue (w_eng w)))"
    "tq_tasks (finishedTaskQueue (w_eng w')) = []" "pending w' = pending w" "kept w' = kept w"
proof -
  let ?q = "finishedTaskQueue (w_eng w)" and ?e = "w_host w"
  let ?ts = "tq_tasks ?q"
  let ?n = "length ?ts" and ?rs = "wait_results al 0 ?ts"
  let ?h = "snd (wait_loop ?e al 0 ?ts [] (w_heap w))"
  let ?out = "concat (map (encode_task_res ?e) ?rs)"
  define w' where "w' = w\<lparr>w_eng := (w_eng w)\<lparr>finishedTaskQueue := NewTaskQueue\<rparr>,
     w_heap := (if ?n = 0 then ?h else ?h(arr \<mapsto> ?out)),
     w_finished_tasks := (if ?n = 0 then NULL else arr), w_finished_task_num := int ?n\<rparr>"
  have cb: "cbytes_ok ?n (w_heap w) al" and arr: "arr \<noteq> NULL" "arr \<notin> dom (w_heap w)"
    "arr \<notin> al ` {0..<?n}"
    using al by (auto simp: wait_alloc_ok_def Let_def)
  have res: "ngx_grpc_cli_thread_handler al arr w = Some w'"
    using woken run
    by (auto simp: ngx_grpc_cli_thread_handler_def grpc_engine_wait_def taskQueue_Wait_eq w'_def)
  have fin: "finished w' = ?rs"
  proof (cases "?n = 0")
    case False
    then show ?thesis by (intro finished_array) (simp_all add: w'_def)
  qed (simp add: finished_def w'_def map_filter_simps)
  have old: "?h p = w_heap w p" if "p \<in> dom (w_heap w)" for p
    using that cbytes_okD(3) [OF cb] by (intro wait_loop_heap_other) auto
  have pend: "pending w' = pending w" by (rule pending_frame) (simp_all add: w'_def)
  have blk: "distinct (blocks ?rs)" "set (blocks ?rs) \<subseteq> al ` {0..<?n}"
    using wait_results_blocks [of al 0 ?ts] cbytes_okD [OF cb] by auto
  have live: "b \<in> dom (w_heap w)" if "b \<in> set (blocks (pending w))" for b
    using ok that
    by (auto simp: results_ok_def buffers_ok_def blocks_def list_all_iff res_ok_def domIff
        split: if_splits option.splits)
  have old': "w_heap w' b = w_heap w b" if "b \<in> set (blocks (pending w))" for b
    using live [OF that] old arr(2) by (auto simp: w'_def)
  have new': "w_heap w' b = ?h b" if "b \<in> set (blocks ?rs)" for b
    using that blk(2) arr(3) by (auto simp: w'_def)
  have "list_all (res_ok (w_heap w)) (pending w)" using ok by (simp add: results_ok_def buffers_ok_def)
  then have "list_all (res_ok (w_heap w')) (pending w)" using old' by (rule list_all_res_ok_other)
  moreover have "list_all (res_ok (w_heap w')) ?rs"
    using wait_loop_res_ok [OF cb] new' by (rule list_all_res_ok_other)
  moreover have "set (blocks (pending w)) \<inter> set (blocks ?rs) = {}"
    using live blk(2) cbytes_okD(3) [OF cb] by fastforce
  ultimately have "buffers_ok (w_heap w') (pending w' @ finished w')"
    using ok blk(1) fin pend by (simp add: buffers_ok_def results_ok_def)
  moreover have "w_finished_tasks w' \<notin> set (blocks (pending w' @ finished w'))" if "0 < ?n"
  proof -
    have "w_finished_tasks w' = arr" using that by (simp add: w'_def)
    moreover have "arr \<notin> set (blocks (pending w))" using live arr(2) by blast
    moreover have "arr \<notin> set (blocks ?rs)" using blk(2) arr(3) by blast
    ultimately show ?thesis using fin pend by simp
  qed
  ultimately have "results_ok True w'"
    using active arr(1) fin by (auto simp: results_ok_def) (auto simp: w'_def)
  moreover have "winv w'" using inv by (rule winv_frame) (simp_all add: w'_def)
  ultimately show thesis
    using that [OF res] fin pend
    by (simp add: map_id_wait_results w'_def NewTaskQueue_def kept_def)
qed

subsection \<open>The thread of a worker that shuts down\<close>

lemma blocks_live: "buffers_ok h rs \<Longrightarrow> set (blocks rs) \<subseteq> dom h"
  by (auto simp: buffers_ok_def blocks_def list_all_iff res_ok_def domIff split: if_splits option.splits)

text \<open>Blocks that are added to the heap, or freed again, concern no result.\<close>

lemma results_ok_heap:
  assumes "results_ok d w" "\<And>p. p \<in> dom (w_heap w) \<Longrightarrow> h p = w_heap w p"
  shows "results_ok d (w\<lparr>w_eng := g, w_heap := h\<rparr>)"
proof -
  let ?w = "w\<lparr>w_eng := g, w_heap := h\<rparr>"
  have keep: "buffers_ok h rs" if "buffers_ok (w_heap w) rs" for rs
  proof -
    have "list_all (res_ok h) rs"
      by (rule list_all_res_ok_other [of "w_heap w"])
        (use that blocks_live [OF that] assms(2) in \<open>auto simp: buffers_ok_def\<close>)
    with that show ?thesis by (simp add: buffers_ok_def)
  qed
  have pend: "pending ?w = pending w" by (rule pending_frame) simp_all
  show ?thesis
  proof (cases d)
    case True
    have "finished ?w = finished w"
    proof (cases "nat (w_finished_task_num w)")
      case (Suc n)
      then have "finished w \<noteq> []" using assms(1) True by (auto simp: results_ok_def)
      then have "w_finished_tasks w \<in> dom (w_heap w)"
        by (auto simp: finished_def finished_task_def map_filter_def filter_empty_conv split: option.splits)
      then have "h (w_finished_tasks w) = w_heap w (w_finished_tasks w)" by (rule assms(2))
      then have "finished_task ?w = finished_task w"
        by (auto simp: finished_task_def fun_eq_iff split: option.split)
      then show ?thesis by (simp add: finished_def)
    qed (simp add: finished_def)
    with True assms(1) keep pend show ?thesis by (simp add: results_ok_def)
  next
    case False
    with assms(1) keep pend show ?thesis by (simp add: results_ok_def)
  qed
qed

lemma free_finished_ok:
  assumes "w_heap w (w_finished_tasks w) = Some out"
    "\<And>j. i \<le> j \<Longrightarrow> j < i + n \<Longrightarrow> read_task_res (w_host w) out j = Some (f j)"
    "buffers_ok (w_heap w) (map f [i..<i + n])" "w_finished_tasks w \<notin> set (blocks (map f [i..<i + n]))"
    "w_finished_tasks w \<noteq> NULL"
  shows "\<exists>h. free_finished i n w = Some (w\<lparr>w_heap := h\<rparr>) \<and> h (w_finished_tasks w) = Some out \<and>
           (\<forall>p. p \<notin> set (blocks (map f [i..<i + n])) \<longrightarrow> h p = w_heap w p)"
  using assms
proof (induction n arbitrary: i w)
  case 0
  then show ?case by (intro exI [of _ "w_heap w"]) simp
next
  case (Suc n)
  have upt: "[i..<i + Suc n] = i # [Suc i..<Suc i + n]" by (simp add: upt_rec)
  have ok: "res_ok (w_heap w) (f i)" using Suc.prems(3) unfolding upt by (simp add: buffers_ok_def)
  let ?w = "w\<lparr>w_heap := heap_free (w_heap w) (res_untag (res_buf (f i)))\<rparr>"
  have "w_heap ?w (w_finished_tasks ?w) = Some out"
    using Suc.prems(1,4,5) unfolding upt by (auto simp: heap_free_def split: if_splits)
  moreover have "buffers_ok (w_heap ?w) (map f [Suc i..<Suc i + n])"
    using buffers_ok_tail [of "w_heap w" "f i"] Suc.prems(3) unfolding upt by simp
  moreover have "w_finished_tasks ?w \<notin> set (blocks (map f [Suc i..<Suc i + n]))"
    using Suc.prems(4) unfolding upt by (simp split: if_splits)
  ultimately obtain h where h: "free_finished (Suc i) n ?w = Some (?w\<lparr>w_heap := h\<rparr>)" "h (w_finished_tasks w) = Some out"
    "\<And>p. p \<notin> set (blocks (map f [Suc i..<Suc i + n])) \<Longrightarrow> h p = w_heap ?w p"
    using Suc.IH [of ?w "Suc i"] Suc.prems(2,5) by auto
  have "h p = w_heap w p" if "p \<notin> set (blocks (map f [i..<i + Suc n]))" for p
    using that h(3) [of p] unfolding upt by (auto simp: heap_free_def split: if_splits)
  moreover note h(1,2)
  moreover have "finished_task w i = Some (f i)" using Suc.prems(1,2) by (simp add: finished_task_def)
  moreover have "res_buf (f i) \<noteq> NULL" using ok by (simp add: res_ok_def)
  ultimately show ?case by (intro exI [of _ h] conjI allI impI) (simp_all add: res_ok_free [OF ok] del: upt_Suc)
qed

text \<open>The two frees of the exit branch: the buffers of the array \<open>rs\<close>, then the array.\<close>

lemma free_collected:
  assumes "w_heap u arr = Some (concat (map (encode_task_res (w_host u)) rs))" "w_finished_tasks u = arr" "arr \<noteq> NULL"
    "buffers_ok (w_heap u) (ps @ rs)" "arr \<notin> set (blocks (ps @ rs))"
  obtains h where "Option.bind (free_finished 0 (length rs) u)
      (\<lambda>w. if w_finished_tasks w \<noteq> NULL then free_buf (w_finished_tasks w) w else Some w) = Some (u\<lparr>w_heap := h\<rparr>)"
    "arr \<notin> dom h" "buffers_ok h ps"
proof -
  let ?out = "concat (map (encode_task_res (w_host u)) rs)"
  have rs: "map ((!) rs) [0..<0 + length rs] = rs" using map_nth [of rs] by simp
  have block: "w_heap u (w_finished_tasks u) = Some ?out" "w_finished_tasks u \<noteq> NULL"
    "w_finished_tasks u \<notin> set (blocks rs)" "buffers_ok (w_heap u) rs"
    using assms by (simp_all add: buffers_ok_def)
  have elems: "read_task_res (w_host u) ?out j = Some (rs ! j)" if "0 \<le> j" "j < 0 + length rs" for j
    using read_task_res_nth that by simp
  obtain h where h: "free_finished 0 (length rs) u = Some (u\<lparr>w_heap := h\<rparr>)" "h arr = Some ?out"
    "\<And>p. p \<notin> set (blocks rs) \<Longrightarrow> h p = w_heap u p"
    using free_finished_ok [of u ?out 0 "length rs" "(!) rs", unfolded rs, OF block(1) elems block(4,3,2)]
    unfolding assms(2) by blast
  have "list_all (res_ok (h(arr := None))) ps"
  proof (rule list_all_res_ok_other)
    show "list_all (res_ok (w_heap u)) ps" using assms(4) by (simp add: buffers_ok_def)
    fix p assume "p \<in> set (blocks ps)"
    then show "(h(arr := None)) p = w_heap u p"
      using assms(4,5) h(3) [of p] by (auto simp: buffers_ok_def)
  qed
  then have "buffers_ok (h(arr := None)) ps" using assms(4) by (simp add: buffers_ok_def)
  then show thesis
    using h(1,2) assms(2,3) by (intro that [of "h(arr := None)"]) (simp_all add: free_buf_def grpc_engine_free_def domIff)
qed

lemma thread_exit_ok:
  assumes inv: "winv w" and ok: "results_ok False w" and active: "w_task_active w"
    and woken: "tq_done (finishedTaskQueue (w_eng w))" and exit: "w_exiting w \<or> w_terminate w"
    and al: "wait_alloc_ok al arr w"
  obtains w' where "ngx_grpc_cli_thread_handler al arr w = Some w'" "winv w'" "results_ok False w'"
    "w_finished_task_num w' = int (length (tq_tasks (finishedTaskQueue (w_eng w))))"
    "0 < length (tq_tasks (finishedTaskQueue (w_eng w))) \<longrightarrow> w_finished_tasks w' = arr \<and> arr \<notin> dom (w_heap w')"
    "w' = w\<lparr>w_eng := w_eng w', w_heap := w_heap w', w_finished_tasks := w_finished_tasks w',
            w_finished_task_num := w_finished_task_num w'\<rparr>"
proof -
  let ?v = "w\<lparr>w_exiting := False, w_terminate := False\<rparr>"
  have "winv ?v" using inv by (rule winv_frame) simp_all
  moreover have "results_ok False ?v" using ok by (simp add: results_ok_def pending_def)
  moreover have "wait_alloc_ok al arr ?v" using al by (simp add: wait_alloc_ok_def)
  ultimately obtain v where v: "ngx_grpc_cli_thread_handler al arr ?v = Some v" "winv v" "results_ok True v"
    using thread_handler_ok [of ?v al arr] active woken by auto
  let ?ts = "tq_tasks (finishedTaskQueue (w_eng w))"
  let ?n = "length ?ts" and ?rs = "wait_results al 0 ?ts"
  let ?h = "snd (wait_loop (w_host w) al 0 ?ts [] (w_heap w))"
  let ?out = "concat (map (encode_task_res (w_host w)) ?rs)"
  have arr: "arr \<noteq> NULL" using al by (simp add: wait_alloc_ok_def Let_def)
  define u where "u = w\<lparr>w_eng := (w_eng w)\<lparr>finishedTaskQueue := NewTaskQueue\<rparr>,
     w_heap := (if ?n = 0 then ?h else ?h(arr \<mapsto> ?out)),
     w_finished_tasks := (if ?n = 0 then NULL else arr), w_finished_task_num := int ?n\<rparr>"
  have v_eq: "v = u\<lparr>w_exiting := False, w_terminate := False\<rparr>"
    using v(1) woken by (auto simp: ngx_grpc_cli_thread_handler_def grpc_engine_wait_def taskQueue_Wait_eq u_def)
  have run: "ngx_grpc_cli_thread_handler al arr w = Option.bind (free_finished 0 ?n u)
      (\<lambda>w. if w_finished_tasks w \<noteq> NULL then free_buf (w_finished_tasks w) w else Some w)"
    using woken exit by (auto simp: ngx_grpc_cli_thread_handler_def grpc_engine_wait_def taskQueue_Wait_eq u_def)
  have u: "winv u" by (rule winv_frame [OF v(2)]) (simp_all add: v_eq)
  have own: "buffers_ok (w_heap u) (pending w @ finished v)" "0 < ?n \<Longrightarrow> arr \<notin> set (blocks (pending w @ finished v))"
  proof -
    have "pending v = pending w" by (rule pending_frame) (simp_all add: v_eq u_def)
    then show "buffers_ok (w_heap u) (pending w @ finished v)" "0 < ?n \<Longrightarrow> arr \<notin> set (blocks (pending w @ finished v))"
      using v(3) by (simp_all add: results_ok_def v_eq) (simp_all add: u_def)
  qed
  have frame: "pending (u\<lparr>w_heap := x\<rparr>) = pending w" for x by (rule pending_frame) (simp_all add: u_def)
  show thesis
  proof (cases "?n = 0")
    case True
    have "pending u = pending w" by (rule pending_frame) (simp_all add: u_def)
    then have "results_ok False u" using own(1) by (simp add: results_ok_def buffers_ok_def)
    with True u run show thesis by (intro that [of u]) (simp_all add: u_def)
  next
    case False
    have fin: "finished v = ?rs" by (rule finished_array) (use False in \<open>simp_all add: v_eq u_def\<close>)
    have "w_heap u arr = Some (concat (map (encode_task_res (w_host u)) ?rs))" "w_finished_tasks u = arr"
      using False by (simp_all add: u_def)
    from free_collected [OF this arr, of "pending w"] own False fin obtain h where
      h: "Option.bind (free_finished 0 (length ?rs) u)
        (\<lambda>w. if w_finished_tasks w \<noteq> NULL then free_buf (w_finished_tasks w) w else Some w) = Some (u\<lparr>w_heap := h\<rparr>)"
        "arr \<notin> dom h" "buffers_ok h (pending w)"
      by auto
    let ?w = "u\<lparr>w_heap := h\<rparr>"
    have "results_ok False ?w" using h(3) frame by (simp add: results_ok_def)
    moreover have "winv ?w" using u by (rule winv_frame) simp_all
    moreover have "ngx_grpc_cli_thread_handler al arr w = Some ?w" using h(1) run by simp
    ultimately show thesis using False h(2) by (intro that [of ?w]) (simp_all add: u_def)
  qed
qed

text \<open>The completion event reads the array that was freed.\<close>

lemma freed_completion_faults:
  assumes "0 < w_finished_task_num w" "w_finished_tasks w \<notin> dom (w_heap w)"
  shows "ngx_grpc_cli_thread_event_handler N E (w\<lparr>w_task_active := a\<rparr>) = None"
proof -
  obtain n where "nat (w_finished_task_num w) = Suc n" using assms(1) by (cases "nat (w_finished_task_num w)") simp_all
  then show ?thesis
    using assms(2) by (simp add: ngx_grpc_cli_thread_event_handler_def finished_task_def domIff)
qed

subsection \<open>The completion event\<close>

lemma blocks_subseq: "subseq rs ts \<Longrightarrow> subseq (blocks rs) (blocks ts)"
  by (simp add: blocks_def subseq_map)

lemma subseq_distinct: "subseq xs ys \<Longrightarrow> distinct ys \<Longrightarrow> distinct xs"
  by (metis distinct_nthsI subseq_conv_nths)

lemma subseq_list_all: "subseq xs ys \<Longrightarrow> list_all P ys \<Longrightarrow> list_all P xs"
  by (auto simp: list_all_iff dest: list_emb_set)

lemma buffers_ok_subseq:
  assumes "buffers_ok h ts" "subseq rs ts"
  shows "buffers_ok h rs"
  using assms subseq_distinct [OF blocks_subseq [OF assms(2)]] subseq_list_all [OF assms(2)]
  by (simp add: buffers_ok_def)

text \<open>Linking a posted context at the end of \<^verbatim>\<open>occupied\<close>.\<close>

lemma winv_occupy:
  fixes r :: ngx_grpc_cli_task_res
  assumes "winv w" "\<not> linked (PctxQueue p) (w_queues w)" "p \<noteq> NULL"
  defines "w' \<equiv> w\<lparr>w_pctxs := (w_pctxs w)(p \<mapsto> r),
                 w_queues := (w_queues w)(ThOccupied := w_queues w ThOccupied @ [PctxQueue p])\<rparr>"
  shows "winv w'" "pending w' = pending w @ [r]"
proof -
  note parts = winv_butD [OF assms(1)]
  let ?q = "(w_queues w)(ThOccupied := w_queues w ThOccupied @ [PctxQueue p])"
  let ?w1 = "w\<lparr>w_pctxs := (w_pctxs w)(p \<mapsto> r)\<rparr>"
  have q1: "queues_ok ?w1"
    using parts(3) by (rule queues_ok_pctxs) (use assms(3) queues_okD(8) [OF parts(3)] in auto)
  have "winv ?w1"
  proof (rule winv_butI)
    show "tasks_ok ?w1" using parts(1) by (rule tasks_ok_frame) simp_all
    show "waits_ok ?w1" using parts(2) by (rule waits_ok_frame) simp_all
    show "kept_ok {} ?w1" using parts(4) by (rule kept_ok_frame) simp_all
    show "conns_ok ?w1" using parts(5) by (rule conns_ok_frame) simp_all
  qed (fact q1)
  moreover have "queues_wf ?q"
    using queues_okD(1) [OF parts(3)] assms(2) by (rule queues_wf_insert) simp_all
  then have "queues_ok (?w1\<lparr>w_queues := ?q\<rparr>)"
    using queues_okD(2-8) [OF q1] by (intro queues_okI) (auto split: if_splits)
  moreover have "kept_ok {} (?w1\<lparr>w_queues := ?q\<rparr>)"
  proof (rule kept_okI, goal_cases)
    case (1 k s)
    have "SctxQueue k \<in> set (w_queues w h)" if "SctxQueue k \<in> set (?q h)" for h
      using that by (auto split: if_splits)
    then have "\<not> linked (SctxQueue k) ?q" if "\<not> linked (SctxQueue k) (w_queues w)"
      using that by (auto simp: linked_def)
    then show ?case using 1 kept_okD [OF parts(4), of k s] by simp
  qed
  ultimately have "winv (?w1\<lparr>w_queues := ?q\<rparr>)" by (intro winv_queues)
  then show "winv w'" by (simp add: w'_def)
  have "PctxQueue p \<notin> set (w_queues w ThOccupied)" using assms(2) by (auto simp: linked_def)
  from pending_upd_free [OF this, of r] show "pending w' = pending w @ [r]"
    by (simp add: pending_def w'_def map_filter_def)
qed

context ngx_laws
begin

lemma insert_posted_ok:
  assumes inv: "winv w" and p: "p = NULL \<or> p \<notin> dom (w_pctxs w)"
  obtains ps q where "ngx_grpc_cli_insert_posted_event_ctx N p r w = Some (w\<lparr>w_pctxs := ps, w_queues := q\<rparr>)"
    "winv (w\<lparr>w_pctxs := ps, w_queues := q\<rparr>)" "dom ps \<subseteq> insert p (dom (w_pctxs w))"
    "pending (w\<lparr>w_pctxs := ps, w_queues := q\<rparr>) =
       (if w_queues w ThFree = [] \<and> p = NULL then pending w else pending w @ [r])"
proof -
  note parts = winv_butD [OF inv]
  note wf = queues_okD(1) [OF parts(3)]
  note def = ngx_grpc_cli_insert_posted_event_ctx_def queue_empty upd_queues_def
  show thesis
  proof (cases "w_queues w ThFree")
    case Nil
    show ?thesis
    proof (cases "p = NULL")
      case True
      have "w\<lparr>w_pctxs := w_pctxs w, w_queues := w_queues w\<rparr> = w" by simp
      then show ?thesis using that [of "w_queues w" "w_pctxs w"] Nil True inv by (auto simp: def)
    next
      case False
      then have "\<not> linked (PctxQueue p) (w_queues w)" using p linked_pctx(2) [OF parts(3)] by blast
      with winv_occupy [OF inv this False, of r] False Nil show ?thesis
        by (intro that [of _ "(w_pctxs w)(p \<mapsto> r)"]) (auto simp: def queue_insert_tail)
    qed
  next
    case (Cons x xs)
    then have mem: "x \<in> set (w_queues w ThFree)" by simp
    obtain a where a: "x = PctxQueue a" "a \<in> dom (w_pctxs w)"
      using queues_okD(4) [OF parts(3) mem] by blast
    have "a \<noteq> NULL" using a(2) queues_okD(8) [OF parts(3)] by blast
    let ?q = "(w_queues w)(ThFree := xs)" and ?w = "w\<lparr>w_queues := (w_queues w)(ThFree := xs)\<rparr>"
    have rm: "queue_remove N x (w_queues w) = ?q"
      using queue_remove [OF queues_wf_only [OF wf mem]] Cons by simp
    have nl: "\<not> linked (PctxQueue a) ?q" using not_linked_removed [OF wf mem] Cons a(1) by simp
    have "queues_wf ?q" using queues_wf_remove [OF wf, of ThFree x] Cons by simp
    then have "queues_ok ?w"
      using Cons by (intro queues_ok_sub [OF parts(3)]) (auto split: if_splits)
    moreover have "kept_ok {} ?w"
    proof (rule kept_okI, goal_cases)
      case (1 k s)
      have "SctxQueue k \<in> set (w_queues w h)" if "SctxQueue k \<in> set (?q h)" for h
        using that Cons by (auto split: if_splits)
      then have "\<not> linked (SctxQueue k) ?q" if "\<not> linked (SctxQueue k) (w_queues w)"
        using that unfolding linked_def by blast
      then show ?case using 1 kept_okD [OF parts(4), of k s] by simp
    qed
    ultimately have "winv ?w" using inv by (intro winv_queues)
    from winv_occupy [OF this _ \<open>a \<noteq> NULL\<close>, of r] nl
    have "winv (w\<lparr>w_pctxs := (w_pctxs w)(a \<mapsto> r), w_queues := ?q(ThOccupied := w_queues w ThOccupied @ [x])\<rparr>)"
      "pending (w\<lparr>w_pctxs := (w_pctxs w)(a \<mapsto> r), w_queues := ?q(ThOccupied := w_queues w ThOccupied @ [x])\<rparr>) = pending w @ [r]"
      using a(1) pending_frame [of ?w w] by simp_all
    then show ?thesis
      using Cons a \<open>a \<noteq> NULL\<close> rm nl
      by (intro that [of "?q(ThOccupied := w_queues w ThOccupied @ [x])" "(w_pctxs w)(a \<mapsto> r)"])
        (auto simp: def queue_head queue_insert_tail Let_def)
  qed
qed

lemma finished_task_frame [simp]:
  "finished_task (w\<lparr>w_pctxs := ps, w_queues := q\<rparr>) = finished_task w"
  "finished_task (w\<lparr>w_task_active := a\<rparr>) = finished_task w"
  by (simp_all add: finished_task_def fun_eq_iff split: option.split)

lemma pctx_alloc_step:
  assumes "pctx_alloc_ok E i w" "dom ps \<subseteq> insert (sys_alloc E i) (dom (w_pctxs w))" "NULL \<notin> dom ps"
  shows "pctx_alloc_ok E (Suc i) (w\<lparr>w_pctxs := ps, w_queues := q\<rparr>)"
proof -
  have "sys_alloc E j \<notin> dom ps" if "Suc i \<le> j" "sys_alloc E j \<noteq> NULL" for j
  proof
    assume "sys_alloc E j \<in> dom ps"
    then have "sys_alloc E j = sys_alloc E i \<or> sys_alloc E j \<in> dom (w_pctxs w)" using assms(2) by blast
    then show False using assms(1) that unfolding pctx_alloc_ok_def by (metis Suc_leD Suc_n_not_le_n)
  qed
  then show ?thesis using assms(1) by (simp add: pctx_alloc_ok_def)
qed

lemma post_finished_ok:
  assumes "winv w" "pctx_alloc_ok E i w"
    "\<And>j. i \<le> j \<Longrightarrow> j < i + n \<Longrightarrow> finished_task w j = Some (f j)"
  shows "\<exists>ps q rs. post_finished N E i n w = Some (w\<lparr>w_pctxs := ps, w_queues := q\<rparr>) \<and>
     winv (w\<lparr>w_pctxs := ps, w_queues := q\<rparr>) \<and>
     pending (w\<lparr>w_pctxs := ps, w_queues := q\<rparr>) = pending w @ rs \<and> subseq rs (map f [i..<i + n]) \<and>
     ((\<forall>j<i + n. sys_alloc E j \<noteq> NULL) \<longrightarrow> rs = map f [i..<i + n])"
  using assms
proof (induction n arbitrary: i w)
  case 0
  have "w\<lparr>w_pctxs := w_pctxs w, w_queues := w_queues w\<rparr> = w" by simp
  with 0 show ?case by (intro exI [of _ "w_pctxs w"] exI [of _ "w_queues w"] exI [of _ "[]"]) simp
next
  case (Suc n)
  have "sys_alloc E i = NULL \<or> sys_alloc E i \<notin> dom (w_pctxs w)"
    using Suc.prems(2) by (auto simp: pctx_alloc_ok_def)
  then obtain ps q where w1: "ngx_grpc_cli_insert_posted_event_ctx N (sys_alloc E i) (f i) w =
      Some (w\<lparr>w_pctxs := ps, w_queues := q\<rparr>)"
    "winv (w\<lparr>w_pctxs := ps, w_queues := q\<rparr>)" "dom ps \<subseteq> insert (sys_alloc E i) (dom (w_pctxs w))"
    "pending (w\<lparr>w_pctxs := ps, w_queues := q\<rparr>) = (if w_queues w ThFree = [] \<and> sys_alloc E i = NULL then pending w else pending w @ [f i])"
    using insert_posted_ok [OF Suc.prems(1), where r = "f i" and p = "sys_alloc E i"] by metis
  let ?w1 = "w\<lparr>w_pctxs := ps, w_queues := q\<rparr>"
  have "NULL \<notin> dom ps" using queues_okD(8) [OF winv_butD(3) [OF w1(2)]] by simp
  then have al: "pctx_alloc_ok E (Suc i) ?w1" using Suc.prems(2) w1(3) by (intro pctx_alloc_step)
  have fin: "finished_task ?w1 j = Some (f j)" if "Suc i \<le> j" "j < Suc i + n" for j
    using Suc.prems(3) [of j] that by simp
  obtain ps' q' rs where w2: "post_finished N E (Suc i) n ?w1 = Some (?w1\<lparr>w_pctxs := ps', w_queues := q'\<rparr>)"
    "winv (?w1\<lparr>w_pctxs := ps', w_queues := q'\<rparr>)"
    "pending (?w1\<lparr>w_pctxs := ps', w_queues := q'\<rparr>) = pending ?w1 @ rs"
    "subseq rs (map f [Suc i..<Suc i + n])"
    "(\<forall>j<Suc i + n. sys_alloc E j \<noteq> NULL) \<longrightarrow> rs = map f [Suc i..<Suc i + n]"
    using Suc.IH [OF w1(2) al fin] by blast
  have upt: "map f [i..<i + Suc n] = f i # map f [Suc i..<Suc i + n]" by (simp add: upt_conv_Cons del: upt_Suc)
  define rs' where "rs' = (if w_queues w ThFree = [] \<and> sys_alloc E i = NULL then rs else f i # rs)"
  have "post_finished N E i (Suc n) w = Some (w\<lparr>w_pctxs := ps', w_queues := q'\<rparr>)"
    using Suc.prems(3) [of i] w1(1) w2(1) by simp
  moreover have "pending (w\<lparr>w_pctxs := ps', w_queues := q'\<rparr>) = pending w @ rs'"
    using w1(4) w2(3) by (simp add: rs'_def)
  moreover have "subseq rs' (map f [i..<i + Suc n])"
    unfolding upt using w2(4) by (auto simp: rs'_def simp del: upt_Suc)
  moreover have "rs' = map f [i..<i + Suc n]" if "\<forall>j<i + Suc n. sys_alloc E j \<noteq> NULL"
    unfolding upt using w2(5) that by (simp add: rs'_def)
  ultimately show ?case using w2(2) by auto
qed

lemma event_handler_ok:
  assumes inv: "winv w" and ok: "results_ok True w" and al: "pctx_alloc_ok E 0 w" and post: "task_post_ok E"
  defines "n \<equiv> w_finished_task_num w"
  obtains w' rs where "ngx_grpc_cli_thread_event_handler N E (w\<lparr>w_task_active := False\<rparr>) = Some w'"
    "winv w'" "results_ok False w'" "pending w' = pending w @ rs" "subseq rs (finished w)"
    "(\<forall>j<nat n. sys_alloc E j \<noteq> NULL) \<longrightarrow> rs = finished w" "kept w' = kept w"
    "w_posted w' \<longleftrightarrow> w_posted w \<or> 0 < n" "w_eng w' = w_eng w"
    "w_task_active w' \<longleftrightarrow> \<not> w_quit w \<and> \<not> w_exiting w \<and> n < int (card (kept w)) \<and>
       fst (sys_task_post E False) = NGX_OK"
    "w_heap w' = (if 0 < n then (w_heap w)(w_finished_tasks w := None) else w_heap w)"
    "w_finished_tasks w' = (if 0 < n then NULL else w_finished_tasks w)" "w_exiting w' = w_exiting w"
    "0 < n \<longrightarrow> w_finished_tasks w \<in> dom (w_heap w)"
proof -
  let ?w0 = "w\<lparr>w_task_active := False\<rparr>"
  have w0: "winv ?w0" using inv by (rule winv_frame) simp_all
  have len: "length (finished w) = nat n" and pos: "0 \<le> n" using ok by (simp_all add: results_ok_def n_def)
  have fin: "finished_task ?w0 j = Some (finished w ! j)" if "j < nat n" for j
  proof -
    have "map Some (finished w) = map (finished_task w) [0..<nat n]"
      unfolding finished_def n_def by (rule map_filter_full) (use len in \<open>simp add: finished_def n_def\<close>)
    then have "map Some (finished w) ! j = map (finished_task w) [0..<nat n] ! j" by simp
    then show ?thesis using that len by simp
  qed
  obtain ps q rs where loop: "post_finished N E 0 (nat n) ?w0 = Some (?w0\<lparr>w_pctxs := ps, w_queues := q\<rparr>)"
    "winv (?w0\<lparr>w_pctxs := ps, w_queues := q\<rparr>)"
    "pending (?w0\<lparr>w_pctxs := ps, w_queues := q\<rparr>) = pending ?w0 @ rs"
    "subseq rs (map ((!) (finished w)) [0..<0 + nat n])"
    "(\<forall>j<0 + nat n. sys_alloc E j \<noteq> NULL) \<longrightarrow> rs = map ((!) (finished w)) [0..<0 + nat n]"
    using post_finished_ok [OF w0, of E 0 "nat n" "(!) (finished w)"] al fin
    by (auto simp: pctx_alloc_ok_def)
  let ?w1 = "?w0\<lparr>w_pctxs := ps, w_queues := q\<rparr>"
  have all: "map ((!) (finished w)) [0..<0 + nat n] = finished w" using len map_nth [of "finished w"] by simp
  define w2 where "w2 = (if 0 < n then ?w1\<lparr>w_heap := (w_heap w)(w_finished_tasks w := None),
      w_finished_tasks := NULL, w_posted := True\<rparr> else ?w1)"
  have arr: "w_finished_tasks w \<in> dom (w_heap w) \<and> w_finished_tasks w \<noteq> NULL" if "0 < n"
  proof -
    have "finished_task w 0 \<noteq> None" using fin [of 0] that by simp
    then show ?thesis using ok that by (auto simp: finished_task_def results_ok_def n_def split: option.splits)
  qed
  define w' where "w' = w2\<lparr>w_task_active := \<not> w_quit w \<and> \<not> w_exiting w \<and> n < w_num w \<and>
      fst (sys_task_post E False) = NGX_OK\<rparr>"
  have "snd (sys_task_post E False) \<longleftrightarrow> fst (sys_task_post E False) = NGX_OK"
    using post by (simp add: task_post_ok_def)
  then have run: "ngx_grpc_cli_thread_event_handler N E ?w0 = Some w'"
    using loop(1) arr
    by (auto simp: ngx_grpc_cli_thread_event_handler_def w'_def w2_def n_def ngx_grpc_cli_task_num_def
        free_buf_def grpc_engine_free_def not_le)
  have inv': "winv w'" using loop(2) by (rule winv_frame) (simp_all add: w'_def w2_def)
  have pend: "pending w' = pending w @ rs"
    using loop(3) pending_frame [of ?w0 w] pending_frame [of w' ?w1] by (simp add: w'_def w2_def)
  have heap: "w_heap w' = (if 0 < n then (w_heap w)(w_finished_tasks w := None) else w_heap w)"
    by (simp add: w'_def w2_def)
  have sub: "subseq rs (finished w)" using loop(4) by (simp only: all)
  then have app: "subseq (pending w @ rs) (pending w @ finished w)" by (simp add: subseq_append')
  have "buffers_ok (w_heap w) (pending w @ finished w)" using ok by (simp add: results_ok_def)
  then have b: "buffers_ok (w_heap w) (pending w @ rs)" using app by (rule buffers_ok_subseq)
  have own: "w_finished_tasks w \<notin> set (blocks (pending w @ rs))" if "0 < n"
  proof -
    have "set (blocks rs) \<subseteq> set (blocks (finished w))"
      using list_emb_set [OF blocks_subseq [OF sub]] by blast
    then show ?thesis using ok that by (auto simp: results_ok_def n_def)
  qed
  have "list_all (res_ok (w_heap w)) (pending w @ rs)" using b by (simp add: buffers_ok_def)
  then have "list_all (res_ok (w_heap w')) (pending w @ rs)"
    by (rule list_all_res_ok_other) (use own in \<open>auto simp: heap\<close>)
  then have res: "results_ok False w'" using b pend by (simp add: results_ok_def buffers_ok_def)
  have num: "w_num w = int (card (kept w))" using task_num_card [OF winv_butD(1) [OF inv]] .
  show thesis
  proof (rule that [OF run inv' res pend sub])
    show "(\<forall>j<nat n. sys_alloc E j \<noteq> NULL) \<longrightarrow> rs = finished w" using loop(5) all by simp
    show "kept w' = kept w" by (simp add: w'_def w2_def kept_def)
    show "0 < n \<longrightarrow> w_finished_tasks w \<in> dom (w_heap w)" using arr by blast
  qed (auto simp: heap num, auto simp: w'_def w2_def num split: if_splits)
qed

end

end
