(* ===== verification/Blocking_Calls.thy ===== *)
theory Blocking_Calls
  imports Thread_Inv
begin

text \<open>
  Calls that block the worker, as the Lua library makes them while a worker starts: the engine
  runs on until the worker is woken, the first result of the queue is the answer, and
  the library copies and frees the body.  A blocking call returns and keeps the invariants,
  except when that result has neither an error nor a body.
\<close>

subsection \<open>Definitions\<close>

text \<open>What the engine does by itself.\<close>

inductive engine_step :: "engine \<Rightarrow> engine \<Rightarrow> bool" where
  goroutine: "run_goroutine G i g = Some g' \<Longrightarrow> engine_step g g'"
| timer: "engine_step g (g\<lparr>finishedTaskQueue := taskQueue_timer (finishedTaskQueue g)\<rparr>)"

text \<open>The library reads the body of a reply and frees it with \<^verbatim>\<open>ngx_grpc_cli_free_buf\<close>.\<close>

definition take_reply :: "((int \<times> string option \<times> (addr \<times> u64) option) \<times> worker) option \<Rightarrow> worker option" where
  "take_reply x =
     do { ((rc, err, out), w) \<leftarrow> x;
          case out of
            None \<Rightarrow> Some w
          | Some (data, len) \<Rightarrow> do { _ \<leftarrow> read_buf data len w; ngx_grpc_cli_free_buf data w } }"

text \<open>The reply a blocking call cannot handle.\<close>

definition empty_reply :: "engine \<Rightarrow> bool" where
  "empty_reply g \<longleftrightarrow>
     (case tq_tasks (finishedTaskQueue g) of [] \<Rightarrow> False | t # _ \<Rightarrow> tr_err t = None \<and> tr_result t = None)"

text \<open>
  The engine \<open>g\<close> at the moment it lets the worker go on, and the blocks \<^verbatim>\<open>malloc\<close> gives it then,
  for a call that reached the engine.
\<close>

definition engine_lets_go :: "engine option \<Rightarrow> engine \<Rightarrow> (nat \<Rightarrow> addr) \<Rightarrow> addr \<Rightarrow> worker \<Rightarrow> bool" where
  "engine_lets_go started g al arr w \<longleftrightarrow>
     (case started of
        None \<Rightarrow> True
      | Some g0 \<Rightarrow> engine_step\<^sup>*\<^sup>* g0 g \<and> tq_done (finishedTaskQueue g) \<and> wait_alloc_ok al arr (w\<lparr>w_eng := g\<rparr>))"

subsection \<open>Lemmas\<close>

lemma engine_steps_EngineCtxRef: "engine_step\<^sup>*\<^sup>* g g' \<Longrightarrow> EngineCtxRef g' = EngineCtxRef g"
proof (induction rule: rtranclp_induct)
  case (step y z)
  then show ?case by (auto elim!: engine_step.cases dest: goroutine_EngineCtxRef)
qed simp

text \<open>What a blocking call does with the first result it gets.\<close>

lemma blocking_call_first:
  fixes g :: engine and al :: "nat \<Rightarrow> addr"
  assumes conn: "w_ctxs w ctx = Some c" "engine_ctx c \<noteq> NULL"
    and call: "grpc_engine_call stack (engine_ctx c) meth req opt (w_eng w) = Some g0" "bg g0 = g"
    and q: "tq_done (finishedTaskQueue g)" "tq_tasks (finishedTaskQueue g) = t # ts"
    and cb: "cbytes_ok (Suc (length ts)) (w_heap w) al" and arr: "arr \<noteq> NULL" "arr \<notin> al ` {0..<Suc (length ts)}"
  obtains r h where "represents h r t" "arr \<in> dom h" "arr \<noteq> al 0" "al 0 \<noteq> NULL"
    "res_buf r \<noteq> NULL" "res_untag (res_buf r) = (if tr_err t = None \<and> tr_result t = None then NULL else al 0)"
    "ngx_grpc_cli_call_blocking N el stack ctx meth req opt bg al arr w =
       (let w = w\<lparr>w_eng := g\<lparr>finishedTaskQueue := NewTaskQueue\<rparr>, w_heap := h\<rparr>
        in if res_type (res_buf r) = NGX_GRPC_CLIENT_RES_TYPE_OK
           then do { w \<leftarrow> free_buf arr w; Some ((NGX_OK, None, Some (res_untag (res_buf r), res_size r)), w) }
           else do {
             guard (res_type (res_buf r) = NGX_GRPC_CLIENT_RES_TYPE_ERR);
             msg \<leftarrow> read_buf (res_untag (res_buf r)) (res_size r) w;
             w \<leftarrow> free_buf (res_untag (res_buf r)) w;
             w \<leftarrow> free_buf arr w;
             Some ((NGX_ERROR, Some (snprintf N el (string_of msg)), None), w) })"
    "\<And>p. p \<in> dom (w_heap w) \<Longrightarrow> p \<noteq> arr \<Longrightarrow> h p = w_heap w p" "al 0 \<notin> dom (w_heap w)"
proof -
  note al = cbytes_okD [OF cb]
  let ?e = "w_host w" and ?rs = "wait_results al 0 (t # ts)"
  let ?r = "fst (wait_result (al 0) t Map.empty)" and ?v = "snd (wait_loop (w_host w) al 0 (t # ts) [] (w_heap w))"
  let ?out = "concat (map (encode_task_res ?e) ?rs)"
  let ?h = "?v(arr \<mapsto> ?out)"
  have neq: "arr \<noteq> al 0" "al 0 \<noteq> NULL" "al 0 AND 7 = 0" using arr(2) al(2,4) [of 0] by auto
  have "represents ?v (?rs ! 0) ((t # ts) ! 0)"
    by (rule wait_loop_represents) (use al in auto)
  then have rep0: "represents ?v ?r t" by simp
  have rep: "represents ?h ?r t" by (rule wait_result_block [OF neq(3) rep0]) (use neq in simp)
  have untag: "res_untag (res_buf ?r) = (if tr_err t = None \<and> tr_result t = None then NULL else al 0)"
    by (rule wait_result_untag [OF neq(3)])
  have buf: "res_buf ?r \<noteq> NULL" using represents_res_ok [OF rep neq(3,2)] by (simp add: res_ok_def)
  have "read_task_res ?e ?out 0 = Some ?r" using read_task_res_nth [of 0 ?rs ?e] by simp
  moreover have "grpc_engine_wait ?e al arr g (w_heap w) =
      Some ((arr, int (Suc (length ts))), g\<lparr>finishedTaskQueue := NewTaskQueue\<rparr>, ?h)"
    using q by (simp add: grpc_engine_wait_def taskQueue_Wait_eq del: wait_loop.simps wait_results.simps)
  moreover have "?h p = w_heap w p" if "p \<in> dom (w_heap w)" "p \<noteq> arr" for p
    using wait_loop_heap_other [of 0 "t # ts" al p ?e "[]" "w_heap w"] al(3) that by auto
  moreover have "al 0 \<notin> dom (w_heap w)" using al(3) [of 0] by simp
  ultimately show thesis
    using conn call buf rep untag neq(1,2)
    by (intro that [of ?h ?r])
      (simp_all add: ngx_grpc_cli_call_blocking_def Let_def
        del: wait_loop.simps wait_results.simps)
qed


text \<open>What is left of a blocking call: the engine has run, blocks may have been added to the heap.\<close>

definition blocking_left :: "worker \<Rightarrow> worker \<Rightarrow> bool" where
  "blocking_left w w' \<longleftrightarrow>
     w' = w\<lparr>w_eng := w_eng w', w_heap := w_heap w'\<rparr> \<and> EngineCtxRef (w_eng w') = EngineCtxRef (w_eng w) \<and>
     (\<forall>p \<in> dom (w_heap w). w_heap w' p = w_heap w p)"

lemma blocking_left_ok:
  assumes "blocking_left w w'" "winv w" "results_ok d w"
  shows "winv w'" "results_ok d w'"
proof -
  have eq: "w' = w\<lparr>w_eng := w_eng w', w_heap := w_heap w'\<rparr>" and ref: "EngineCtxRef (w_eng w') = EngineCtxRef (w_eng w)"
    and heap: "\<And>p. p \<in> dom (w_heap w) \<Longrightarrow> w_heap w' p = w_heap w p"
    using assms(1) unfolding blocking_left_def by blast+
  show "winv w'" by (rule winv_frame [OF assms(2)]) (subst eq, simp add: ref)+
  show "results_ok d w'" by (subst eq) (rule results_ok_heap [OF assms(3) heap])
qed

lemma blocking_ok:
  assumes inv: "winv w" and c: "w_ctxs w ctx = Some c" and opt: "call_opt_ok opt"
    and go: "engine_lets_go (grpc_engine_call stack (engine_ctx c) meth req opt (w_eng w)) g al arr w"
    and x: "x = take_reply (ngx_grpc_cli_call_blocking N el stack ctx meth req opt (\<lambda>_. g) al arr w)"
  obtains w' where "x = Some w'" "blocking_left w w'" | "x = None" "empty_reply g"
proof (cases "engine_ctx c = NULL")
  case True
  then have "x = Some w" using c by (simp add: x ngx_grpc_cli_call_blocking_def take_reply_def)
  then show ?thesis by (rule that(1)) (simp add: blocking_left_def)
next
  case False
  obtain i where "EngineCtxRef (w_eng w) (engine_ctx c) = Some i"
    using conns_okD(1) [OF winv_butD(5) [OF inv] c False] by blast
  then obtain g0 where call: "grpc_engine_call stack (engine_ctx c) meth req opt (w_eng w) = Some g0"
    "EngineCtxRef g0 = EngineCtxRef (w_eng w)"
    using call_option_ok [OF opt] by (auto simp: grpc_engine_call_def mustFind_def spawn_def)
  have run: "engine_step\<^sup>*\<^sup>* g0 g" and woken: "tq_done (finishedTaskQueue g)"
    and al: "wait_alloc_ok al arr (w\<lparr>w_eng := g\<rparr>)"
    using go by (simp_all add: engine_lets_go_def call)
  have ref: "EngineCtxRef g = EngineCtxRef (w_eng w)" using engine_steps_EngineCtxRef [OF run] call(2) by simp
  show ?thesis
  proof (cases "tq_tasks (finishedTaskQueue g)")
    case Nil
    then have "x = Some (w\<lparr>w_eng := g\<lparr>finishedTaskQueue := NewTaskQueue\<rparr>\<rparr>)"
      using c False call(1) woken
      by (simp add: x ngx_grpc_cli_call_blocking_def grpc_engine_wait_def taskQueue_Wait_eq take_reply_def)
    then show ?thesis by (rule that(1)) (simp add: blocking_left_def ref)
  next
    case (Cons t ts)
    have cb: "cbytes_ok (Suc (length ts)) (w_heap w) al" and arr: "arr \<noteq> NULL" "arr \<notin> dom (w_heap w)"
      "arr \<notin> al ` {0..<Suc (length ts)}"
      using al Cons by (auto simp: wait_alloc_ok_def)
    show ?thesis
    proof (rule blocking_call_first [where bg = "\<lambda>_. g" and g = g, OF c False call(1) refl woken Cons cb arr(1,3),
          of N el], goal_cases)
      case (1 r h)
      have sz: "unat (of_nat n :: u64) \<le> n" for n by (simp add: unat_of_nat)
      have keep: "blocking_left w (w\<lparr>w_eng := g\<lparr>finishedTaskQueue := NewTaskQueue\<rparr>, w_heap := h(arr := None, al 0 := None)\<rparr>)"
        using 1(8,9) arr(2) by (auto simp: blocking_left_def ref)
      show ?thesis
      proof (cases "tr_err t = None \<and> tr_result t = None")
        case True
        then have "x = None" using 1 by (simp add: x take_reply_def represents_def Let_def)
        then show ?thesis using True Cons by (intro that(2)) (simp_all add: empty_reply_def)
      next
        case some: False
        then have "x = Some (w\<lparr>w_eng := g\<lparr>finishedTaskQueue := NewTaskQueue\<rparr>, w_heap := h(arr := None, al 0 := None)\<rparr>)"
          using 1 arr(1) sz
          by (auto simp: x take_reply_def represents_def Let_def free_buf_def grpc_engine_free_def read_buf_def
              ngx_grpc_cli_free_buf_def fun_upd_twist split: option.splits)
        then show ?thesis using keep by (rule that(1))
      qed
    qed
  qed
qed

end
