(* ===== verification/Worker_Steps.thy ===== *)
theory Worker_Steps
  imports Blocking_Calls
begin

text \<open>
  The worker process as a transition system: the calls of \<open>Client_Calls\<close>, blocking calls, the
  background thread, its completion event, the posted event, expiring timers and shutdown signals,
  in any order.  The state adds to the worker what the thread has left for its completion
  event.  Every reachable state satisfies the invariants, and a step from it keeps them or
  is one of three faults (\<open>known_fault\<close>).
\<close>

subsection \<open>Definitions\<close>

text \<open>A worker process before \<^verbatim>\<open>ngx_grpc_cli_init_worker\<close>.\<close>

definition fresh_worker :: "byte_order \<Rightarrow> ngx_grpc_client_conf \<Rightarrow> worker" where
  "fresh_worker host conf = \<lparr>w_host = host, w_conf = conf, w_quit = False, w_exiting = False,
     w_terminate = False, w_task_active = False, w_posted = False, w_finished_tasks = NULL,
     w_finished_task_num = 0, w_pctxs = Map.empty, w_tree = Sentinel, w_num = 0,
     w_ctxs = Map.empty, w_sctxs = Map.empty, w_queues = (\<lambda>_. []), w_http = Map.empty,
     w_stream = Map.empty, w_cos = Map.empty, w_lua = [], w_heap = Map.empty, w_eng = engine_init\<rparr>"

text \<open>
  Whether a completion event is to come, and what the thread has left for it: the collected
  results, or an array it has freed because the worker shuts down.
\<close>

datatype thread_phase = Waiting | Collected | Freed

type_synonym sys_state = "worker \<times> thread_phase"

datatype step_label =
    LibCall call_op
  | Blocking engine
  | ThreadRuns
  | Completion
  | PostedEvent
  | TimerExpires
  | ShutdownSignal

text \<open>
  The outcome of a step is \<open>None\<close> when it faults.  Blocking calls are made while the worker starts
  (\<^verbatim>\<open>ngx.get_phase() == "init_worker"\<close> in the library), so not while it shuts down; their label is the
  engine at the moment it lets the worker go on.  nginx never clears \<^verbatim>\<open>ngx_exiting\<close> and \<^verbatim>\<open>ngx_terminate\<close>.
\<close>

inductive worker_step :: "ngx_api \<Rightarrow> lua_api \<Rightarrow> sys_state \<Rightarrow> step_label \<Rightarrow> sys_state option \<Rightarrow> bool"
  for N :: ngx_api and L :: lua_api
where
  client:
    "client_call N e w x \<Longrightarrow> worker_step N L (w, ph) (LibCall e) (map_option (\<lambda>w'. (w', ph)) x)"
| blocking:
    "held_conn w ctx \<Longrightarrow> w_ctxs w ctx = Some c \<Longrightarrow> call_opt_ok opt \<Longrightarrow> \<not> w_exiting w \<Longrightarrow> \<not> w_terminate w \<Longrightarrow>
     engine_lets_go (grpc_engine_call stack (engine_ctx c) meth req opt (w_eng w)) g al arr w \<Longrightarrow>
     worker_step N L (w, ph) (Blocking g) (map_option (\<lambda>w'. (w', ph))
       (take_reply (ngx_grpc_cli_call_blocking N el stack ctx meth req opt (\<lambda>_. g) al arr w)))"
| thread:
    "w_task_active w \<Longrightarrow> tq_done (finishedTaskQueue (w_eng w)) \<Longrightarrow> wait_alloc_ok al arr w \<Longrightarrow>
     worker_step N L (w, Waiting) ThreadRuns
       (map_option (\<lambda>w'. (w', if w_exiting w \<or> w_terminate w then Freed else Collected))
          (ngx_grpc_cli_thread_handler al arr w))"
| completion:
    "ph \<noteq> Waiting \<Longrightarrow> pctx_alloc_ok E 0 w \<Longrightarrow> task_post_ok E \<Longrightarrow>
     worker_step N L (w, ph) Completion
       (map_option (\<lambda>w'. (w', Waiting)) (ngx_grpc_cli_thread_event_handler N E (w\<lparr>w_task_active := False\<rparr>)))"
| posted:
    "w_posted w \<Longrightarrow>
     worker_step N L (w, ph) PostedEvent
       (map_option (\<lambda>w'. (w', ph)) (ngx_grpc_cli_thread_post_event_handler N L (w\<lparr>w_posted := False\<rparr>)))"
| timer:
    "w_cos w p = Some c \<Longrightarrow> ev_timer_set (co_sleep c) \<Longrightarrow> ev_handler (co_sleep c) = TimeoutHandler \<Longrightarrow>
     worker_step N L (w, ph) TimerExpires
       (map_option (\<lambda>w'. (w', ph)) (ngx_grpc_cli_timeout_handler N L (ev_data (co_sleep c))
          (w\<lparr>w_cos := (w_cos w)(p \<mapsto> c\<lparr>co_sleep := (co_sleep c)\<lparr>ev_timer_set := False\<rparr>\<rparr>)\<rparr>)))"
| signal:
    "w_exiting w \<longrightarrow> e \<Longrightarrow> w_terminate w \<longrightarrow> t \<Longrightarrow>
     worker_step N L (w, ph) ShutdownSignal (Some (w\<lparr>w_quit := q, w_exiting := e, w_terminate := t\<rparr>, ph))"

inductive reachable :: "ngx_api \<Rightarrow> lua_api \<Rightarrow> sys_state \<Rightarrow> bool" for N :: ngx_api and L :: lua_api where
  start: "reachable N L (snd (ngx_grpc_cli_init_worker N D (fresh_worker host conf)), Waiting)"
| step: "reachable N L s \<Longrightarrow> worker_step N L s e (Some s') \<Longrightarrow> reachable N L s'"

text \<open>What the thread has left is accounted for.\<close>

definition phase_ok :: "thread_phase \<Rightarrow> worker \<Rightarrow> bool" where
  "phase_ok ph w \<longleftrightarrow>
     results_ok (ph = Collected) w \<and>
     (ph = Freed \<longrightarrow> (w_exiting w \<or> w_terminate w) \<and> 0 \<le> w_finished_task_num w \<and>
        (0 < w_finished_task_num w \<longrightarrow> w_finished_tasks w \<notin> dom (w_heap w)))"

definition sys_inv :: "sys_state \<Rightarrow> bool" where
  "sys_inv s \<longleftrightarrow> winv (fst s) \<and> phase_ok (snd s) (fst s)"

text \<open>
  The steps that may fault: an operation on a stream the engine does not know, a blocking call
  whose reply has neither an error nor a body, and the completion event of a worker that shuts
  down and had results.
\<close>

fun known_fault :: "sys_state \<Rightarrow> step_label \<Rightarrow> bool" where
  "known_fault (w, ph) (LibCall (StreamOp k)) \<longleftrightarrow> StreamRef (w_eng w) k = None"
| "known_fault (w, ph) (Blocking g) \<longleftrightarrow> empty_reply g"
| "known_fault (w, Freed) Completion \<longleftrightarrow> 0 < w_finished_task_num w"
| "known_fault s e \<longleftrightarrow> False"

inductive_cases worker_stepE: "worker_step N L s e x"

subsection \<open>The initial state\<close>

lemma sys_inv_start:
  assumes "ngx_laws N"
  shows "sys_inv (snd (ngx_grpc_cli_init_worker N D (fresh_worker host conf)), Waiting)"
proof -
  let ?w = "snd (ngx_grpc_cli_init_worker N D (fresh_worker host conf))"
  note init = ngx_queue_laws.queue_init [OF ngx_laws.axioms(1) [OF assms]]
  have sel: "w_tree ?w = Sentinel" "w_num ?w = 0" "w_sctxs ?w = Map.empty" "w_cos ?w = Map.empty"
    "w_ctxs ?w = Map.empty" "w_pctxs ?w = Map.empty" "w_queues ?w = (\<lambda>_. [])"
    by (simp_all add: ngx_grpc_cli_init_worker_def ngx_grpc_cli_thread_def fresh_worker_def
        upd_queues_def init Let_def fun_eq_iff)
  have "winv ?w"
    by (simp add: winv_but_def tasks_ok_def waits_ok_def queues_ok_def queues_wf_def kept_ok_def
        conns_ok_def sel)
  moreover have "results_ok False ?w"
    by (simp add: results_ok_def buffers_ok_def pending_def map_filter_simps sel)
  ultimately show ?thesis by (simp add: sys_inv_def phase_ok_def)
qed

subsection \<open>Every step\<close>

context lua_laws
begin

lemma winv_flags:
  "winv w \<Longrightarrow> winv (w\<lparr>w_quit := q, w_exiting := e, w_terminate := t\<rparr>)"
  "winv w \<Longrightarrow> winv (w\<lparr>w_posted := b\<rparr>)"
  by (erule winv_frame, simp_all)+

lemma results_ok_flags:
  "results_ok d (w\<lparr>w_quit := q, w_exiting := e, w_terminate := t\<rparr>) = results_ok d w"
  "results_ok d (w\<lparr>w_posted := b\<rparr>) = results_ok d w"
proof -
  have "finished (w\<lparr>w_quit := q, w_exiting := e, w_terminate := t\<rparr>) = finished w"
    "finished (w\<lparr>w_posted := b\<rparr>) = finished w"
    by (rule finished_frame; simp)+
  moreover have "pending (w\<lparr>w_quit := q, w_exiting := e, w_terminate := t\<rparr>) = pending w"
    "pending (w\<lparr>w_posted := b\<rparr>) = pending w"
    by (rule pending_frame; simp)+
  ultimately show "results_ok d (w\<lparr>w_quit := q, w_exiting := e, w_terminate := t\<rparr>) = results_ok d w"
    "results_ok d (w\<lparr>w_posted := b\<rparr>) = results_ok d w"
    by (cases d; simp add: results_ok_def)+
qed

lemma phase_ok_keep:
  assumes "phase_ok ph w" "results_ok (ph = Collected) w'" "shutdown_same w w'" "dom (w_heap w') \<subseteq> dom (w_heap w)"
  shows "phase_ok ph w'"
  using assms by (auto simp: phase_ok_def shutdown_same_def)

lemma phase_ok_frame:
  assumes "phase_ok ph w" "thread_same w w'"
  shows "phase_ok ph w'"
proof (rule phase_ok_keep [OF assms(1) _ thread_same_shutdown(1) [OF assms(2)]])
  show "results_ok (ph = Collected) w'" using assms by (intro results_ok_frame [OF _ assms(2)]) (simp add: phase_ok_def)
qed (use assms(2) in \<open>simp add: thread_same_def\<close>)

text \<open>A completion event that finds no results is the same after both branches of the thread.\<close>

lemma freed_results_ok:
  assumes "phase_ok ph w" "ph \<noteq> Waiting" "ph = Freed \<longrightarrow> w_finished_task_num w \<le> 0"
  shows "results_ok True (w\<lparr>w_task_active := True\<rparr>)"
proof -
  let ?w = "w\<lparr>w_task_active := True\<rparr>"
  have same: "finished ?w = finished w" "pending ?w = pending w" by (rule finished_frame pending_frame; simp)+
  show ?thesis
    using assms same by (cases ph) (auto simp: phase_ok_def results_ok_def finished_def map_filter_simps)
qed

text \<open>The steps with more than one outcome, one by one.\<close>

lemma blocking_step:
  assumes "sys_inv (w, ph)" "w_ctxs w ctx = Some c" "call_opt_ok opt" "\<not> w_exiting w" "\<not> w_terminate w"
    "engine_lets_go (grpc_engine_call stack (engine_ctx c) meth req opt (w_eng w)) g al arr w"
  shows "case take_reply (ngx_grpc_cli_call_blocking N el stack ctx meth req opt (\<lambda>_. g) al arr w) of
      Some w' \<Rightarrow> sys_inv (w', ph) | None \<Rightarrow> empty_reply g"
proof -
  have w: "winv w" "phase_ok ph w" using assms(1) by (simp_all add: sys_inv_def)
  show ?thesis
  proof (rule blocking_ok [OF w(1) assms(2,3,6) refl, of N el], goal_cases)
    case (1 w')
    have "winv w'" "results_ok (ph = Collected) w'"
      using blocking_left_ok [OF 1(2) w(1), of "ph = Collected"] w(2) by (simp_all add: phase_ok_def)
    moreover have "ph \<noteq> Freed" using w(2) assms(4,5) by (auto simp: phase_ok_def)
    ultimately show ?case using 1(1) by (simp add: sys_inv_def phase_ok_def)
  qed simp
qed

lemma thread_step:
  assumes "sys_inv (w, Waiting)" "w_task_active w" "tq_done (finishedTaskQueue (w_eng w))" "wait_alloc_ok al arr w"
  shows "\<exists>w'. ngx_grpc_cli_thread_handler al arr w = Some w' \<and>
    sys_inv (w', if w_exiting w \<or> w_terminate w then Freed else Collected)"
proof -
  have w: "winv w" "results_ok False w" using assms(1) by (simp_all add: sys_inv_def phase_ok_def)
  show ?thesis
  proof (cases "w_exiting w \<or> w_terminate w")
    case True
    show ?thesis
    proof (rule thread_exit_ok [OF w assms(2,3) True assms(4)], goal_cases)
      case (1 w')
      have "w_exiting w' = w_exiting w" "w_terminate w' = w_terminate w" by (subst 1(6), simp)+
      with 1 True show ?case by (auto simp: sys_inv_def phase_ok_def)
    qed
  next
    case False
    show ?thesis
      by (rule thread_handler_ok [OF w assms(2,3) _ _ assms(4)])
        (use False in \<open>simp_all add: sys_inv_def phase_ok_def\<close>)
  qed
qed

lemma completion_step:
  assumes "sys_inv (w, ph)" "ph \<noteq> Waiting" "pctx_alloc_ok E 0 w" "task_post_ok E"
  shows "case ngx_grpc_cli_thread_event_handler N E (w\<lparr>w_task_active := False\<rparr>) of
      Some w' \<Rightarrow> sys_inv (w', Waiting) | None \<Rightarrow> known_fault (w, ph) Completion"
proof -
  have w: "winv w" "phase_ok ph w" using assms(1) by (simp_all add: sys_inv_def)
  show ?thesis
  proof (cases "ph = Freed \<and> 0 < w_finished_task_num w")
    case True
    then show ?thesis using w(2) freed_completion_faults by (simp add: phase_ok_def)
  next
    case False
    let ?w = "w\<lparr>w_task_active := True\<rparr>"
    have "winv ?w" using w(1) by (rule winv_frame) simp_all
    moreover have "results_ok True ?w" using freed_results_ok [OF w(2) assms(2)] False by auto
    moreover have "pctx_alloc_ok E 0 ?w" using assms(3) by (simp add: pctx_alloc_ok_def)
    ultimately show ?thesis
      by (rule event_handler_ok [OF _ _ _ assms(4)]) (simp add: sys_inv_def phase_ok_def)
  qed
qed

lemma posted_step:
  assumes "sys_inv (w, ph)"
  shows "\<exists>w'. ngx_grpc_cli_thread_post_event_handler N L (w\<lparr>w_posted := False\<rparr>) = Some w' \<and> sys_inv (w', ph)"
proof -
  let ?w = "w\<lparr>w_posted := False\<rparr>"
  have w: "winv ?w" "phase_ok ph ?w"
    using assms by (simp_all add: sys_inv_def winv_flags phase_ok_def results_ok_flags)
  then have "results_ok (ph = Collected) ?w" by (simp add: phase_ok_def)
  from post_event_handler_ok [OF w(1) this] obtain w' where
    w': "ngx_grpc_cli_thread_post_event_handler N L ?w = Some w'" "winv w'" "results_ok (ph = Collected) w'"
      "w_heap w' = (\<lambda>p. if p \<in> set (blocks (pending ?w)) then None else w_heap ?w p)" "shutdown_same ?w w'"
    by blast
  have "dom (w_heap w') \<subseteq> dom (w_heap ?w)" by (auto simp: w'(4) split: if_splits)
  with w'(3,5) have "phase_ok ph w'" by (intro phase_ok_keep [OF w(2)])
  with w' show ?thesis by (simp add: sys_inv_def)
qed

theorem worker_step_ok:
  assumes "worker_step N L s e x" and inv: "sys_inv s"
  shows "case x of Some s' \<Rightarrow> sys_inv s' | None \<Rightarrow> known_fault s e"
  using assms(1)
proof cases
  case (client c w y ph)
  then have "winv w" "phase_ok ph w" using inv by (simp_all add: sys_inv_def)
  moreover have "call_ends c w y" using client(4) \<open>winv w\<close> by (rule client_call_ends)
  ultimately show ?thesis
    using phase_ok_frame by (cases y) (auto simp: client sys_inv_def call_ends_def split: call_op.splits)
next
  case (blocking w ctx c opt stack meth req g al arr ph el)
  from blocking_step [OF inv [unfolded blocking(1)] blocking(5-9), of el]
  show ?thesis by (simp add: blocking(1-3) split: option.splits)
next
  case (thread w al arr)
  from thread_step [OF inv [unfolded thread(1)] thread(4-6)] show ?thesis by (auto simp: thread(3))
next
  case (completion ph E w)
  from completion_step [OF inv [unfolded completion(1)] completion(4-6)]
  show ?thesis by (simp add: completion(1-3) split: option.splits)
next
  case (posted w ph)
  from posted_step [OF inv [unfolded posted(1)]] show ?thesis by (auto simp: posted(3))
next
  case (timer w p c ph)
  then have w: "winv w" "phase_ok ph w" "results_ok (ph = Collected) w" using inv by (simp_all add: sys_inv_def phase_ok_def)
  show ?thesis
    by (rule timeout_handler_ok [OF w(1,3) timer(4-6)])
      (simp add: timer(3) sys_inv_def phase_ok_keep [OF w(2)])
next
  case (signal w ex tm ph q)
  then have "winv w" "phase_ok ph w" using inv by (simp_all add: sys_inv_def)
  with signal(4,5) show ?thesis
    by (auto simp: signal(3) sys_inv_def winv_flags phase_ok_def results_ok_flags)
qed

lemma completion_fault:
  assumes "worker_step N L s Completion x" "sys_inv s" "known_fault s Completion"
  shows "x = None"
  using assms(1)
proof cases
  case (completion ph E w)
  then have "ph = Freed" "0 < w_finished_task_num w" using assms(3) by (cases ph; simp)+
  then show ?thesis using assms(2) freed_completion_faults by (simp add: completion sys_inv_def phase_ok_def)
qed

lemma reachable_inv: "reachable N L s \<Longrightarrow> sys_inv s"
proof (induction rule: reachable.induct)
  case (start D host conf)
  then show ?case by (rule sys_inv_start [OF ngx_laws_axioms])
next
  case (step s e s')
  then show ?case using worker_step_ok by fastforce
qed

end

end
