(* ===== verification/Examples.thy ===== *)
theory Examples
  imports Worker_Steps
begin

text \<open>
  Concrete states of the worker, at which the theorems are applied: a worker with one
  connection and one request with two coroutines (\<open>ex_idle\<close>), the same with a unary call
  (\<open>ex_wait\<close>) or a stream (\<open>ex_stream\<close>) under way, with a finished result of it queued
  (\<open>ex_posted\<close>), and with the thread's results to be collected (\<open>ex_done\<close>).
\<close>

subsection \<open>States\<close>

definition ex_conf :: ngx_grpc_client_conf where
  "ex_conf = \<lparr>engine_path = ''/usr/local/lib/libgrpc_engine.so'', conf_engine = 0x10,
     conf_thread_pool = 0x20, conf_task = 0x30\<rparr>"

definition idle_co :: co_ctx where
  "idle_co = \<lparr>co_data = NULL, co_sleep = \<lparr>ev_handler = NoHandler, ev_data = NULL, ev_timer_set = False, ev_timer = 0\<rparr>,
     co_cleanup = NoCleanup\<rparr>"

definition ex_lctx :: lua_ctx where
  "ex_lctx = \<lparr>cur_co_ctx = 0x3000, entered_content_phase = True, lua_resume_handler = WevHandler\<rparr>"

definition ex_idle :: worker where
  "ex_idle = (fresh_worker LittleEndian ex_conf)
     \<lparr>w_ctxs := [0x1000 \<mapsto> \<lparr>engine_ctx = 0x1100, free_delayed = False\<rparr>],
      w_http := [0x2000 \<mapsto> ex_lctx], w_cos := [0x3000 \<mapsto> idle_co, 0x3100 \<mapsto> idle_co],
      w_eng := engine_init\<lparr>EngineCtxRef := [0x1100 \<mapsto> 0]\<rparr>\<rparr>"

definition ex_env :: sys_env where
  "ex_env = \<lparr>sys_alloc = (\<lambda>i. if i = 0 then 0x5000 else if i = 1 then 0x6000 else NULL),
     sys_task_post = (\<lambda>a. (NGX_OK, True)), sys_check_context = (\<lambda>r. None)\<rparr>"

definition ex_opt :: CallOpt where
  "ex_opt = \<lparr>co_timeout = 60000, co_metadata_len = 0, co_metadata = []\<rparr>"

definition ex_sctx :: "int \<Rightarrow> ngx_grpc_cli_stream_ctx" where
  "ex_sctx ty = zero_sctx\<lparr>sctx_r := 0x2000, sctx_is_http := True, sctx_parent := 0x1000, sctx_type := ty\<rparr>"

definition ex_go :: CallOption where
  "ex_go = \<lparr>Timeout = 60000000000, Metadata = []\<rparr>"

text \<open>A unary call was started.\<close>

definition ex_wait :: worker where
  "ex_wait = (waiting_state list_api 0x6000 0x5000 (ex_sctx 0) 0x3000 idle_co 60000 ex_idle)
     \<lparr>w_eng := spawn (GoCall 0x5000 0 ''/s/m'' [1] ex_go) (w_eng ex_idle)\<rparr>"

text \<open>A bidirectional stream was started.\<close>

definition ex_stream :: worker where
  "ex_stream = (waiting_state list_api 0x6000 0x5000 (ex_sctx 3) 0x3000 idle_co 60000 ex_idle)
     \<lparr>w_eng := spawn (GoNewStream 0x5000 0 ''/s/m'' [1] ex_go 3) (w_eng ex_idle),
      w_queues := (w_queues ex_idle)(CtxOpening 0x1000 := [SctxQueue 0x5000])\<rparr>"

text \<open>An open stream without a task.\<close>

definition ex_open :: worker where
  "ex_open = ex_idle\<lparr>w_sctxs := [0x5000 \<mapsto> ex_sctx 3],
     w_queues := (\<lambda>_. [])(CtxOpening 0x1000 := [SctxQueue 0x5000]),
     w_eng := (w_eng ex_idle)\<lparr>StreamRef := [0x5000 \<mapsto> 0]\<rparr>\<rparr>"

definition ex_env2 :: sys_env where
  "ex_env2 = ex_env\<lparr>sys_alloc := (\<lambda>i. if i = 1 then 0x6000 else NULL)\<rparr>"

text \<open>The result of the call is queued: a body of two bytes at \<open>0x8000\<close>.\<close>

definition ex_res :: ngx_grpc_cli_task_res where
  "ex_res = \<lparr>task_id = 0x5000, res_size = 2, res_buf = 0x8000\<rparr>"

definition ex_posted :: "worker \<Rightarrow> worker" where
  "ex_posted w = w\<lparr>w_heap := [0x8000 \<mapsto> [104, 105]], w_posted := True, w_pctxs := [0x7000 \<mapsto> ex_res],
     w_queues := (w_queues w)(ThOccupied := [PctxQueue 0x7000])\<rparr>"

text \<open>The stream failed to open: the error message at \<open>0x8000\<close>, its tag in the pointer.\<close>

definition ex_err :: ngx_grpc_cli_task_res where
  "ex_err = \<lparr>task_id = 0x5000, res_size = 2, res_buf = 0x8001\<rparr>"

definition ex_failed :: worker where
  "ex_failed = ex_stream\<lparr>w_heap := [0x8000 \<mapsto> [110, 111]], w_posted := True, w_pctxs := [0x7000 \<mapsto> ex_err],
     w_queues := (w_queues ex_stream)(ThOccupied := [PctxQueue 0x7000])\<rparr>"

text \<open>The engine has reported two results, one for the call and one for a task that is not kept.\<close>

definition ex_reported :: worker where
  "ex_reported = ex_wait\<lparr>w_eng := ReportFinishedTask 0x5000 (Some [104, 105]) None
     (ReportFinishedTask 0x4000 None (Some ''late'') (w_eng ex_wait))\<rparr>"

text \<open>Only the result of the task that is not kept was reported.\<close>

definition ex_late :: worker where
  "ex_late = ex_wait\<lparr>w_eng := ReportFinishedTask 0x4000 None (Some ''late'') (w_eng ex_wait)\<rparr>"

definition ex_al :: "nat \<Rightarrow> addr" where
  "ex_al i = 0x8000 + 16 * of_nat i"

definition ex_done :: worker where
  "ex_done = the (ngx_grpc_cli_thread_handler ex_al 0x9000 ex_reported)"

definition ex_late_done :: worker where
  "ex_late_done = the (ngx_grpc_cli_thread_handler ex_al 0x9000 ex_late)"

definition ex_replied :: engine where
  "ex_replied = ReportFinishedTask 0x7f00 (Some [1]) None (w_eng ex_idle)"

text \<open>Allocations for posted event contexts.\<close>

definition ex_penv :: sys_env where
  "ex_penv = ex_env\<lparr>sys_alloc := (\<lambda>i. if i = 0 then 0x7000 else if i = 1 then 0x7100 else NULL)\<rparr>"

text \<open>A loader that finds everything, and the options of an insecure connection.\<close>

definition ex_load :: load_env where
  "ex_load = \<lparr>main_conf_found = True, dlopen_handle = 0x10, dlsym_found = (\<lambda>_. True),
     thread_pool_get = 0x20, thread_task_alloc = 0x30, posted_ev_alloc = 0x40\<rparr>"

definition ex_dial :: DialOpt where
  "ex_dial = \<lparr>d_insecure = True, d_tls_verify = True, d_max_recv_msg_size = 0, d_client_cert = [],
     d_client_key = [], d_trusted_ca = []\<rparr>"

subsection \<open>They satisfy the invariants\<close>

lemma ex_idle_winv: "winv ex_idle"
  by (auto simp: winv_but_def tasks_ok_def waits_ok_def queues_ok_def queues_wf_def kept_ok_def
      conns_ok_def ex_idle_def fresh_worker_def idle_co_def armed_def engine_init_def split: if_splits)

lemma ex_env_ok: "env_ok ex_env ex_idle"
  by (auto simp: env_ok_def ex_env_def fresh_alloc_def live_addrs_def ex_idle_def fresh_worker_def
      engine_init_def task_post_ok_def)

lemma ex_can_wait: "can_wait ex_idle True 0x2000"
  by (simp add: can_wait_def ex_idle_def fresh_worker_def ex_conf_def request_ctx_def ex_lctx_def
      idle_co_def armed_def)

lemma ex_opt_ok: "call_opt_ok ex_opt"
  by (simp add: call_opt_ok_def ex_opt_def)

lemma ex_held: "held_conn ex_idle 0x1000"
  by (simp add: held_conn_def ex_idle_def)

lemma ex_go_eq: "call_option ex_opt = Some ex_go" "co_timeout ex_opt = 60000"
  by (simp_all add: call_option_def convertMetadata_def ex_opt_def ex_go_def)

lemmas ex_run = ngx_grpc_cli_new_stream_def take_stream_ctx_def ngx_grpc_cli_kick_off_task_def
  ngx_grpc_cli_schedule_task_thread_if_needed_def ngx_grpc_cli_keep_task_def arm_wait_co_ctx_def
  submit_task_def grpc_engine_call_def grpc_engine_new_stream_def mustFind_def upd_queues_def

lemmas ex_states = ex_idle_def fresh_worker_def ex_conf_def ex_lctx_def ex_env_def ex_sctx_def
  engine_init_def waiting_state_def list_api_def

lemma ex_wait_run:
  "ngx_grpc_cli_new_stream list_api ex_env 512 0x2000 True 0x1000 ''/s/m'' [1] ex_opt STREAM_TYPE_UNARY ex_idle =
     Some ((0x5000, None), ex_wait)"
  by (simp add: ex_run ex_go_eq ex_wait_def ex_states idle_co_def zero_sctx_def Let_def)

lemma ex_stream_run:
  "ngx_grpc_cli_new_stream list_api ex_env 512 0x2000 True 0x1000 ''/s/m'' [1] ex_opt 3 ex_idle =
     Some ((0x5000, None), ex_stream)"
  by (simp add: ex_run ex_go_eq ex_stream_def ex_states idle_co_def zero_sctx_def Let_def)

lemma ex_started_winv: "winv ex_wait" "winv ex_stream"
proof -
  have "client_call list_api OtherCall ex_idle (map_option snd (ngx_grpc_cli_new_stream list_api ex_env 512 0x2000 True
      0x1000 ''/s/m'' [1] ex_opt ty ex_idle))" for ty
    using ex_held ex_env_ok ex_can_wait ex_opt_ok by (rule client_call.new_stream)
  from this [of STREAM_TYPE_UNARY] this [of 3]
  have "client_call list_api OtherCall ex_idle (Some ex_wait)" "client_call list_api OtherCall ex_idle (Some ex_stream)"
    by (simp_all add: ex_wait_run ex_stream_run)
  then show "winv ex_wait" "winv ex_stream"
    using list_api.client_call_ok [OF _ ex_idle_winv] by blast+
qed

lemma ex_open_ok:
  "winv ex_open" "env_ok ex_env2 ex_open" "open_stream ex_open 0x5000" "can_wait ex_open True 0x2000"
  "w_sctxs ex_open 0x5000 = Some (ex_sctx 3)" "StreamRef (w_eng ex_open) 0x5000 = Some 0"
proof -
  show "winv ex_open"
    by (auto simp: winv_but_def tasks_ok_def waits_ok_def queues_ok_def queues_wf_def kept_ok_def
        conns_ok_def ex_open_def ex_idle_def fresh_worker_def idle_co_def armed_def engine_init_def
        ex_sctx_def zero_sctx_def split: if_splits)
  show "env_ok ex_env2 ex_open"
    by (auto simp: env_ok_def ex_env2_def ex_env_def fresh_alloc_def live_addrs_def ex_open_def ex_idle_def
        fresh_worker_def engine_init_def task_post_ok_def)
  show "can_wait ex_open True 0x2000"
    by (simp add: can_wait_def ex_open_def ex_idle_def fresh_worker_def ex_conf_def request_ctx_def ex_lctx_def
        idle_co_def armed_def)
  show "open_stream ex_open 0x5000" by (simp add: open_stream_def ex_open_def ex_sctx_def)
qed (simp_all add: ex_open_def)

lemma ex_sel:
  "w_sctxs ex_wait = [0x5000 \<mapsto> (ex_sctx 0)\<lparr>sctx_node := 0x6000, sctx_wait_co_ctx := 0x3000\<rparr>]"
  "w_sctxs ex_stream = [0x5000 \<mapsto> (ex_sctx 3)\<lparr>sctx_node := 0x6000, sctx_wait_co_ctx := 0x3000\<rparr>]"
  "w_cos ex_wait 0x3000 = Some \<lparr>co_data = 0x5000, co_sleep = \<lparr>ev_handler = TimeoutHandler, ev_data = 0x5000,
     ev_timer_set = True, ev_timer = 60000\<rparr>, co_cleanup = HttpCleanup\<rparr>"
  "w_queues ex_wait = (\<lambda>_. [])" "w_heap ex_wait = Map.empty" "w_pctxs ex_wait = Map.empty"
  "w_lua ex_wait = []" "w_num ex_wait = 1" "w_task_active ex_wait" "w_host ex_wait = LittleEndian"
  "finishedTaskQueue (w_eng ex_wait) = NewTaskQueue" "w_finished_task_num ex_wait = 0"
  "\<not> w_exiting ex_wait" "\<not> w_terminate ex_wait" "\<not> w_quit ex_wait"
  by (simp_all add: ex_wait_def ex_stream_def ex_states spawn_def zero_sctx_def idle_co_def)

lemma ex_kept: "kept ex_wait = {0x5000}" "kept ex_stream = {0x5000}" "kept ex_idle = {}"
  by (auto simp: kept_def ex_sel ex_states split: if_splits)

lemma ex_posted_winv: "winv (ex_posted ex_wait)" "results_ok False (ex_posted ex_wait)"
proof -
  have "winv (ex_wait\<lparr>w_pctxs := (w_pctxs ex_wait)(0x7000 \<mapsto> ex_res),
      w_queues := (w_queues ex_wait)(ThOccupied := w_queues ex_wait ThOccupied @ [PctxQueue 0x7000])\<rparr>)"
    using ex_started_winv(1) by (rule winv_occupy(1)) (simp_all add: linked_def ex_sel)
  then show "winv (ex_posted ex_wait)"
    by (rule winv_frame) (simp_all add: ex_posted_def ex_sel)
  show "results_ok False (ex_posted ex_wait)"
    by (simp add: results_ok_def buffers_ok_def pending_def ex_posted_def ex_sel map_filter_simps res_ok_def
        ex_res_def res_type_def res_untag_alt)
qed

lemma ex_failed_ok: "winv ex_failed" "results_ok False ex_failed"
proof -
  have sel: "w_pctxs ex_stream = Map.empty" "w_queues ex_stream ThOccupied = []"
    "\<And>p. \<not> linked (PctxQueue p) (w_queues ex_stream)"
    by (simp_all add: ex_stream_def ex_states linked_def)
  have "winv (ex_stream\<lparr>w_pctxs := (w_pctxs ex_stream)(0x7000 \<mapsto> ex_err),
      w_queues := (w_queues ex_stream)(ThOccupied := w_queues ex_stream ThOccupied @ [PctxQueue 0x7000])\<rparr>)"
    using ex_started_winv(2) by (rule winv_occupy(1)) (simp_all add: sel)
  then show "winv ex_failed"
    by (rule winv_frame) (simp_all add: ex_failed_def sel)
  show "results_ok False ex_failed"
    by (simp add: results_ok_def buffers_ok_def pending_def ex_failed_def map_filter_simps res_ok_def
        ex_err_def res_type_def res_untag_alt)
qed

lemma ex_reported_sel:
  "tq_tasks (finishedTaskQueue (w_eng ex_reported)) =
     [\<lparr>tr_id = 0x4000, tr_result = None, tr_err = Some ''late''\<rparr>,
      \<lparr>tr_id = 0x5000, tr_result = Some [104, 105], tr_err = None\<rparr>]"
  "tq_done (finishedTaskQueue (w_eng ex_reported))"
  "tq_tasks (finishedTaskQueue (w_eng ex_late)) = [\<lparr>tr_id = 0x4000, tr_result = None, tr_err = Some ''late''\<rparr>]"
  "tq_done (finishedTaskQueue (w_eng ex_late))"
  by (simp_all add: ex_reported_def ex_late_def ex_sel NewTaskQueue_def)

text \<open>What the thread needs holds in both states.\<close>

lemma ex_thread_ok:
  assumes "w = ex_reported \<or> w = ex_late"
  shows "winv w" "results_ok False w" "w_task_active w" "tq_done (finishedTaskQueue (w_eng w))"
    "\<not> w_exiting w" "\<not> w_terminate w" "wait_alloc_ok ex_al 0x9000 w" "kept w = {0x5000}"
proof -
  show "winv w" by (rule winv_frame [OF ex_started_winv(1)]) (use assms in \<open>auto simp: ex_reported_def ex_late_def\<close>)
  show "results_ok False w" "kept w = {0x5000}" "w_task_active w" "\<not> w_exiting w" "\<not> w_terminate w"
    using assms ex_kept(1)
    by (auto simp: results_ok_def buffers_ok_def pending_def ex_reported_def ex_late_def ex_sel map_filter_simps kept_def)
  show "tq_done (finishedTaskQueue (w_eng w))" using assms ex_reported_sel by auto
  have "cbytes_ok 2 Map.empty ex_al" "(0x9000 :: addr) \<notin> set (map ex_al [0..<2])"
    "cbytes_ok 1 Map.empty ex_al" "(0x9000 :: addr) \<notin> set (map ex_al [0..<1])"
    by (simp_all add: cbytes_ok_def upt_rec ex_al_def)
  moreover have "w_heap w = Map.empty" using assms by (auto simp: ex_reported_def ex_late_def ex_sel)
  moreover have "length (tq_tasks (finishedTaskQueue (w_eng ex_reported))) = 2"
    "length (tq_tasks (finishedTaskQueue (w_eng ex_late))) = 1"
    by (simp_all only: ex_reported_sel) simp_all
  ultimately show "wait_alloc_ok ex_al 0x9000 w" using assms by (auto simp: wait_alloc_ok_def Let_def)
qed

lemma ex_done_ok:
  "ngx_grpc_cli_thread_handler ex_al 0x9000 ex_reported = Some ex_done" "winv ex_done" "results_ok True ex_done"
  "map task_id (finished ex_done) = [0x4000, 0x5000]" "kept ex_done = {0x5000}"
proof -
  obtain w' where w': "ngx_grpc_cli_thread_handler ex_al 0x9000 ex_reported = Some w'" "winv w'" "results_ok True w'"
    "map task_id (finished w') = map tr_id (tq_tasks (finishedTaskQueue (w_eng ex_reported)))"
    "kept w' = kept ex_reported"
    using thread_handler_ok [OF ex_thread_ok(1-7)] by (metis (no_types, lifting))
  with ex_thread_ok(8) show "ngx_grpc_cli_thread_handler ex_al 0x9000 ex_reported = Some ex_done" "winv ex_done"
    "results_ok True ex_done" "map task_id (finished ex_done) = [0x4000, 0x5000]" "kept ex_done = {0x5000}"
    by (simp_all add: ex_done_def ex_reported_sel)
qed

lemma ex_late_done_ok:
  "ngx_grpc_cli_thread_handler ex_al 0x9000 ex_late = Some ex_late_done" "winv ex_late_done"
  "results_ok True ex_late_done" "map task_id (finished ex_late_done) = [0x4000]" "kept ex_late_done = {0x5000}"
proof -
  obtain w' where w': "ngx_grpc_cli_thread_handler ex_al 0x9000 ex_late = Some w'" "winv w'" "results_ok True w'"
    "map task_id (finished w') = map tr_id (tq_tasks (finishedTaskQueue (w_eng ex_late)))"
    "kept w' = kept ex_late"
    using thread_handler_ok [OF ex_thread_ok(1-7)] by (metis (no_types, lifting))
  with ex_thread_ok(8) show "ngx_grpc_cli_thread_handler ex_al 0x9000 ex_late = Some ex_late_done" "winv ex_late_done"
    "results_ok True ex_late_done" "map task_id (finished ex_late_done) = [0x4000]" "kept ex_late_done = {0x5000}"
    by (simp_all add: ex_late_done_def ex_reported_sel)
qed

text \<open>A blocking call whose goroutine replies.\<close>

lemma ex_blocking_ok:
  "engine_lets_go (grpc_engine_call 0x7f00 0x1100 ''/s/m'' [1] ex_opt (w_eng ex_idle)) ex_replied ex_al 0x9000 ex_idle"
proof -
  let ?g = "spawn (GoCall 0x7f00 0 ''/s/m'' [1] ex_go) (w_eng ex_idle)"
  have call: "grpc_engine_call 0x7f00 0x1100 ''/s/m'' [1] ex_opt (w_eng ex_idle) = Some ?g"
    by (simp add: grpc_engine_call_def mustFind_def ex_go_eq ex_idle_def)
  have "run_goroutine ok_lib 0 ?g = Some ex_replied"
    by (simp add: run_goroutine_def spawn_def ex_replied_def ex_idle_def engine_init_def call_body_def recovered_def Call_def
        ok_lib_def codec_Marshal_def decode_reply_eq)
  then have "engine_step\<^sup>*\<^sup>* ?g ex_replied" by (intro r_into_rtranclp engine_step.goroutine)
  moreover have ts: "length (tq_tasks (finishedTaskQueue ex_replied)) = 1" "tq_done (finishedTaskQueue ex_replied)"
    by (simp_all add: ex_replied_def ex_idle_def engine_init_def NewTaskQueue_def)
  moreover have "wait_alloc_ok ex_al 0x9000 (ex_idle\<lparr>w_eng := ex_replied\<rparr>)"
    using ts(1) by (simp add: wait_alloc_ok_def cbytes_ok_def ex_al_def ex_idle_def fresh_worker_def)
  ultimately show ?thesis by (simp add: engine_lets_go_def call)
qed

lemma ex_penv_ok:
  assumes "w_pctxs w = Map.empty"
  shows "pctx_alloc_ok ex_penv 0 w" "task_post_ok ex_penv"
  using assms by (auto simp: pctx_alloc_ok_def task_post_ok_def ex_penv_def ex_env_def)

lemma ex_done_pctxs: "w_pctxs ex_done = Map.empty" "w_pctxs ex_late_done = Map.empty"
  by (simp_all add: ex_done_def ex_late_done_def ngx_grpc_cli_thread_handler_def grpc_engine_wait_def taskQueue_Wait_eq
      ex_reported_sel ex_reported_def ex_late_def ex_sel)

subsection \<open>They are reachable\<close>

lemma ex_reachable: "reachable list_api yielding_lua (ex_idle, Waiting)" "reachable list_api yielding_lua (ex_wait, Waiting)"
proof -
  let ?R = "reachable list_api yielding_lua"
  let ?conf = "ex_conf\<lparr>conf_engine := NULL, conf_thread_pool := NULL, conf_task := NULL\<rparr>"
  let ?f = "fresh_worker LittleEndian ex_conf"
  let ?l = "?f\<lparr>w_cos := [0x3000 \<mapsto> idle_co, 0x3100 \<mapsto> idle_co], w_http := [0x2000 \<mapsto> ex_lctx]\<rparr>"
  let ?E = "ex_env\<lparr>sys_alloc := (\<lambda>i. if i = 0 then 0x1000 else if i = 1 then 0x1100 else NULL)\<rparr>"
  have "?f = snd (ngx_grpc_cli_init_worker list_api ex_load (fresh_worker LittleEndian ?conf))"
    by (simp add: ngx_grpc_cli_init_worker_def ngx_grpc_cli_thread_def ex_load_def fresh_worker_def ex_conf_def
        list_all_iff Let_def upd_queues_def list_api_def fun_eq_iff)
  then have f: "?R (?f, Waiting)" by (simp only:) (rule reachable.start)
  have "lua_change ?f ?l"
    by (auto simp: lua_change_def fresh_worker_def idle_co_def armed_def split: if_splits)
  then have "worker_step list_api yielding_lua (?f, Waiting) (LibCall OtherCall) (Some (?l, Waiting))"
    using worker_step.client [OF client_call.lua, of ?f ?l list_api yielding_lua Waiting] by simp
  with f have l: "?R (?l, Waiting)" by (rule reachable.step)
  have conn: "snd (ngx_grpc_cli_connect list_api (ok_lib\<lparr>Dial := \<lambda>_ _. Returns (Inr 0)\<rparr>) ?E ''localhost:50051'' ex_dial ?l) = ex_idle"
    by (simp add: ngx_grpc_cli_connect_def grpc_engine_connect_def Connect_def ex_dial_def ok_lib_def ex_idle_def
        fresh_worker_def upd_queues_def list_api_def fun_eq_iff Let_def engine_init_def load_client_cert_def)
  have "env_ok ?E ?l"
    by (auto simp: env_ok_def ex_env_def fresh_alloc_def live_addrs_def fresh_worker_def engine_init_def task_post_ok_def)
  then have "worker_step list_api yielding_lua (?l, Waiting) (LibCall OtherCall) (Some (ex_idle, Waiting))"
    using worker_step.client [OF client_call.connect, of ?E ?l list_api yielding_lua Waiting
        "ok_lib\<lparr>Dial := \<lambda>_ _. Returns (Inr 0)\<rparr>" "''localhost:50051''" ex_dial] conn by simp
  with l show c: "?R (ex_idle, Waiting)" by (rule reachable.step)
  have "worker_step list_api yielding_lua (ex_idle, Waiting) (LibCall OtherCall) (Some (ex_wait, Waiting))"
    using worker_step.client [OF client_call.new_stream [OF ex_held ex_env_ok ex_can_wait ex_opt_ok],
        of list_api yielding_lua Waiting 512 "''/s/m''" "[1]" STREAM_TYPE_UNARY]
    by (simp add: ex_wait_run)
  with c show "?R (ex_wait, Waiting)" by (rule reachable.step)
qed

end
