(* ===== verification/Conn_Props.thy ===== *)
theory Conn_Props
  imports Examples
begin

text \<open>
  The properties of the task table, of connections and of streams, for every implementation
  of the nginx queues and trees that satisfies \<open>ngx_laws\<close>.
\<close>

subsection \<open>The task table\<close>

text \<open>C7. Walking the red-black tree finds exactly the tasks that are kept: \<^verbatim>\<open>ngx_grpc_cli_lookup_task\<close> returns
  the node the stream context at that address points to, \<^verbatim>\<open>NULL\<close> when there is none, and the counter is the
  number of kept tasks.\<close>

theorem lookup_finds_kept:
  assumes "tasks_ok w"
  shows "(\<forall>n. ngx_grpc_cli_lookup_task k w = Some n \<longleftrightarrow>
            n \<noteq> NULL \<and> (\<exists>s. w_sctxs w k = Some s \<and> sctx_node s = n)) \<and>
         (ngx_grpc_cli_lookup_task k w = None \<longleftrightarrow> k \<notin> kept w) \<and>
         ngx_grpc_cli_task_num w = int (card (kept w))"
  using lookup_task_iff [OF assms] lookup_task_kept [OF assms] task_num_card [OF assms]
  by (simp add: ngx_grpc_cli_task_num_def)

theorem lookup_finds_kept_witness:
  "(\<forall>n. ngx_grpc_cli_lookup_task 0x5000 ex_wait = Some n \<longleftrightarrow>
      n \<noteq> NULL \<and> (\<exists>s. w_sctxs ex_wait 0x5000 = Some s \<and> sctx_node s = n)) \<and>
   (ngx_grpc_cli_lookup_task 0x4000 ex_wait = None \<longleftrightarrow> 0x4000 \<notin> kept ex_wait) \<and>
   ngx_grpc_cli_task_num ex_wait = int (card (kept ex_wait))"
  using lookup_finds_kept [OF winv_butD(1) [OF ex_started_winv(1)], of "0x5000"]
    lookup_finds_kept [OF winv_butD(1) [OF ex_started_winv(1)], of "0x4000"]
  by blast

text \<open>C8. Keeping a task and letting it go restores the table: after \<^verbatim>\<open>keep\<close> the task and all others are found,
  after \<^verbatim>\<open>unkeep\<close> the tasks found, the stream contexts and the counter are those before, and a second
  \<^verbatim>\<open>unkeep\<close> changes nothing.\<close>

theorem keep_unkeep_restores:
  assumes "ngx_laws N" "tasks_ok w" "w_sctxs w k = Some s" "sctx_node s = NULL" "n \<noteq> NULL"
    "n \<notin> fst ` rb_nodes (w_tree w)"
  shows "\<exists>w1 w2. ngx_grpc_cli_keep_task N n k w = Some (NGX_OK, w1) \<and> tasks_ok w1 \<and>
           ngx_grpc_cli_lookup_task k w1 = Some n \<and>
           (\<forall>j. j \<noteq> k \<longrightarrow> ngx_grpc_cli_lookup_task j w1 = ngx_grpc_cli_lookup_task j w) \<and>
           ngx_grpc_cli_unkeep_task N k w1 = Some w2 \<and> tasks_ok w2 \<and>
           (\<forall>j. ngx_grpc_cli_lookup_task j w2 = ngx_grpc_cli_lookup_task j w) \<and>
           w_sctxs w2 = w_sctxs w \<and> ngx_grpc_cli_task_num w2 = ngx_grpc_cli_task_num w \<and>
           ngx_grpc_cli_unkeep_task N k w2 = Some w2"
proof -
  define w1 where "w1 = w\<lparr>w_num := w_num w + 1, w_tree := rbtree_insert N n k (w_tree w),
      w_sctxs := (w_sctxs w)(k \<mapsto> s\<lparr>sctx_node := n\<rparr>)\<rparr>"
  have keep: "ngx_grpc_cli_keep_task N n k w = Some (NGX_OK, w1)" "tasks_ok w1"
    using ngx_laws.keep_task_ok [OF assms] by (simp_all add: w1_def)
  have s1: "w_sctxs w1 k = Some (s\<lparr>sctx_node := n\<rparr>)" by (simp add: w1_def)
  obtain w2 where w2: "ngx_grpc_cli_unkeep_task N k w1 = Some w2" "tasks_ok w2"
    "w_sctxs w2 = (w_sctxs w1)(k \<mapsto> s\<lparr>sctx_node := NULL\<rparr>)"
    using ngx_laws.unkeep_task_ok [OF assms(1) keep(2) s1] by auto
  have same: "w_sctxs w2 = w_sctxs w"
    using assms(3,4) by (auto simp: w2(3) w1_def fun_eq_iff)
  have look: "ngx_grpc_cli_lookup_task j w' = ngx_grpc_cli_lookup_task j w"
    if "tasks_ok w'" "w_sctxs w' j = w_sctxs w j" for j w'
    using lookup_task_iff [OF that(1), of j] lookup_task_iff [OF assms(2), of j] that(2)
    by (metis not_None_eq)
  have "ngx_grpc_cli_task_num w2 = ngx_grpc_cli_task_num w"
    using task_num_card [OF w2(2)] task_num_card [OF assms(2)] same
    by (simp add: ngx_grpc_cli_task_num_def kept_def)
  moreover have "ngx_grpc_cli_unkeep_task N k w2 = Some w2"
    using assms(3,4) by (simp add: ngx_grpc_cli_unkeep_task_def same)
  moreover have "ngx_grpc_cli_lookup_task j w1 = ngx_grpc_cli_lookup_task j w" if "j \<noteq> k" for j
    using look [OF keep(2)] that by (simp add: w1_def)
  moreover have "ngx_grpc_cli_lookup_task k w1 = Some n"
    using lookup_task_iff [OF keep(2), of k n] s1 assms(5) by simp
  ultimately show ?thesis using keep w2(1,2) look [OF w2(2)] same by auto
qed

theorem keep_unkeep_restores_witness:
  "\<exists>w1 w2. ngx_grpc_cli_keep_task list_api 0x6000 0x5000 (ex_idle\<lparr>w_sctxs := [0x5000 \<mapsto> zero_sctx]\<rparr>) = Some (NGX_OK, w1) \<and>
     ngx_grpc_cli_unkeep_task list_api 0x5000 w1 = Some w2 \<and>
     ngx_grpc_cli_task_num w2 = ngx_grpc_cli_task_num (ex_idle\<lparr>w_sctxs := [0x5000 \<mapsto> zero_sctx]\<rparr>)"
proof -
  have "tasks_ok (ex_idle\<lparr>w_sctxs := [0x5000 \<mapsto> zero_sctx]\<rparr>)"
    by (simp add: tasks_ok_def ex_idle_def fresh_worker_def zero_sctx_def)
  from keep_unkeep_restores [OF list_api_laws this, of "0x5000" zero_sctx "0x6000"]
  show ?thesis by (auto simp: ex_idle_def fresh_worker_def zero_sctx_def)
qed

subsection \<open>Connections\<close>

text \<open>C23. \<^verbatim>\<open>ngx_grpc_cli_connect\<close> keeps the invariant and either returns \<^verbatim>\<open>NULL\<close> and leaves the connections as they
  were, or returns a new connection with empty queues that holds the engine's reference, which no other
  connection holds.\<close>

theorem connect_spec:
  assumes "ngx_laws N" "winv w" "env_ok E w"
  shows "\<exists>ctx err w'. ngx_grpc_cli_connect N G E target opt w = ((ctx, err), w') \<and> winv w' \<and>
           w_sctxs w' = w_sctxs w \<and>
           (if ctx = NULL then w_ctxs w' = w_ctxs w
            else err = None \<and> ctx \<notin> dom (w_ctxs w) \<and> sys_alloc E 1 \<noteq> NULL \<and>
                 w_ctxs w' = (w_ctxs w)(ctx \<mapsto> \<lparr>engine_ctx = sys_alloc E 1, free_delayed = False\<rparr>) \<and>
                 w_queues w' (CtxOpening ctx) = [] \<and> w_queues w' (CtxFree ctx) = [])"
  by (rule ngx_laws.connect_ok [OF assms, of G target opt]) auto

theorem connect_spec_witness:
  "\<exists>ctx err w'. ngx_grpc_cli_connect list_api ok_lib ex_env ''localhost:50051''
       ex_dial
       ex_idle = ((ctx, err), w') \<and> winv w'"
  using connect_spec [OF list_api_laws ex_idle_winv ex_env_ok, of ok_lib "''localhost:50051''"
      ex_dial]
  by blast

text \<open>C25. \<^verbatim>\<open>ngx_grpc_cli_free_conn\<close> returns (its loop ends), frees the connection and exactly the stream contexts of
  its free queue, each once, and keeps the invariant, provided no stream of the connection is open and no unary
  call on it is under way.\<close>

theorem free_conn_frees_all:
  assumes "ngx_laws N" "winv w" "w_queues w (CtxOpening ctx) = []" "no_unary_call w ctx" "w_ctxs w ctx = Some c"
  shows "\<exists>w'. ngx_grpc_cli_free_conn N ctx w = Some w' \<and> winv w' \<and>
           w_ctxs w' = (w_ctxs w)(ctx := None) \<and> w_queues w' (CtxFree ctx) = [] \<and>
           (\<forall>k. w_sctxs w' k = (if SctxQueue k \<in> set (w_queues w (CtxFree ctx)) then None else w_sctxs w k)) \<and>
           kept w' = kept w"
proof -
  let ?w' = "(freed ctx w)\<lparr>w_ctxs := (w_ctxs w)(ctx := None)\<rparr>"
  have "sctx_node s = NULL" if "SctxQueue k \<in> set (w_queues w (CtxFree ctx))" "w_sctxs w k = Some s" for k s
    using queues_okD(2) [OF winv_butD(3) [OF assms(2)] that(1)] that(2) by auto
  then have "kept ?w' = kept w" by (auto simp: kept_def freed_def split: if_splits)
  then show ?thesis
    using ngx_laws.free_conn_ok [OF assms(1-5)] by (auto simp: freed_def)
qed

theorem free_conn_frees_all_witness:
  "\<exists>w'. ngx_grpc_cli_free_conn list_api 0x1000
       (ex_idle\<lparr>w_sctxs := [0x5000 \<mapsto> zero_sctx], w_queues := (\<lambda>_. [])(CtxFree 0x1000 := [SctxQueue 0x5000])\<rparr>) = Some w' \<and>
     winv w' \<and> w_sctxs w' 0x5000 = None"
proof -
  let ?v = "ex_idle\<lparr>w_sctxs := (w_sctxs ex_idle)(0x5000 \<mapsto> zero_sctx)\<rparr>"
  let ?w = "?v\<lparr>w_queues := (w_queues ?v)(CtxFree 0x1000 := SctxQueue 0x5000 # w_queues ?v (CtxFree 0x1000))\<rparr>"
  have "winv ?v"
    using ex_idle_winv by (rule winv_upd_unlinked) (simp_all add: linked_def ex_idle_def fresh_worker_def zero_sctx_def)
  then have inv: "winv ?w"
    by (rule winv_link_free [where s = zero_sctx])
      (simp_all add: linked_def ex_idle_def fresh_worker_def zero_sctx_def)
  let ?e = "ex_idle\<lparr>w_sctxs := [0x5000 \<mapsto> zero_sctx], w_queues := (\<lambda>_. [])(CtxFree 0x1000 := [SctxQueue 0x5000])\<rparr>"
  have "?w = ?e" by (simp add: ex_idle_def fresh_worker_def)
  with inv have "winv ?e" by simp
  moreover have "w_queues ?e (CtxOpening 0x1000) = []" by simp
  moreover have "no_unary_call ?e 0x1000" by (simp add: no_unary_call_def zero_sctx_def)
  moreover have "w_ctxs ?e 0x1000 = Some \<lparr>engine_ctx = 0x1100, free_delayed = False\<rparr>"
    by (simp add: ex_idle_def)
  ultimately obtain w' where w': "ngx_grpc_cli_free_conn list_api 0x1000 ?e = Some w'" "winv w'"
    "\<forall>k. w_sctxs w' k = (if SctxQueue k \<in> set (w_queues ?e (CtxFree 0x1000)) then None else w_sctxs ?e k)"
    using free_conn_frees_all [OF list_api_laws] by blast
  have "w_sctxs w' 0x5000 = None" using w'(3) by simp
  with w' show ?thesis by blast
qed

text \<open>C24. \<^verbatim>\<open>ngx_grpc_cli_close\<close> from Lua closes the engine's connection and keeps the memory; from the garbage
  collector it also frees the memory when no stream is open, and otherwise marks it for later.  In every case it
  returns, keeps the invariant, and the engine no longer knows the reference.\<close>

theorem close_frees_or_delays:
  assumes "ngx_laws N" "winv w" "w_ctxs w ctx = Some c" "r = NULL \<longrightarrow> no_unary_call w ctx"
  shows "\<exists>w'. ngx_grpc_cli_close N ctx r w = Some w' \<and> winv w' \<and>
           (engine_ctx c \<noteq> NULL \<longrightarrow> EngineCtxRef (w_eng w') (engine_ctx c) = None) \<and>
           (if r \<noteq> NULL then w_ctxs w' = (w_ctxs w)(ctx \<mapsto> c\<lparr>engine_ctx := NULL\<rparr>) \<and> w_sctxs w' = w_sctxs w
            else if w_queues w (CtxOpening ctx) \<noteq> []
            then w_ctxs w' = (w_ctxs w)(ctx \<mapsto> \<lparr>engine_ctx = NULL, free_delayed = True\<rparr>) \<and> w_sctxs w' = w_sctxs w
            else w_ctxs w' = (w_ctxs w)(ctx := None) \<and>
                 (\<forall>k. w_sctxs w' k = (if SctxQueue k \<in> set (w_queues w (CtxFree ctx)) then None else w_sctxs w k)))"
proof -
  have eng: "engine_ctx c \<noteq> NULL \<longrightarrow> EngineCtxRef (w_eng (engine_closed ctx c w)) (engine_ctx c) = None"
    by (simp add: engine_closed_def grpc_engine_close_def split: option.split)
  show ?thesis
    by (rule ngx_laws.close_ok [OF assms(1-3), of r])
      (use assms(3,4) eng in \<open>auto simp: ngx_laws.engine_closed_ctx [OF assms(1)] freed_def\<close>)
qed

theorem close_frees_or_delays_witness:
  "\<exists>w'. ngx_grpc_cli_close list_api 0x1000 NULL ex_stream = Some w' \<and> winv w' \<and>
     w_ctxs w' = (w_ctxs ex_stream)(0x1000 \<mapsto> \<lparr>engine_ctx = NULL, free_delayed = True\<rparr>)"
proof -
  have c: "w_ctxs ex_stream 0x1000 = Some \<lparr>engine_ctx = 0x1100, free_delayed = False\<rparr>"
    and q: "w_queues ex_stream (CtxOpening 0x1000) = [SctxQueue 0x5000]"
    by (simp_all add: ex_stream_def ex_states)
  have "(NULL :: addr) = NULL \<longrightarrow> no_unary_call ex_stream 0x1000"
    by (auto simp: no_unary_call_def ex_sel ex_sctx_def split: if_splits)
  from close_frees_or_delays [OF list_api_laws ex_started_winv(2) c this] q show ?thesis by auto
qed

subsection \<open>Starting tasks\<close>

text \<open>C9. \<^verbatim>\<open>ngx_grpc_cli_new_stream\<close> never faults and keeps the invariant.  It either returns \<^verbatim>\<open>NULL\<close> with a message and
  leaves the table, the coroutines, the engine and the connections as they were; or it returns a stream context
  that had no task, whose task is now kept, for which the current coroutine of the request sleeps with a
  timer and a cleanup handler, and for which exactly one goroutine was started.\<close>

theorem new_stream_spec:
  assumes "ngx_laws N" "winv w" "env_ok E w" "w_ctxs w ctx = Some c" "\<not> free_delayed c"
    "can_wait w is_http r" "call_opt_ok opt"
  shows "\<exists>k err w'. ngx_grpc_cli_new_stream N E el r is_http ctx meth req opt ty w = Some ((k, err), w') \<and>
           winv w' \<and> thread_same w w' \<and>
           (if k = NULL then err \<noteq> None \<and> task_refused w w'
            else err = None \<and> engine_ctx c \<noteq> NULL \<and> task_started w w' k is_http r \<and>
                 (\<exists>s. w_sctxs w' k = Some s \<and> sctx_type s = ty \<and> sctx_parent s = ctx))"
  by (rule ngx_laws.new_stream_ok [OF assms(1-4,6,7,5), of el meth req ty]) auto

theorem new_stream_spec_witness:
  "\<exists>k err w'. ngx_grpc_cli_new_stream list_api ex_env 512 0x2000 True 0x1000 ''/s/m'' [1] ex_opt 3 ex_idle =
     Some ((k, err), w') \<and> k = 0x5000 \<and> err = None \<and> task_started ex_idle w' k True 0x2000"
proof -
  have c: "w_ctxs ex_idle 0x1000 = Some \<lparr>engine_ctx = 0x1100, free_delayed = False\<rparr>" by (simp add: ex_idle_def)
  have nd: "\<not> free_delayed \<lparr>engine_ctx = 0x1100, free_delayed = False\<rparr>" by simp
  show ?thesis
    using new_stream_spec [OF list_api_laws ex_idle_winv ex_env_ok c nd ex_can_wait ex_opt_ok,
        of 512 "''/s/m''" "[1]" 3]
    by (auto simp: ex_stream_run)
qed

text \<open>C21. \<^verbatim>\<open>ngx_grpc_cli_stream_recv\<close>, \<^verbatim>\<open>_send\<close> and \<^verbatim>\<open>_close_send\<close> on an open stream that the engine knows never fault and
  keep the invariant: they report an error and start nothing, or the stream belonged to the calling request and was
  idle, and its task is now kept, its coroutine sleeps and one goroutine was started for it.\<close>

theorem stream_ops_spec:
  assumes "ngx_laws N" "winv w" "env_ok E w" "open_stream w k" "w_sctxs w k = Some s"
    "can_wait w (sctx_is_http s) r" "StreamRef (w_eng w) k = Some i"
    "run = ngx_grpc_cli_stream_recv N E el r k opt w \<or>
     run = ngx_grpc_cli_stream_send N E el r k opt req w \<or>
     run = ngx_grpc_cli_stream_close_send N E el r k opt w"
  shows "\<exists>rc err w'. run = Some ((rc, err), w') \<and> winv w' \<and> thread_same w w' \<and>
           (if rc = NGX_OK then err = None \<and> sctx_r s = r \<and> sctx_wait_co_ctx s = NULL \<and>
                                 task_started w w' k (sctx_is_http s) r
            else rc = NGX_ERROR \<and> err \<noteq> None \<and> task_refused w w')"
  by (rule ngx_laws.stream_ops_ok [OF assms]) auto

theorem stream_ops_spec_witness:
  "\<exists>err w'. ngx_grpc_cli_stream_recv list_api ex_env2 512 0x2000 0x5000 ex_opt ex_open = Some ((NGX_OK, err), w') \<and>
     winv w' \<and> task_started ex_open w' 0x5000 True 0x2000"
proof -
  let ?run = "ngx_grpc_cli_stream_recv list_api ex_env2 512 0x2000 0x5000 ex_opt ex_open"
  have http: "sctx_is_http (ex_sctx 3)" by (simp add: ex_sctx_def)
  have ok: "\<exists>err w'. ?run = Some ((NGX_OK, err), w')"
    by (simp add: ngx_grpc_cli_stream_recv_def ngx_grpc_cli_check_stream_status_def ex_run ex_go_eq ex_open_def
        ex_env2_def ex_states idle_co_def zero_sctx_def grpc_engine_stream_recv_def)
  have "can_wait ex_open (sctx_is_http (ex_sctx 3)) 0x2000" using ex_open_ok(4) http by simp
  from stream_ops_spec [OF list_api_laws ex_open_ok(1-3,5) this ex_open_ok(6), of ?run 512 ex_opt]
  show ?thesis using ok http by auto
qed

text \<open>C22. A stream whose task is still kept is busy: every operation of the request on it is refused with
  \<^verbatim>\<open>busy waiting\<close>, another request gets \<^verbatim>\<open>bad request\<close>, and nothing changes, so that a stream context never has two
  tasks at once.\<close>

theorem busy_stream_refused:
  assumes "winv w" "w_sctxs w k = Some s" "k \<in> kept w" "sctx_r s \<noteq> NULL"
    "run = ngx_grpc_cli_stream_recv N E el r k opt w \<or>
     run = ngx_grpc_cli_stream_send N E el r k opt req w \<or>
     run = ngx_grpc_cli_stream_close_send N E el r k opt w"
  shows "run = Some ((NGX_ERROR, Some (snprintf N el
           (if sctx_r s = r then ''busy waiting'' else ''bad request''))), w)"
proof -
  have "sctx_wait_co_ctx s \<noteq> NULL"
    using waits_okD(1,4) [OF winv_butD(2) [OF assms(1)]] assms(2,3) by (force simp: kept_def)
  then have "ngx_grpc_cli_check_stream_status N el k r w = Some (NGX_ERROR, Some (snprintf N el
      (if sctx_r s = r then ''busy waiting'' else ''bad request'')))"
    using assms(2,4) by (simp add: ngx_grpc_cli_check_stream_status_def)
  with assms(5) show ?thesis
    by (auto simp: ngx_grpc_cli_stream_recv_def ngx_grpc_cli_stream_send_def ngx_grpc_cli_stream_close_send_def)
qed

theorem busy_stream_refused_witness:
  "ngx_grpc_cli_stream_recv list_api ex_env 512 0x2000 0x5000 ex_opt ex_stream =
     Some ((NGX_ERROR, Some (snprintf list_api 512 ''busy waiting'')), ex_stream)"
  using busy_stream_refused [OF ex_started_winv(2), of "0x5000"
      "(ex_sctx 3)\<lparr>sctx_node := 0x6000, sctx_wait_co_ctx := 0x3000\<rparr>"
      "ngx_grpc_cli_stream_recv list_api ex_env 512 0x2000 0x5000 ex_opt ex_stream" list_api ex_env 512 "0x2000" ex_opt]
  by (simp add: ex_sel ex_kept ex_sctx_def)

text \<open>C26. Collecting an idle open stream tells the engine to forget it and returns its context to the free queue
  of the connection; when the connection's memory was waiting for its last open stream, the connection
  and the context are freed with it.  The call never faults and keeps the invariant.\<close>

theorem last_stream_frees_conn:
  assumes "ngx_laws N" "winv w" "open_stream w k" "w_sctxs w k = Some s" "k \<notin> kept w"
  shows "\<exists>c w'. w_ctxs w (sctx_parent s) = Some c \<and> ngx_grpc_cli_close_stream N k NULL w = Some w' \<and> winv w' \<and>
           thread_same w w' \<and> StreamRef (w_eng w') k = None \<and>
           (if free_delayed c \<and> w_queues w (CtxOpening (sctx_parent s)) = [SctxQueue k]
            then w_ctxs w' = (w_ctxs w)(sctx_parent s := None) \<and> k \<notin> dom (w_sctxs w')
            else w_ctxs w' = w_ctxs w \<and> hd (w_queues w' (CtxFree (sctx_parent s))) = SctxQueue k \<and>
                 w_sctxs w' = (w_sctxs w)(k \<mapsto> s\<lparr>sctx_r := NULL\<rparr>))"
proof -
  have "sctx_node s = NULL" using assms(4,5) by (simp add: kept_def)
  then show ?thesis by (rule ngx_laws.close_stream_gc_ok [OF assms(1-4)]) blast
qed

theorem last_stream_frees_conn_witness:
  "\<exists>w'. ngx_grpc_cli_close_stream list_api 0x5000 NULL ex_open = Some w' \<and> winv w' \<and>
     hd (w_queues w' (CtxFree 0x1000)) = SctxQueue 0x5000"
proof -
  have "0x5000 \<notin> kept ex_open" by (simp add: kept_def ex_open_def ex_sctx_def zero_sctx_def)
  from last_stream_frees_conn [OF list_api_laws ex_open_ok(1,3,5) this]
  show ?thesis by (auto simp: ex_sctx_def ex_open_def ex_idle_def zero_sctx_def)
qed

subsection \<open>Blocking calls\<close>

text \<open>C33. A blocking call that the engine lets go on hands out the first result of the queue, whichever task
  reported it, and drops the others: a body is returned in place with its size, an error as the message, both with the
  array freed; the result without a body of an empty reply stops the worker at the assertion on its type (\<open>None\<close>);
  and a queue woken without a result is reported as a timeout.\<close>

theorem blocking_call_outcome:
  assumes "w_ctxs w ctx = Some c" "engine_ctx c \<noteq> NULL" "EngineCtxRef (w_eng w) (engine_ctx c) = Some i"
    "call_option opt = Some co"
    "bg (spawn (GoCall stack i meth req co) (w_eng w)) = g" "tq_done (finishedTaskQueue g)"
    "cbytes_ok (length (tq_tasks (finishedTaskQueue g))) (w_heap w) al"
    "arr \<noteq> NULL" "arr \<notin> al ` {0..<length (tq_tasks (finishedTaskQueue g))}"
  shows "case tq_tasks (finishedTaskQueue g) of
           [] \<Rightarrow> \<exists>w'. ngx_grpc_cli_call_blocking N el stack ctx meth req opt bg al arr w =
                   Some ((NGX_ERROR, Some (snprintf N el ''timeout''), None), w')
         | t # ts \<Rightarrow>
             (case (tr_err t, tr_result t) of
                (Some e, _) \<Rightarrow> length e < 2 ^ 64 \<longrightarrow>
                  (\<exists>w'. ngx_grpc_cli_call_blocking N el stack ctx meth req opt bg al arr w =
                     Some ((NGX_ERROR, Some (snprintf N el e), None), w') \<and> w_heap w' arr = None \<and> w_heap w' (al 0) = None)
              | (None, Some b) \<Rightarrow>
                  (\<exists>w'. ngx_grpc_cli_call_blocking N el stack ctx meth req opt bg al arr w =
                     Some ((NGX_OK, None, Some (al 0, of_nat (length b))), w') \<and> w_heap w' arr = None \<and>
                     w_heap w' (al 0) = Some b)
              | (None, None) \<Rightarrow> ngx_grpc_cli_call_blocking N el stack ctx meth req opt bg al arr w = None)"
proof (cases "tq_tasks (finishedTaskQueue g)")
  case Nil
  have "taskQueue_Wait (w_host w) al (finishedTaskQueue g) (w_heap w) = Some (([], 0), NewTaskQueue, w_heap w)"
    using assms(6) Nil by (simp add: taskQueue_Wait_eq)
  then show ?thesis
    using Nil assms(1-3,4,5)
    by (simp add: ngx_grpc_cli_call_blocking_def grpc_engine_call_def mustFind_def grpc_engine_wait_def)
next
  case (Cons t ts)
  have call: "grpc_engine_call stack (engine_ctx c) meth req opt (w_eng w) =
      Some (spawn (GoCall stack i meth req co) (w_eng w))"
    using assms(3,4) by (simp add: grpc_engine_call_def mustFind_def)
  have cb: "cbytes_ok (Suc (length ts)) (w_heap w) al" "arr \<notin> al ` {0..<Suc (length ts)}"
    using assms(7,9) Cons by simp_all
  obtain r h where rep: "represents h r t" "arr \<in> dom h" "arr \<noteq> al 0" "al 0 \<noteq> NULL" "res_buf r \<noteq> NULL"
    "res_untag (res_buf r) = (if tr_err t = None \<and> tr_result t = None then NULL else al 0)"
    and run: "ngx_grpc_cli_call_blocking N el stack ctx meth req opt bg al arr w =
       (let w = w\<lparr>w_eng := g\<lparr>finishedTaskQueue := NewTaskQueue\<rparr>, w_heap := h\<rparr>
        in if res_type (res_buf r) = NGX_GRPC_CLIENT_RES_TYPE_OK
           then do { w \<leftarrow> free_buf arr w; Some ((NGX_OK, None, Some (res_untag (res_buf r), res_size r)), w) }
           else do {
             guard (res_type (res_buf r) = NGX_GRPC_CLIENT_RES_TYPE_ERR);
             msg \<leftarrow> read_buf (res_untag (res_buf r)) (res_size r) w;
             w \<leftarrow> free_buf (res_untag (res_buf r)) w;
             w \<leftarrow> free_buf arr w;
             Some ((NGX_ERROR, Some (snprintf N el (string_of msg)), None), w) })"
    by (rule blocking_call_first [where bg = bg and g = g, OF assms(1,2) call assms(5,6) Cons cb(1) assms(8) cb(2), of N el])
  note eq = run Let_def free_buf_def read_buf_def grpc_engine_free_def represents_def
  show ?thesis
    using Cons rep assms(8)
    by (auto simp: eq unat_of_nat split: option.splits)
qed

theorem blocking_call_outcome_witness:
  "(\<exists>w'. ngx_grpc_cli_call_blocking list_api 512 0x7f00 0x1000 ''/s/m'' [1] ex_opt
      (\<lambda>g. ReportFinishedTask 0x7f00 None (Some ''boom'') g) ex_al 0x9000 ex_idle =
      Some ((NGX_ERROR, Some (snprintf list_api 512 ''boom''), None), w') \<and> w_heap w' 0x9000 = None) \<and>
   ngx_grpc_cli_call_blocking list_api 512 0x7f00 0x1000 ''/s/m'' [1] ex_opt
      (\<lambda>g. ReportFinishedTask 0x7f00 None None g) ex_al 0x9000 ex_idle = None"
proof -
  let ?c = "\<lparr>engine_ctx = 0x1100, free_delayed = False\<rparr>"
  have c: "w_ctxs ex_idle 0x1000 = Some ?c" "engine_ctx ?c \<noteq> NULL" "EngineCtxRef (w_eng ex_idle) (engine_ctx ?c) = Some 0"
    by (simp_all add: ex_idle_def)
  let ?g = "\<lambda>e. ReportFinishedTask 0x7f00 None e (spawn (GoCall 0x7f00 0 ''/s/m'' [1] ex_go) (w_eng ex_idle))"
  have q: "tq_done (finishedTaskQueue (?g e))"
    "tq_tasks (finishedTaskQueue (?g e)) = [\<lparr>tr_id = 0x7f00, tr_result = None, tr_err = e\<rparr>]" for e
    by (simp_all add: spawn_def ex_idle_def fresh_worker_def engine_init_def NewTaskQueue_def)
  have cb: "cbytes_ok (length (tq_tasks (finishedTaskQueue (?g e)))) (w_heap ex_idle) ex_al"
    "0x9000 \<notin> ex_al ` {0..<length (tq_tasks (finishedTaskQueue (?g e)))}" for e
    unfolding q by (simp_all add: cbytes_ok_def ex_al_def ex_idle_def fresh_worker_def)
  have q0: "tq_tasks (finishedTaskQueue (spawn j (w_eng ex_idle))) = []" for j
    by (simp add: spawn_def ex_idle_def fresh_worker_def engine_init_def NewTaskQueue_def)
  have nz: "(0x9000 :: addr) \<noteq> NULL" by simp
  note run = blocking_call_outcome [OF c ex_go_eq(1) _ q(1) cb(1) nz cb(2)]
  show ?thesis
    using run [where bg = "\<lambda>g. ReportFinishedTask 0x7f00 None (Some ''boom'') g", OF refl, of list_api 512]
      run [where bg = "\<lambda>g. ReportFinishedTask 0x7f00 None None g", OF refl, of list_api 512]
    by (auto simp: q0)
qed

end
