(* ===== verification/Abstract_Waits.thy ===== *)
theory Abstract_Waits
  imports Worker_Steps
begin

text \<open>
  What the module promises to coroutines, as a small state machine: a coroutine waits for at
  most one task, no task has two waiters, a coroutine gets an answer only while it
  waits, one per wait, and no answer when the wait is cancelled.  Every step of
  the worker is a sequence of steps of this machine.
\<close>

subsection \<open>Specification\<close>

text \<open>The task each waiting coroutine waits for, and the answers given so far.\<close>

type_synonym waits_state = "(addr \<rightharpoonup> u64) \<times> (addr \<times> lua_val list) list"

inductive waits_step :: "waits_state \<Rightarrow> waits_state \<Rightarrow> bool" where
  start: "m p = None \<Longrightarrow> k \<notin> ran m \<Longrightarrow> waits_step (m, out) (m(p \<mapsto> k), out)"
| answer: "m p = Some k \<Longrightarrow> waits_step (m, out) (m(p := None), out @ [(p, vs)])"
| cancel: "m p = Some k \<Longrightarrow> waits_step (m, out) (m(p := None), out)"

text \<open>The abstraction reads the coroutines and the values pushed to them.\<close>

definition waiting_for :: "worker \<Rightarrow> addr \<rightharpoonup> u64" where
  "waiting_for w p =
     (case w_cos w p of None \<Rightarrow> None | Some c \<Rightarrow> if armed c then Some (co_data c) else None)"

definition abs_waits :: "worker \<Rightarrow> waits_state" where
  "abs_waits w = (waiting_for w, w_lua w)"

definition waits_run :: "waits_state \<Rightarrow> waits_state \<Rightarrow> bool" where
  "waits_run = waits_step\<^sup>*\<^sup>*"

inductive_cases waits_stepE: "waits_step s s'"

subsection \<open>The specification itself\<close>

lemma waits_run_refl [simp]: "waits_run s s"
  by (simp add: waits_run_def)

lemma waits_run_trans [trans]: "waits_run a b \<Longrightarrow> waits_run b c \<Longrightarrow> waits_run a c"
  by (simp add: waits_run_def)

lemma waits_run_step: "waits_step a b \<Longrightarrow> waits_run a b"
  by (simp add: waits_run_def r_into_rtranclp)

lemma waits_run_eq: "abs_waits w' = abs_waits w \<Longrightarrow> waits_run (abs_waits w) (abs_waits w')"
  by simp

lemma abs_waits_eqI: "w_cos w' = w_cos w \<Longrightarrow> w_lua w' = w_lua w \<Longrightarrow> abs_waits w' = abs_waits w"
  by (simp add: abs_waits_def waiting_for_def fun_eq_iff)

lemma ran_waiting_for: "waits_ok w \<Longrightarrow> ran (waiting_for w) \<subseteq> kept w"
  using waits_okD(5) by (fastforce simp: ran_def waiting_for_def kept_def split: option.splits if_splits)

text \<open>The coroutine of \<open>k\<close> is disarmed and gets a value: an answer.\<close>

lemma answer_step:
  assumes "w_cos w p = Some c" "armed c" "\<not> armed c'" "w_cos w' = (w_cos w)(p \<mapsto> c')" "w_lua w' = w_lua w @ [(p, vs)]"
  shows "waits_step (abs_waits w) (abs_waits w')"
proof -
  have "waiting_for w' = (waiting_for w)(p := None)" using assms(3,4) by (simp add: waiting_for_def fun_eq_iff)
  moreover have "waiting_for w p = Some (co_data c)" using assms(1,2) by (simp add: waiting_for_def)
  ultimately show ?thesis using waits_step.answer assms(5) by (simp add: abs_waits_def)
qed

lemma cancel_step:
  assumes "w_cos w p = Some c" "armed c" "\<not> armed c'" "w_cos w' = (w_cos w)(p \<mapsto> c')" "w_lua w' = w_lua w"
  shows "waits_step (abs_waits w) (abs_waits w')"
proof -
  have "waiting_for w' = (waiting_for w)(p := None)" using assms(3,4) by (simp add: waiting_for_def fun_eq_iff)
  moreover have "waiting_for w p = Some (co_data c)" using assms(1,2) by (simp add: waiting_for_def)
  ultimately show ?thesis using waits_step.cancel assms(5) by (simp add: abs_waits_def)
qed

text \<open>A started task: the coroutine that runs was not waiting, the task had no waiter.\<close>

lemma started_step:
  assumes "waits_ok w" "can_wait w is_http r" "task_started w w' k is_http r" "w_lua w' = w_lua w"
  shows "waits_step (abs_waits w) (abs_waits w')"
proof -
  obtain l where l: "request_ctx w is_http r = Some l" "waits_for w' k is_http r (cur_co_ctx l)"
    and frame: "\<And>q. q \<noteq> cur_co_ctx l \<Longrightarrow> w_cos w' q = w_cos w q"
    using assms(3) by (auto simp: task_started_def)
  let ?p = "cur_co_ctx l"
  obtain d where d: "w_cos w' ?p = Some d" "armed_for k is_http d"
    using l(2) by (auto simp: waits_for_def split: option.splits)
  then have "waiting_for w' ?p = Some k" by (auto simp: waiting_for_def armed_for_def armed_def)
  then have "waiting_for w' = (waiting_for w)(?p \<mapsto> k)"
    using frame by (auto simp: waiting_for_def fun_eq_iff)
  moreover have "waiting_for w ?p = None"
    using assms(2) l(1) by (auto simp: can_wait_def waiting_for_def split: option.splits)
  moreover have "k \<notin> ran (waiting_for w)"
    using ran_waiting_for [OF assms(1)] assms(3) by (auto simp: task_started_def)
  ultimately show ?thesis using waits_step.start assms(4) by (simp add: abs_waits_def)
qed

subsection \<open>What the operations leave alone\<close>

text \<open>The parts of the state the abstraction reads.\<close>

definition co_same :: "worker \<Rightarrow> worker \<Rightarrow> bool" where
  "co_same w w' \<longleftrightarrow> w_cos w' = w_cos w \<and> w_lua w' = w_lua w"

lemma co_sameD: "co_same w w' \<Longrightarrow> abs_waits w' = abs_waits w"
  by (rule abs_waits_eqI) (simp_all add: co_same_def)

lemma upd_co_same:
  "upd_ctx p f w = Some w' \<Longrightarrow> co_same w w'" "upd_sctx p g w = Some w' \<Longrightarrow> co_same w w'"
  "free_buf p w = Some w' \<Longrightarrow> co_same w w'"
  by (auto simp: co_same_def upd_ctx_def upd_sctx_def free_buf_def split: option.splits)

lemma co_same_refl [simp]: "co_same w w"
  by (simp add: co_same_def)

lemma co_same_trans: "co_same a b \<Longrightarrow> co_same b c \<Longrightarrow> co_same a c"
  by (simp add: co_same_def)

lemma co_same_upd [simp]:
  "co_same w (v\<lparr>w_eng := g\<rparr>) = co_same w v" "co_same w (v\<lparr>w_sctxs := x\<rparr>) = co_same w v"
  "co_same w (v\<lparr>w_ctxs := y\<rparr>) = co_same w v" "co_same w (upd_queues f v) = co_same w v"
  "co_same (w\<lparr>w_eng := g\<rparr>) v = co_same w v" "co_same (w\<lparr>w_sctxs := x\<rparr>) v = co_same w v"
  "co_same (w\<lparr>w_ctxs := y\<rparr>) v = co_same w v" "co_same (upd_queues f w) v = co_same w v"
  "co_same (w\<lparr>w_pctxs := z\<rparr>) v = co_same w v" "co_same w (v\<lparr>w_pctxs := z\<rparr>) = co_same w v"
  "co_same w (v\<lparr>w_task_active := b\<rparr>) = co_same w v" "co_same (w\<lparr>w_task_active := b\<rparr>) v = co_same w v"
  by (simp_all add: co_same_def upd_queues_def)

lemma free_conn_loop_co_same: "free_conn_loop N ctx w = Some w' \<Longrightarrow> co_same w w'"
proof (erule free_conn_loop.raw_induct [of "\<lambda>N ctx w w'. co_same w w'", rotated], goal_cases)
  case (1 loop N ctx w w')
  show ?case
  proof (cases "queue_empty N (CtxFree ctx) (w_queues w)")
    case False
    let ?w = "upd_queues (queue_remove N (queue_last N (CtxFree ctx) (w_queues w))) w"
    from False 1(2) obtain k where "loop N ctx (?w\<lparr>w_sctxs := (w_sctxs ?w)(k := None)\<rparr>) = Some w'"
      by (auto simp: bind_eq_Some_conv Let_def)
    from 1(1) [OF this] show ?thesis by simp
  qed (use 1(2) in simp)
qed

lemma free_conn_co_same: "ngx_grpc_cli_free_conn N ctx w = Some w' \<Longrightarrow> co_same w w'"
  by (auto simp: ngx_grpc_cli_free_conn_def bind_eq_Some_conv dest: free_conn_loop_co_same)

lemma close_co_same: "ngx_grpc_cli_close N ctx r w = Some w' \<Longrightarrow> co_same w w'"
  by (auto simp: ngx_grpc_cli_close_def bind_eq_Some_conv split: if_splits
      dest!: upd_co_same free_conn_co_same intro: co_same_trans)

lemma close_stream_co_same: "ngx_grpc_cli_close_stream N k r w = Some w' \<Longrightarrow> co_same w w'"
  by (auto simp: ngx_grpc_cli_close_stream_def bind_eq_Some_conv Let_def split: if_splits
      dest!: upd_co_same free_conn_co_same intro: co_same_trans)

lemma connect_co_same: "co_same w (snd (ngx_grpc_cli_connect N G E target opt w))"
  by (simp add: ngx_grpc_cli_connect_def co_same_def upd_queues_def Let_def split: prod.split)

lemma insert_posted_co_same: "ngx_grpc_cli_insert_posted_event_ctx N p r w = Some w' \<Longrightarrow> co_same w w'"
  by (auto simp: ngx_grpc_cli_insert_posted_event_ctx_def bind_eq_Some_conv Let_def split: if_splits)

lemma post_finished_co_same: "post_finished N E i n w = Some w' \<Longrightarrow> co_same w w'"
proof (induction n arbitrary: i w)
  case (Suc n)
  then obtain v where "co_same w v" "post_finished N E (Suc i) n v = Some w'"
    by (auto simp: bind_eq_Some_conv dest!: insert_posted_co_same)
  with Suc.IH show ?case using co_same_trans by blast
qed simp

lemma bind_co_same:
  assumes "Option.bind x f = Some w'" "\<And>v. x = Some v \<Longrightarrow> co_same w v" "\<And>v. f v = Some w' \<Longrightarrow> co_same v w'"
  shows "co_same w w'"
  using assms(1) unfolding bind_eq_Some_conv using assms(2,3) co_same_trans by blast

lemma thread_event_co_same:
  assumes "ngx_grpc_cli_thread_event_handler N E w = Some w'"
  shows "co_same w w'"
  using assms unfolding ngx_grpc_cli_thread_event_handler_def
proof (elim bind_co_same, goal_cases)
  case (1 v)
  then show ?case by (rule post_finished_co_same)
next
  case (2 v u)
  show ?case
  proof (cases "0 < w_finished_task_num v")
    case True
    with 2 obtain x where "free_buf (w_finished_tasks v) v = Some x" "u = x\<lparr>w_finished_tasks := NULL, w_posted := True\<rparr>"
      by (auto simp: bind_eq_Some_conv)
    then show ?thesis using upd_co_same(3) [of "w_finished_tasks v" v x] by (simp add: co_same_def)
  qed (use 2 in simp)
next
  case (3 v u)
  then show ?case by (auto split: if_splits)
qed

lemma free_finished_co_same: "free_finished i n w = Some w' \<Longrightarrow> co_same w w'"
proof (induction n arbitrary: i w)
  case (Suc n)
  then obtain v where "co_same w v" "free_finished (Suc i) n v = Some w'"
    by (auto simp: bind_eq_Some_conv dest!: upd_co_same)
  with Suc.IH show ?case using co_same_trans by blast
qed simp

lemma thread_handler_co_same:
  assumes "ngx_grpc_cli_thread_handler al arr w = Some w'"
  shows "co_same w w'"
proof -
  obtain tasks n g h where "grpc_engine_wait (w_host w) al arr (w_eng w) (w_heap w) = Some ((tasks, n), g, h)"
    using assms by (auto simp: ngx_grpc_cli_thread_handler_def bind_eq_Some_conv)
  moreover define u where "u = w\<lparr>w_eng := g, w_heap := h, w_finished_tasks := tasks, w_finished_task_num := n\<rparr>"
  ultimately have run: "(if w_exiting w \<or> w_terminate w
      then Option.bind (free_finished 0 (nat n) u) (\<lambda>w. if w_finished_tasks w \<noteq> NULL then free_buf (w_finished_tasks w) w else Some w)
      else Some u) = Some w'"
    using assms by (auto simp: ngx_grpc_cli_thread_handler_def Let_def split: if_splits)
  have "co_same w u" by (simp add: u_def co_same_def)
  moreover have "co_same u w'"
  proof (cases "w_exiting w \<or> w_terminate w")
    case True
    with run have "Option.bind (free_finished 0 (nat n) u)
      (\<lambda>w. if w_finished_tasks w \<noteq> NULL then free_buf (w_finished_tasks w) w else Some w) = Some w'" by simp
    then show ?thesis by (rule bind_co_same) (auto dest: free_finished_co_same upd_co_same split: if_splits)
  qed (use run in simp)
  ultimately show ?thesis by (rule co_same_trans)
qed

text \<open>The operations that put a coroutine to sleep push nothing.\<close>

definition lua_same :: "worker \<Rightarrow> worker \<Rightarrow> bool" where
  "lua_same w w' \<longleftrightarrow> w_lua w' = w_lua w"

lemma lua_same_refl [simp]: "lua_same w w"
  by (simp add: lua_same_def)

lemma lua_same_trans: "lua_same a b \<Longrightarrow> lua_same b c \<Longrightarrow> lua_same a c"
  by (simp add: lua_same_def)

lemma lua_same_upd [simp]:
  "lua_same w (v\<lparr>w_eng := g\<rparr>) = lua_same w v" "lua_same w (v\<lparr>w_sctxs := x\<rparr>) = lua_same w v"
  "lua_same w (v\<lparr>w_task_active := a\<rparr>) = lua_same w v" "lua_same w (upd_queues f v) = lua_same w v"
  "lua_same (w\<lparr>w_eng := g\<rparr>) v = lua_same w v" "lua_same (w\<lparr>w_sctxs := x\<rparr>) v = lua_same w v"
  "lua_same (w\<lparr>w_task_active := a\<rparr>) v = lua_same w v" "lua_same (upd_queues f w) v = lua_same w v"
  "lua_same (w\<lparr>w_num := n\<rparr>) v = lua_same w v" "lua_same (w\<lparr>w_tree := t\<rparr>) v = lua_same w v"
  by (simp_all add: lua_same_def upd_queues_def)

lemma upd_lua_same:
  "upd_sctx p g w = Some w' \<Longrightarrow> lua_same w w'" "upd_co p h w = Some w' \<Longrightarrow> lua_same w w'"
  by (auto simp: lua_same_def upd_sctx_def upd_co_def split: option.splits)

lemma schedule_lua_same:
  "ngx_grpc_cli_schedule_task_thread_if_needed E w = Some (rc, w') \<Longrightarrow> lua_same w w'"
  by (auto simp: ngx_grpc_cli_schedule_task_thread_if_needed_def bind_eq_Some_conv Let_def
      split: if_splits prod.splits)

lemma keep_lua_same: "ngx_grpc_cli_keep_task N n k w = Some (rc, w') \<Longrightarrow> lua_same w w'"
  by (auto simp: ngx_grpc_cli_keep_task_def bind_eq_Some_conv Let_def split: if_splits dest!: upd_lua_same)

lemma arm_lua_same: "arm_wait_co_ctx N h k p opt w = Some w' \<Longrightarrow> lua_same w w'"
  by (auto simp: arm_wait_co_ctx_def bind_eq_Some_conv dest!: upd_lua_same intro: lua_same_trans)

lemma kick_off_lua_same: "ngx_grpc_cli_kick_off_task N E el r k opt w = Some (x, w') \<Longrightarrow> lua_same w w'"
  by (auto simp: ngx_grpc_cli_kick_off_task_def bind_eq_Some_conv split: if_splits option.splits
      dest!: upd_lua_same schedule_lua_same keep_lua_same arm_lua_same intro: lua_same_trans)

lemma submit_task_lua_same: "submit_task N k ctx meth req opt ty w = Some w' \<Longrightarrow> lua_same w w'"
  by (auto simp: submit_task_def bind_eq_Some_conv split: if_splits)

lemma take_stream_ctx_lua_same: "take_stream_ctx N E ctx w = Some (k, w') \<Longrightarrow> lua_same w w'"
  by (auto simp: take_stream_ctx_def bind_eq_Some_conv Let_def split: if_splits dest!: upd_lua_same)

lemma new_stream_lua_same:
  "ngx_grpc_cli_new_stream N E el r is_http ctx meth req opt ty w = Some (x, w') \<Longrightarrow> lua_same w w'"
  by (auto simp: ngx_grpc_cli_new_stream_def bind_eq_Some_conv split: if_splits
      dest!: upd_lua_same take_stream_ctx_lua_same kick_off_lua_same submit_task_lua_same intro: lua_same_trans)

lemma stream_ops_lua_same:
  "ngx_grpc_cli_stream_recv N E el r k opt w = Some (x, w') \<Longrightarrow> lua_same w w'"
  "ngx_grpc_cli_stream_send N E el r k opt req w = Some (x, w') \<Longrightarrow> lua_same w w'"
  "ngx_grpc_cli_stream_close_send N E el r k opt w = Some (x, w') \<Longrightarrow> lua_same w w'"
  by (auto simp: ngx_grpc_cli_stream_recv_def ngx_grpc_cli_stream_send_def ngx_grpc_cli_stream_close_send_def
      bind_eq_Some_conv split: if_splits dest!: kick_off_lua_same)

subsection \<open>Calls of the Lua library\<close>

text \<open>An operation that starts a task or refuses to.\<close>

lemma started_or_refused:
  assumes "waits_ok w" "can_wait w h r" "lua_same w w'" "task_started w w' k h r \<or> task_refused w w'"
  shows "waits_run (abs_waits w) (abs_waits w')"
  using assms(4)
proof
  assume "task_started w w' k h r"
  with assms show ?thesis by (intro waits_run_step started_step) (simp_all add: lua_same_def)
next
  assume "task_refused w w'"
  with assms(3) show ?thesis by (intro waits_run_eq abs_waits_eqI) (simp_all add: task_refused_def lua_same_def)
qed

lemma waiting_for_Some:
  "waiting_for w p = Some k \<longleftrightarrow> (\<exists>c. w_cos w p = Some c \<and> armed c \<and> co_data c = k)"
  by (simp add: waiting_for_def split: option.split)

lemma waiting_for_lua_change:
  assumes "lua_change w w'"
  shows "abs_waits w' = abs_waits w"
proof -
  have eq: "w' = w\<lparr>w_cos := w_cos w', w_http := w_http w', w_stream := w_stream w'\<rparr>"
    and keep: "\<And>p c. w_cos w p = Some c \<Longrightarrow> armed c \<Longrightarrow> w_cos w' p = Some c"
      "\<And>p c. w_cos w' p = Some c \<Longrightarrow> armed c \<Longrightarrow> w_cos w p = Some c"
    using assms unfolding lua_change_def by blast+
  have "waiting_for w' p = Some k \<longleftrightarrow> waiting_for w p = Some k" for p k
    unfolding waiting_for_Some using keep by blast
  then have "waiting_for w' p = waiting_for w p" for p by (metis not_None_eq)
  moreover have "w_lua w' = w_lua w" by (subst eq) simp
  ultimately show ?thesis by (simp add: abs_waits_def fun_eq_iff)
qed

context ngx_laws
begin

lemma aborted_waits:
  assumes "winv w" "w_cos w p = Some c" "co_cleanup c = HttpCleanup \<or> co_cleanup c = StreamCleanup"
    "x = ngx_http_grpc_cli_cleanup N p w \<or> x = ngx_stream_grpc_cli_cleanup N p w" "aborted p x = Some w'"
  shows "waits_run (abs_waits w) (abs_waits w')"
proof (rule cleanup_ok [OF assms(1-4)], goal_cases)
  case (1 v)
  then have v: "v = w'" using assms(5) by simp
  have "waits_step (abs_waits w) (abs_waits w')"
    by (rule cancel_step [OF assms(2)]) (use 1 assms(3) in \<open>auto simp: v armed_def\<close>)
  then show ?case by (rule waits_run_step)
qed

lemma stream_op_waits:
  assumes "winv w" "open_stream w k" "env_ok E w" "w_sctxs w k = Some s" "can_wait w (sctx_is_http s) r"
    "run = ngx_grpc_cli_stream_recv N E el r k opt w \<or> run = ngx_grpc_cli_stream_send N E el r k opt req w \<or>
     run = ngx_grpc_cli_stream_close_send N E el r k opt w"
    "map_option snd run = Some w'"
  shows "waits_run (abs_waits w) (abs_waits w')"
proof -
  obtain y where y: "run = Some (y, w')" using assms(7) by auto
  have "lua_same w w'"
    using assms(6) unfolding y
    by (elim disjE) (rule stream_ops_lua_same [where x = y], rule sym, assumption)+
  note ends = started_or_refused [OF winv_butD(2) [OF assms(1)] assms(5) this, of k]
  show ?thesis
  proof (cases "StreamRef (w_eng w) k")
    case None
    show ?thesis
      by (rule stream_ops_unknown [OF assms(1,3,2,4,5) None assms(6)]) (use y ends in auto)
  next
    case (Some i)
    show ?thesis by (rule stream_ops_ok [OF assms(1,3,2,4,5) Some assms(6)]) (use y ends in auto)
  qed
qed

lemma client_call_waits:
  assumes "client_call N e w (Some w')" and inv: "winv w"
  shows "waits_run (abs_waits w) (abs_waits w')"
proof -
  note waits = winv_butD(2) [OF inv]
  show ?thesis
    using assms(1)
  proof cases
    case (connect E G target dial_opt)
    then show ?thesis using co_sameD [OF connect_co_same] by simp
  next
    case (close ctx r)
    then show ?thesis using co_sameD [OF close_co_same] by simp
  next
    case (new_stream ctx E is_http r opt el meth req ty)
    obtain c where "w_ctxs w ctx = Some c" "\<not> free_delayed c" using held_connD [OF new_stream(3)] by blast
    then show ?thesis
      by (rule new_stream_ok [OF inv new_stream(4) _ new_stream(5,6), of ctx c el meth req ty])
        (use new_stream started_or_refused [OF waits new_stream(5) new_stream_lua_same] in \<open>force+\<close>)
  next
    case (call ctx E is_http r opt el meth req)
    obtain c where c: "w_ctxs w ctx = Some c" "\<not> free_delayed c" using held_connD [OF call(3)] by blast
    show ?thesis
      by (rule new_stream_ok [OF inv call(4) c(1) call(5,6) c(2), of el meth req STREAM_TYPE_UNARY])
        (use call started_or_refused [OF waits call(5) new_stream_lua_same] in \<open>force simp: ngx_grpc_cli_call_def\<close>)+
  next
    case (stream_recv k E s r el opt)
    show ?thesis by (rule stream_op_waits [OF inv stream_recv(3-6) disjI1 [OF refl] stream_recv(2) [symmetric]])
  next
    case (stream_send k E s r el opt req)
    show ?thesis by (rule stream_op_waits [OF inv stream_send(3-6) disjI2 [OF disjI1 [OF refl]] stream_send(2) [symmetric]])
  next
    case (stream_close_send k E s r el opt)
    show ?thesis by (rule stream_op_waits [OF inv stream_close_send(3-6) disjI2 [OF disjI2 [OF refl]] stream_close_send(2) [symmetric]])
  next
    case (close_stream k r)
    then show ?thesis using co_sameD [OF close_stream_co_same] by simp
  next
    case (abort_http p c)
    show ?thesis by (rule aborted_waits [OF inv abort_http(3) _ _ abort_http(2) [symmetric]]) (use abort_http(4) in simp_all)
  next
    case (abort_stream p c)
    show ?thesis by (rule aborted_waits [OF inv abort_stream(3) _ _ abort_stream(2) [symmetric]]) (use abort_stream(4) in simp_all)
  next
    case lua
    then show ?thesis using waiting_for_lua_change by simp
  next
    case (goroutine G i g)
    then show ?thesis by (intro waits_run_eq abs_waits_eqI) simp_all
  next
    case engine_timer
    then show ?thesis by (intro waits_run_eq abs_waits_eqI) simp_all
  qed
qed

lemma lua_runs_waits:
  assumes "lua_runs N w w'" "winv w"
  shows "waits_run (abs_waits w) (abs_waits w')"
  using assms unfolding lua_runs_def
proof (induction rule: rtranclp_induct)
  case (step y z)
  then have "winv y" using lua_runs_ok [of w y] by (simp add: lua_runs_def)
  with step show ?case using client_call_waits waits_run_trans by blast
qed simp

end

subsection \<open>Events\<close>

context lua_laws
begin

text \<open>An ended wait: an answer, then a run of Lua code.\<close>

lemma answered_waits:
  assumes "winv w1" "lua_runs N w1 w2" "w_cos w p = Some c" "armed c" "w_cos w1 = (w_cos w)(p \<mapsto> disarmed c)"
    "w_lua w1 = w_lua w @ [(p, vs)]"
  shows "waits_run (abs_waits w) (abs_waits w2)"
proof -
  have "waits_step (abs_waits w) (abs_waits w1)" by (rule answer_step [OF assms(3,4) _ assms(5,6)]) simp
  then show ?thesis using lua_runs_waits [OF assms(2,1)] by (metis waits_run_step waits_run_trans)
qed

lemma kept_armed:
  assumes "winv w" "w_sctxs w k = Some s" "sctx_node s \<noteq> NULL" "w_cos w (sctx_wait_co_ctx s) = Some c"
  shows "armed c"
  using waits_okD(4) [OF winv_butD(2) [OF assms(1)] assms(2,3)] assms(4) by (auto simp: armed_for_def armed_def)

lemma timeout_waits:
  assumes "winv w" "results_ok d w" "w_cos w p = Some c" "ev_timer_set (co_sleep c)"
    "ev_handler (co_sleep c) = TimeoutHandler"
    "ngx_grpc_cli_timeout_handler N L (ev_data (co_sleep c))
       (w\<lparr>w_cos := (w_cos w)(p \<mapsto> c\<lparr>co_sleep := (co_sleep c)\<lparr>ev_timer_set := False\<rparr>\<rparr>)\<rparr>) = Some w'"
  shows "waits_run (abs_waits w) (abs_waits w')"
proof (rule timeout_handler_ok [OF assms(1-5)], goal_cases)
  case (1 w1 w2)
  have "armed c" using assms(4,5) by (simp add: armed_def)
  then have "waits_run (abs_waits w) (abs_waits w2)"
    using 1 assms(3) by (intro answered_waits [where p = p and c = c]) simp_all
  then show ?case using 1(1) assms(6) by simp
qed

lemma round_waits:
  assumes inv: "winv w" and ok: "results_ok d w" and occ: "w_queues w ThOccupied = x # xs"
    and run: "post_event_round N w = Some (ctx, w1)"
      "(case ctx of None \<Rightarrow> Some w1 | Some ctx \<Rightarrow> ngx_grpc_cli_to_resume N L ctx w1) = Some w2"
  shows "waits_run (abs_waits w) (abs_waits w2)"
proof (rule round_ok [OF inv ok occ], goal_cases)
  case (1 r w')
  then have "ctx = None" "w2 = w1" using run by simp_all
  moreover have "post_event_round N w = Some (None, w1) \<Longrightarrow> co_same w w1"
    by (auto simp: post_event_round_def Let_def bind_eq_Some_conv split: if_splits dest!: upd_co_same(3))
  ultimately have "co_same w w2" using run(1) by simp
  then show ?case using co_sameD by (intro waits_run_eq)
next
  case (2 r w0 s c)
  let ?k = "task_id r" and ?s1 = "s\<lparr>sctx_res := r\<rparr>"
  have eq0: "w0 = w\<lparr>w_queues := w_queues w0\<rparr>" by (fact 2(5))
  have sel: "w_sctxs w0 = w_sctxs w" "w_cos w0 = w_cos w" "w_lua w0 = w_lua w" "w_heap w0 = w_heap w"
    by (subst eq0, simp)+
  have "armed c" using kept_armed [OF inv 2(6-8)] .
  have res: "ngx_grpc_cli_to_resume N L ?k w1 = Some w2" using run 2(11) by auto
  show ?case
  proof (rule resume_round_ok [OF 2(3), of ?k s c ?s1], goal_cases)
    case (11 v1 v2)
    then have "v2 = w2" using res run(1) 2(11) by (simp add: sel)
    with 11 show ?case using 2(8) \<open>armed c\<close> by (intro answered_waits [of v1 w2 w]) (simp_all add: sel)
  qed (use 2 in \<open>simp_all add: sel\<close>)
qed

lemma post_event_waits:
  assumes "winv w" "results_ok d w" "ngx_grpc_cli_thread_post_event_handler N L w = Some w'"
  shows "waits_run (abs_waits w) (abs_waits w')"
  using assms
proof (induction "w_queues w ThOccupied" arbitrary: w)
  case Nil
  then show ?case
    by (subst (asm) ngx_grpc_cli_thread_post_event_handler.simps) (simp add: queue_empty)
next
  case (Cons x xs)
  obtain ctx w1 w2 r where step: "post_event_round N w = Some (ctx, w1)"
    "(case ctx of None \<Rightarrow> Some w1 | Some ctx \<Rightarrow> ngx_grpc_cli_to_resume N L ctx w1) = Some w2"
    "winv w2" "results_ok d w2" "w_queues w2 ThOccupied = xs"
    using post_event_round_ok [OF Cons.prems(1,2) Cons.hyps(2) [symmetric]] by metis
  have "ngx_grpc_cli_thread_post_event_handler N L w = ngx_grpc_cli_thread_post_event_handler N L w2"
    using step(1,2) by (subst ngx_grpc_cli_thread_post_event_handler.simps) (simp add: queue_empty Cons.hyps(2) [symmetric])
  then have "ngx_grpc_cli_thread_post_event_handler N L w2 = Some w'" using Cons.prems(3) by simp
  then have "waits_run (abs_waits w2) (abs_waits w')" using Cons.hyps(1) step(3-5) by simp
  with round_waits [OF Cons.prems(1,2) Cons.hyps(2) [symmetric] step(1,2)] show ?case by (rule waits_run_trans)
qed

theorem worker_step_waits:
  assumes "worker_step N L s e y" and out: "y = Some s'" and inv: "sys_inv s"
  shows "waits_run (abs_waits (fst s)) (abs_waits (fst s'))"
  using assms(1)
proof cases
  case (client c w x ph)
  then have "winv w" using inv by (simp add: sys_inv_def)
  with client out client_call_waits show ?thesis by (cases x) auto
next
  case (blocking w ctx c opt stack meth req g al arr ph el)
  then have "winv w" using inv by (simp add: sys_inv_def)
  show ?thesis
  proof (rule blocking_ok [OF \<open>winv w\<close> blocking(5,6,9) refl, of N el], goal_cases)
    case (1 w')
    then have "s' = (w', ph)" using out blocking(3) by simp
    moreover have eq: "w' = w\<lparr>w_eng := w_eng w', w_heap := w_heap w'\<rparr>" using 1(2) unfolding blocking_left_def by blast
    have "abs_waits w' = abs_waits w" by (subst eq) (rule abs_waits_eqI; simp)
    ultimately show ?case using blocking(1) by simp
  next
    case 2
    then show ?case using out blocking(3) by simp
  qed
next
  case (thread w al arr)
  with out co_sameD [OF thread_handler_co_same] show ?thesis by auto
next
  case (completion ph E w)
  moreover have "abs_waits (w\<lparr>w_task_active := False\<rparr>) = abs_waits w" by (rule abs_waits_eqI) simp_all
  ultimately show ?thesis using out co_sameD [OF thread_event_co_same] by fastforce
next
  case (posted w ph)
  let ?w = "w\<lparr>w_posted := False\<rparr>"
  have "winv ?w" "results_ok (ph = Collected) ?w" "abs_waits ?w = abs_waits w"
    using inv posted(1) by (auto simp: sys_inv_def phase_ok_def winv_flags results_ok_flags intro: abs_waits_eqI)
  moreover obtain w' where "ngx_grpc_cli_thread_post_event_handler N L ?w = Some w'" "s' = (w', ph)"
    using posted(3) out by (cases "ngx_grpc_cli_thread_post_event_handler N L ?w") simp_all
  ultimately show ?thesis using post_event_waits [of ?w _ w'] posted(1) by simp
next
  case (timer w p c ph)
  then have "winv w" "results_ok (ph = Collected) w" using inv by (simp_all add: sys_inv_def phase_ok_def)
  moreover let ?x = "ngx_grpc_cli_timeout_handler N L (ev_data (co_sleep c))
      (w\<lparr>w_cos := (w_cos w)(p \<mapsto> c\<lparr>co_sleep := (co_sleep c)\<lparr>ev_timer_set := False\<rparr>\<rparr>)\<rparr>)"
  obtain w' where "?x = Some w'" "s' = (w', ph)" using timer(3) out by (cases ?x) simp_all
  ultimately show ?thesis using timeout_waits [of w _ p c w'] timer(1,4-6) by simp
next
  case (signal w ex tm ph q)
  with out show ?thesis by (auto intro!: waits_run_eq abs_waits_eqI)
qed

lemma reachable_waits:
  assumes "reachable N L s"
  shows "waits_run (Map.empty, []) (abs_waits (fst s))"
  using assms
proof (induction rule: reachable.induct)
  case (start D host conf)
  let ?w = "snd (ngx_grpc_cli_init_worker N D (fresh_worker host conf))"
  have "w_cos ?w = Map.empty" "w_lua ?w = []"
    by (simp_all add: ngx_grpc_cli_init_worker_def ngx_grpc_cli_thread_def fresh_worker_def upd_queues_def Let_def)
  then have "abs_waits ?w = (Map.empty, [])" by (simp add: abs_waits_def waiting_for_def fun_eq_iff)
  then show ?case by simp
next
  case (step s e s')
  then show ?case using worker_step_waits [OF step(2) refl reachable_inv] waits_run_trans by blast
qed

end

end
