(* ===== verification/Event_Props.thy ===== *)
theory Event_Props
  imports Examples Abstract_Waits
begin

text \<open>
  The properties of the events that end a wait (a result, a timeout, an abort), of the
  background thread and of its completion event, for every implementation of the nginx
  queues and trees and every Lua module that satisfies \<open>lua_laws\<close>.
\<close>

subsection \<open>Results\<close>

text \<open>C2. A queued result whose task is kept is delivered: the coroutine that waits for this task, and no other,
  gets the value the result stands for, its buffer is freed, its task leaves the table, all before any Lua code
  runs; the invariants hold again and the results still queued are unchanged.\<close>

theorem result_delivered:
  assumes "lua_laws N L" "winv w" "results_ok d w" "pending w = r # rs" "task_id r \<in> kept w"
  shows "\<exists>s wr w1 w2. w_sctxs w (task_id r) = Some s \<and> post_event_round N w = Some (Some (task_id r), wr) \<and>
           ngx_grpc_cli_to_resume N L (task_id r) wr = Some w2 \<and> winv w1 \<and> lua_runs N w1 w2 \<and>
           w_lua w1 = w_lua w @ [(sctx_wait_co_ctx s, result_values (w_heap w) r)] \<and> kept w1 = kept w - {task_id r} \<and>
           winv w2 \<and> results_ok d w2 \<and> pending w2 = rs \<and>
           w_heap w2 = heap_free (w_heap w) (res_untag (res_buf r))"
proof -
  note laws = lua_laws.axioms(1) [OF assms(1)]
  have "w_queues w ThOccupied \<noteq> []" using assms(4) by (auto simp: pending_def map_filter_simps)
  then obtain x xs where occ: "w_queues w ThOccupied = x # xs" by (cases "w_queues w ThOccupied") auto
  obtain ctx wr w2 where round: "post_event_round N w = Some (ctx, wr)"
    "(case ctx of None \<Rightarrow> Some wr | Some ctx \<Rightarrow> ngx_grpc_cli_to_resume N L ctx wr) = Some w2"
    "winv w2" "results_ok d w2" "pending w2 = rs" "w_heap w2 = heap_free (w_heap w) (res_untag (res_buf r))"
    by (rule lua_laws.post_event_round_ok [OF assms(1-3) occ], rule that) (use assms(4) in auto)
  show ?thesis
  proof (rule ngx_laws.round_ok [OF laws assms(2,3) occ], goal_cases)
    case (1 r' w')
    then show ?case using assms(4,5) by simp
  next
    case (2 r' w0 s c)
    then have r': "r' = r" using assms(4) by simp
    have eq0: "w0 = w\<lparr>w_queues := w_queues w0\<rparr>" by (fact 2(5))
    have sel: "w_sctxs w0 = w_sctxs w" "w_cos w0 = w_cos w" "w_heap w0 = w_heap w" "w_lua w0 = w_lua w"
      "kept w0 = kept w"
      by (subst eq0, simp add: kept_def)+
    let ?s1 = "s\<lparr>sctx_res := r\<rparr>"
    have vals: "wait_values h ?s1 = result_values h r" for h using 2(9) by (simp add: wait_values_def)
    show ?case
    proof (rule lua_laws.resume_round_ok [OF assms(1) 2(3), of "task_id r" s c ?s1], goal_cases)
      case (11 w1 w2')
      then show ?case using round 2(6,11) by (auto simp: r' sel vals)
    qed (use 2(6-10) in \<open>simp_all add: sel r'\<close>)
  qed
qed

theorem result_delivered_witness:
  "\<exists>wr w1 w2. post_event_round list_api (ex_posted ex_wait) = Some (Some 0x5000, wr) \<and>
     ngx_grpc_cli_to_resume list_api yielding_lua 0x5000 wr = Some w2 \<and>
     w_lua w1 = [(0x3000, [LuaBool True, LuaStr [104, 105]])] \<and>
     lua_runs list_api w1 w2 \<and> winv w2"
proof -
  have p: "pending (ex_posted ex_wait) = ex_res # []" "task_id ex_res \<in> kept (ex_posted ex_wait)"
    using ex_kept(1) by (simp_all add: pending_def ex_posted_def map_filter_simps ex_res_def kept_def)
  have s: "w_sctxs (ex_posted ex_wait) (task_id ex_res) = Some ((ex_sctx 0)\<lparr>sctx_node := 0x6000, sctx_wait_co_ctx := 0x3000\<rparr>)"
    "w_lua (ex_posted ex_wait) = []" "task_id ex_res = 0x5000"
    by (simp_all add: ex_posted_def ex_sel ex_res_def)
  have v: "result_values (w_heap (ex_posted ex_wait)) ex_res = [LuaBool True, LuaStr [104, 105]]"
    by (simp add: result_values_def ex_posted_def ex_res_def res_type_def res_untag_alt)
  show ?thesis
    using result_delivered [OF yielding_lua_laws ex_posted_winv p] s v by auto
qed

text \<open>C16. A queued result whose task is no longer kept, because of a timeout or an abort, is dropped: its buffer is
  freed, nothing is resumed and no coroutine, task or other result is touched.\<close>

theorem cancelled_result_freed:
  assumes "ngx_laws N" "winv w" "results_ok d w" "pending w = r # rs" "task_id r \<notin> kept w"
  shows "\<exists>w'. post_event_round N w = Some (None, w') \<and> winv w' \<and> results_ok d w' \<and> pending w' = rs \<and>
           w_heap w' = heap_free (w_heap w) (res_untag (res_buf r)) \<and> w_lua w' = w_lua w \<and> kept w' = kept w \<and>
           w_eng w' = w_eng w"
proof -
  have "w_queues w ThOccupied \<noteq> []" using assms(4) by (auto simp: pending_def map_filter_simps)
  then obtain x xs where "w_queues w ThOccupied = x # xs" by (cases "w_queues w ThOccupied") auto
  then show ?thesis
    by (rule ngx_laws.round_ok [OF assms(1-3)]) (use assms(4,5) in auto)
qed

theorem cancelled_result_freed_witness:
  "\<exists>w'. post_event_round list_api (ex_posted ex_idle) = Some (None, w') \<and> w_lua w' = [] \<and> w_heap w' 0x8000 = None"
proof -
  have inv: "winv (ex_posted ex_idle)"
  proof (rule winv_frame)
    show "winv (ex_idle\<lparr>w_pctxs := (w_pctxs ex_idle)(0x7000 \<mapsto> ex_res),
        w_queues := (w_queues ex_idle)(ThOccupied := w_queues ex_idle ThOccupied @ [PctxQueue 0x7000])\<rparr>)"
      using ex_idle_winv by (rule winv_occupy(1)) (simp_all add: linked_def ex_idle_def fresh_worker_def)
  qed (simp_all add: ex_posted_def ex_idle_def fresh_worker_def)
  have ok: "results_ok False (ex_posted ex_idle)"
    by (simp add: results_ok_def buffers_ok_def pending_def ex_posted_def map_filter_simps res_ok_def
        ex_res_def res_type_def res_untag_alt ex_idle_def fresh_worker_def)
  have p: "pending (ex_posted ex_idle) = ex_res # []" "task_id ex_res \<notin> kept (ex_posted ex_idle)"
    by (simp_all add: pending_def ex_posted_def map_filter_simps ex_res_def kept_def ex_idle_def fresh_worker_def)
  show ?thesis
    using cancelled_result_freed [OF list_api_laws inv ok p]
    by (auto simp: heap_free_def ex_res_def res_untag_alt ex_posted_def ex_idle_def fresh_worker_def)
qed

text \<open>C6. The posted event handler returns, whatever the Lua code it resumes does: it empties the \<^verbatim>\<open>occupied\<close> queue, frees
  the buffers of all queued results and no other block, and keeps the invariants.\<close>

theorem posted_event_drains:
  assumes "lua_laws N L" "winv w" "results_ok d w"
  shows "\<exists>w'. ngx_grpc_cli_thread_post_event_handler N L w = Some w' \<and> winv w' \<and> results_ok d w' \<and>
           w_queues w' ThOccupied = [] \<and>
           w_heap w' = (\<lambda>p. if p \<in> set (blocks (pending w)) then None else w_heap w p)"
  using lua_laws.post_event_handler_ok [OF assms] by blast

theorem posted_event_drains_witness:
  "\<exists>w'. ngx_grpc_cli_thread_post_event_handler list_api yielding_lua (ex_posted ex_wait) = Some w' \<and> winv w' \<and>
     w_queues w' ThOccupied = []"
  using posted_event_drains [OF yielding_lua_laws ex_posted_winv] by blast

subsection \<open>Timeouts and aborts\<close>

text \<open>C17. An expired timer ends exactly the wait it was armed for: its coroutine gets \<^verbatim>\<open>false\<close> and \<^verbatim>\<open>timeout\<close>, the task leaves
  the table so that its later result is dropped, no buffer is touched, and the invariants hold.\<close>

theorem timeout_delivers:
  assumes "lua_laws N L" "winv w" "results_ok d w" "w_cos w p = Some c"
    "ev_timer_set (co_sleep c)" "ev_handler (co_sleep c) = TimeoutHandler"
  shows "\<exists>w1 w2. ngx_grpc_cli_timeout_handler N L (ev_data (co_sleep c))
             (w\<lparr>w_cos := (w_cos w)(p \<mapsto> c\<lparr>co_sleep := (co_sleep c)\<lparr>ev_timer_set := False\<rparr>\<rparr>)\<rparr>) = Some w2 \<and>
           winv w1 \<and> lua_runs N w1 w2 \<and> ev_data (co_sleep c) \<in> kept w \<and>
           kept w1 = kept w - {ev_data (co_sleep c)} \<and>
           w_lua w1 = w_lua w @ [(p, [LuaBool False, LuaStr (bytes_of ''timeout'')])] \<and>
           winv w2 \<and> results_ok d w2 \<and> w_heap w2 = w_heap w"
  by (rule lua_laws.timeout_handler_ok [OF assms]) blast

theorem timeout_delivers_witness:
  "\<exists>w1 w2. ngx_grpc_cli_timeout_handler list_api yielding_lua 0x5000
       (ex_wait\<lparr>w_cos := (w_cos ex_wait)(0x3000 \<mapsto> \<lparr>co_data = 0x5000, co_sleep = \<lparr>ev_handler = TimeoutHandler,
          ev_data = 0x5000, ev_timer_set = False, ev_timer = 60000\<rparr>, co_cleanup = HttpCleanup\<rparr>)\<rparr>) = Some w2 \<and>
     kept w1 = {} \<and> w_lua w1 = [(0x3000, [LuaBool False, LuaStr (bytes_of ''timeout'')])] \<and>
     lua_runs list_api w1 w2 \<and> winv w2"
proof -
  have ok: "results_ok False ex_wait"
    by (simp add: results_ok_def buffers_ok_def pending_def ex_sel map_filter_simps)
  show ?thesis
    using timeout_delivers [OF yielding_lua_laws ex_started_winv(1) ok ex_sel(3)] ex_kept(1)
    by (auto simp: ex_sel)
qed

text \<open>C18. The cleanup handler of an aborted coroutine cancels its wait: its task, which was kept, leaves the table and
  the counter, its timer is stopped, and the invariant holds once the Lua module has forgotten the handler.
  Nothing else changes: of the whole worker only the table, the counter, this stream context's node and this
  coroutine's timer and cleanup handler differ, so that no value is pushed and no queue, result, connection, request,
  block of memory, goroutine or other coroutine is touched.\<close>

theorem abort_unkeeps:
  assumes "ngx_laws N" "winv w" "w_cos w p = Some c"
    "co_cleanup c = HttpCleanup \<or> co_cleanup c = StreamCleanup"
    "run = ngx_http_grpc_cli_cleanup N p w \<or> run = ngx_stream_grpc_cli_cleanup N p w"
  shows "\<exists>w' s. aborted p run = Some w' \<and> winv w' \<and> thread_same w w' \<and> co_data c \<in> kept w \<and>
           kept w' = kept w - {co_data c} \<and> w_eng w' = w_eng w \<and>
           ngx_grpc_cli_lookup_task (co_data c) w' = None \<and>
           w_sctxs w (co_data c) = Some s \<and>
           w' = w\<lparr>w_tree := w_tree w', w_num := w_num w',
                  w_sctxs := (w_sctxs w)(co_data c \<mapsto> s\<lparr>sctx_node := NULL\<rparr>),
                  w_cos := (w_cos w)(p \<mapsto> c\<lparr>co_sleep := (co_sleep c)\<lparr>ev_timer_set := False\<rparr>, co_cleanup := NoCleanup\<rparr>)\<rparr> \<and>
           w_num w = int (card (kept w)) \<and> w_num w' = int (card (kept w'))"
proof (rule ngx_laws.cleanup_ok [OF assms], goal_cases)
  case (1 w')
  obtain s where s: "w_sctxs w (co_data c) = Some s" using 1(4) by (auto simp: kept_def)
  have eq: "w' = w\<lparr>w_tree := w_tree w', w_num := w_num w', w_sctxs := (w_sctxs w)(co_data c \<mapsto> s\<lparr>sctx_node := NULL\<rparr>),
      w_cos := (w_cos w)(p \<mapsto> c\<lparr>co_sleep := (co_sleep c)\<lparr>ev_timer_set := False\<rparr>, co_cleanup := NoCleanup\<rparr>)\<rparr>"
    using 1(12) unfolding 1(10) 1(11) [OF s] .
  have look: "ngx_grpc_cli_lookup_task (co_data c) w' = None"
    using 1(5) lookup_task_kept [OF winv_butD(1) [OF 1(2)]] by simp
  show ?case
    by (intro exI [of _ w'] exI [of _ s] conjI 1(1-6) look s eq
        task_num_card [OF winv_butD(1) [OF assms(2)]] task_num_card [OF winv_butD(1) [OF 1(2)]])
qed

theorem abort_unkeeps_witness:
  "\<exists>w'. aborted 0x3000 (ngx_http_grpc_cli_cleanup list_api 0x3000 ex_wait) = Some w' \<and> winv w' \<and> kept w' = {} \<and>
     w_num ex_wait = 1 \<and> w_num w' = 0"
  using abort_unkeeps [OF list_api_laws ex_started_winv(1) ex_sel(3), of "ngx_http_grpc_cli_cleanup list_api 0x3000 ex_wait"]
    ex_kept(1)
  by auto

subsection \<open>The background thread\<close>

text \<open>C14. The thread, woken by the engine in a worker that is not shutting down, collects every queued result, in
  order, into a fresh array it owns, leaves the engine's queue empty, and touches no task.\<close>

theorem thread_collects:
  assumes "winv w" "results_ok False w" "w_task_active w" "tq_done (finishedTaskQueue (w_eng w))"
    "\<not> w_exiting w" "\<not> w_terminate w" "wait_alloc_ok al arr w"
  shows "\<exists>w'. ngx_grpc_cli_thread_handler al arr w = Some w' \<and> winv w' \<and> results_ok True w' \<and>
           map task_id (finished w') = map tr_id (tq_tasks (finishedTaskQueue (w_eng w))) \<and>
           tq_tasks (finishedTaskQueue (w_eng w')) = [] \<and> pending w' = pending w \<and> kept w' = kept w"
  by (rule thread_handler_ok [OF assms]) blast

theorem thread_collects_witness:
  "\<exists>w'. ngx_grpc_cli_thread_handler ex_al 0x9000 ex_reported = Some w' \<and> winv w' \<and>
     map task_id (finished w') = [0x4000, 0x5000]"
  using thread_collects [OF ex_thread_ok(1-7), of ex_reported] ex_reported_sel(1) by auto

text \<open>C15. The completion event appends the collected results to the \<^verbatim>\<open>occupied\<close> queue in their order (all of them,
  when memory lasts); when there was a result it frees the array, which was allocated, and no other block, forgets
  the pointer, and posts the event; and it reposts the thread exactly when the worker is not quitting and more
  tasks are kept than results were collected.  It touches neither the engine nor any coroutine.\<close>

theorem completion_posts_in_order:
  assumes "ngx_laws N" "winv w" "results_ok True w" "pctx_alloc_ok E 0 w" "task_post_ok E"
  shows "\<exists>w' rs. ngx_grpc_cli_thread_event_handler N E (w\<lparr>w_task_active := False\<rparr>) = Some w' \<and>
           winv w' \<and> results_ok False w' \<and> pending w' = pending w @ rs \<and> subseq rs (finished w) \<and>
           ((\<forall>j<nat (w_finished_task_num w). sys_alloc E j \<noteq> NULL) \<longrightarrow> rs = finished w) \<and> kept w' = kept w \<and>
           (w_posted w' \<longleftrightarrow> w_posted w \<or> 0 < w_finished_task_num w) \<and>
           (if 0 < w_finished_task_num w
            then w_finished_tasks w \<in> dom (w_heap w) \<and> w_finished_tasks w' = NULL \<and>
                 w_heap w' = (w_heap w)(w_finished_tasks w := None)
            else w_finished_tasks w' = w_finished_tasks w \<and> w_heap w' = w_heap w) \<and>
           (w_task_active w' \<longleftrightarrow> \<not> w_quit w \<and> \<not> w_exiting w \<and> w_finished_task_num w < int (card (kept w)) \<and>
              fst (sys_task_post E False) = NGX_OK) \<and>
           w_eng w' = w_eng w \<and> w_cos w' = w_cos w \<and> w_lua w' = w_lua w"
proof (rule ngx_laws.event_handler_ok [OF assms], goal_cases)
  case (1 w' rs)
  have "co_same w w'" using thread_event_co_same [OF 1(1)] by simp
  then have "w_cos w' = w_cos w" "w_lua w' = w_lua w" by (simp_all add: co_same_def)
  with 1 show ?case by (intro exI [of _ w'] exI [of _ rs]) simp
qed

theorem completion_posts_in_order_witness:
  "\<exists>w'. ngx_grpc_cli_thread_event_handler list_api ex_penv (ex_done\<lparr>w_task_active := False\<rparr>) = Some w' \<and>
     winv w' \<and> kept w' = {0x5000} \<and> w_finished_tasks ex_done \<in> dom (w_heap ex_done) \<and>
     w_finished_tasks ex_done \<notin> dom (w_heap w')"
proof -
  have "0 < w_finished_task_num ex_done"
    using ex_done_ok(3,4) by (cases "finished ex_done") (auto simp: results_ok_def)
  with completion_posts_in_order [OF list_api_laws ex_done_ok(2,3) ex_penv_ok [OF ex_done_pctxs(1)]] ex_done_ok(5)
  show ?thesis by auto
qed

text \<open>C36. The completion event counts results, not tasks: when the collected results are at least as many as the kept
  tasks, the thread is not posted again, even if none of the results belongs to a kept task.  Such a task stays kept
  with no thread to fetch its result.\<close>

theorem thread_stalls:
  assumes "ngx_laws N" "winv w" "results_ok True w" "pctx_alloc_ok E 0 w" "task_post_ok E"
    "k \<in> kept w" "k \<notin> task_id ` set (pending w @ finished w)" "int (card (kept w)) \<le> w_finished_task_num w"
  shows "\<exists>w'. ngx_grpc_cli_thread_event_handler N E (w\<lparr>w_task_active := False\<rparr>) = Some w' \<and>
           k \<in> kept w' \<and> k \<notin> task_id ` set (pending w') \<and> \<not> w_task_active w'"
proof (rule ngx_laws.event_handler_ok [OF assms(1-5)], goal_cases)
  case (1 w' rs)
  then have "set rs \<subseteq> set (finished w)" by (auto dest: list_emb_set)
  with 1 assms(6-8) show ?case by auto
qed

theorem thread_stalls_witness:
  "\<exists>w'. ngx_grpc_cli_thread_event_handler list_api ex_penv (ex_late_done\<lparr>w_task_active := False\<rparr>) = Some w' \<and>
     0x5000 \<in> kept w' \<and> \<not> w_task_active w'"
proof -
  have fin: "w_finished_task_num ex_late_done = 1" "pending ex_late_done = []"
    by (simp_all add: ex_late_done_def ngx_grpc_cli_thread_handler_def grpc_engine_wait_def taskQueue_Wait_eq pending_def
        ex_reported_sel ex_late_def ex_sel map_filter_simps NewTaskQueue_def)
  have ids: "task_id ` set (finished ex_late_done) = {0x4000}"
    using ex_late_done_ok(4) by (metis list.set(1,2) list.set_map)
  have "0x5000 \<in> kept ex_late_done" "0x5000 \<notin> task_id ` set (pending ex_late_done @ finished ex_late_done)"
    "int (card (kept ex_late_done)) \<le> w_finished_task_num ex_late_done"
    using fin ids by (simp_all add: ex_late_done_ok(5))
  from thread_stalls [OF list_api_laws ex_late_done_ok(2,3) ex_penv_ok [OF ex_done_pctxs(2)] this]
  show ?thesis by blast
qed

text \<open>C19. Resuming a stream context is its delivery followed by a run of Lua code: the code path over the request's
  phase, content phase or not, in both subsystems, refines the single operation \<open>deliver\<close>.\<close>

theorem resume_is_delivery:
  assumes "lua_laws N L" "deliver N k w = Some w1"
  shows "\<exists>w2. ngx_grpc_cli_to_resume N L k w = Some w2 \<and> lua_runs N w1 w2"
  using assms(2) by (rule resume_laws.to_resume_deliver [OF lua_laws.axioms(2) [OF assms(1)]])

theorem resume_is_delivery_witness:
  "\<exists>w1 w2. deliver list_api 0x5000 (ex_wait\<lparr>w_sctxs := [0x5000 \<mapsto> (ex_sctx 0)\<lparr>sctx_node := 0x6000,
       sctx_wait_co_ctx := 0x3000, sctx_state := NGX_GRPC_CLIENT_STATE_TIMEOUT\<rparr>]\<rparr>) = Some w1 \<and>
     ngx_grpc_cli_to_resume list_api yielding_lua 0x5000 (ex_wait\<lparr>w_sctxs := [0x5000 \<mapsto> (ex_sctx 0)\<lparr>sctx_node := 0x6000,
       sctx_wait_co_ctx := 0x3000, sctx_state := NGX_GRPC_CLIENT_STATE_TIMEOUT\<rparr>]\<rparr>) = Some w2 \<and>
     lua_runs list_api w1 w2"
proof -
  let ?w = "ex_wait\<lparr>w_sctxs := [0x5000 \<mapsto> (ex_sctx 0)\<lparr>sctx_node := 0x6000,
       sctx_wait_co_ctx := 0x3000, sctx_state := NGX_GRPC_CLIENT_STATE_TIMEOUT\<rparr>]\<rparr>"
  have "\<exists>w1. deliver list_api 0x5000 ?w = Some w1"
    by (simp add: deliver_def ngx_grpc_cli_unkeep_task_def ngx_grpc_cli_put_res_def ex_wait_def ex_states spawn_def
        zero_sctx_def idle_co_def upd_queues_def lua_push_def Let_def)
  then show ?thesis using resume_is_delivery [OF yielding_lua_laws] by blast
qed

end
