(* ===== verification/Life_Props.thy ===== *)
theory Life_Props
  imports Examples
begin

text \<open>
  The life cycle of the worker: configuration and start, and what is left behind or used
  too late when a worker shuts down, a coroutine is aborted or a stream fails to open.
\<close>

subsection \<open>Start\<close>

text \<open>C32. Starting a worker succeeds with the module off when there is no configuration, no engine path or no thread
  pool; fails when the engine cannot be loaded or lacks one of its ten symbols, or memory runs out; and otherwise leaves
  an idle module: engine, pool and task set, no task kept, no result queued, the thread not running.\<close>

theorem init_worker_spec:
  assumes "ngx_laws N"
  shows "\<exists>rc w'. ngx_grpc_cli_init_worker N D w = (rc, w') \<and>
     (if \<not> main_conf_found D \<or> engine_path (w_conf w) = [] \<or> thread_pool_get D = NULL
      then rc = NGX_OK \<and> w' = w
      else if dlopen_handle D = NULL \<or> \<not> list_all (dlsym_found D) engine_symbols \<or>
              thread_task_alloc D = NULL \<or> posted_ev_alloc D = NULL
      then rc = NGX_ERROR
      else rc = NGX_OK \<and> ngx_grpc_cli_is_engine_inited D w' = Some True \<and>
           conf_task (w_conf w') = thread_task_alloc D \<and> conf_thread_pool (w_conf w') = thread_pool_get D \<and>
           ngx_grpc_cli_task_num w' = 0 \<and> (\<forall>k. ngx_grpc_cli_lookup_task k w' = None) \<and>
           w_queues w' = (w_queues w)(ThFree := [], ThOccupied := []) \<and>
           \<not> w_task_active w' \<and> \<not> w_posted w' \<and> w_finished_tasks w' = NULL)"
  using ngx_queue_laws.queue_init [OF ngx_laws.axioms(1) [OF assms]]
  by (simp add: ngx_grpc_cli_init_worker_def ngx_grpc_cli_thread_def ngx_grpc_cli_is_engine_inited_def
      ngx_grpc_cli_task_num_def ngx_grpc_cli_lookup_task_def upd_queues_def Let_def)

theorem init_worker_spec_witness:
  "\<exists>w'. ngx_grpc_cli_init_worker list_api ex_load (fresh_worker LittleEndian ex_conf) =
     (NGX_OK, w') \<and> ngx_grpc_cli_task_num w' = 0"
  using init_worker_spec [OF list_api_laws, of ex_load "fresh_worker LittleEndian ex_conf"]
  by (auto simp: fresh_worker_def ex_conf_def ex_load_def list_all_iff)

subsection \<open>Shutdown\<close>

text \<open>C35. A worker that is shutting down frees the collected results and their array in the thread but keeps the
  pointer and the count; the completion event of the same task then reads the freed array (\<open>None\<close>), whenever a
  result was collected.\<close>

theorem exit_use_after_free:
  assumes "winv w" "results_ok False w" "w_task_active w" "tq_done (finishedTaskQueue (w_eng w))"
    "w_exiting w \<or> w_terminate w" "wait_alloc_ok al arr w" "tq_tasks (finishedTaskQueue (w_eng w)) \<noteq> []"
  shows "\<exists>w'. ngx_grpc_cli_thread_handler al arr w = Some w' \<and> 0 < w_finished_task_num w' \<and>
           w_finished_tasks w' = arr \<and> arr \<notin> dom (w_heap w') \<and>
           ngx_grpc_cli_thread_event_handler N E (w'\<lparr>w_task_active := False\<rparr>) = None"
proof (rule thread_exit_ok [OF assms(1-6)], goal_cases)
  case (1 w')
  have n: "0 < length (tq_tasks (finishedTaskQueue (w_eng w)))" using assms(7) by simp
  then have arr: "w_finished_tasks w' = arr" "arr \<notin> dom (w_heap w')" "0 < w_finished_task_num w'"
    using 1(4,5) by auto
  then show ?case using 1(1) freed_completion_faults [of w'] by blast
qed

theorem exit_use_after_free_witness:
  "\<exists>w'. ngx_grpc_cli_thread_handler ex_al 0x9000 (ex_reported\<lparr>w_exiting := True\<rparr>) = Some w' \<and>
     w_finished_tasks w' = 0x9000 \<and> w_heap w' 0x9000 = None \<and>
     ngx_grpc_cli_thread_event_handler list_api ex_penv (w'\<lparr>w_task_active := False\<rparr>) = None"
proof -
  let ?w = "ex_reported\<lparr>w_exiting := True\<rparr>"
  note ok = ex_thread_ok [of ex_reported, simplified]
  have "winv ?w" using ok(1) by (rule winv_frame) simp_all
  moreover have "results_ok False ?w" using ok(2) by (simp add: results_ok_def pending_def)
  moreover have "wait_alloc_ok ex_al 0x9000 ?w" using ok(7) by (simp add: wait_alloc_ok_def)
  ultimately show ?thesis
    using exit_use_after_free [of ?w ex_al "0x9000" list_api ex_penv] ok(3,4) ex_reported_sel(1) by (auto simp: domIff)
qed

subsection \<open>What is left behind\<close>

text \<open>C37. Aborting the coroutine of a unary call leaks its stream context: the cleanup handler takes the task out of the
  table but links the context to no queue, so that freeing the connection does not reach it.\<close>

theorem aborted_unary_leaks:
  assumes "ngx_laws N" "winv w" "w_cos w p = Some c" "co_cleanup c = HttpCleanup" "w_sctxs w (co_data c) = Some s"
    "sctx_type s = STREAM_TYPE_UNARY" "w_queues w (CtxOpening (sctx_parent s)) = []"
    "\<forall>j t. w_sctxs w j = Some t \<and> sctx_node t \<noteq> NULL \<and> sctx_parent t = sctx_parent s \<longrightarrow> j = co_data c"
  shows "\<exists>w' w''. aborted p (ngx_http_grpc_cli_cleanup N p w) = Some w' \<and> winv w' \<and> co_data c \<notin> kept w' \<and>
           \<not> linked (SctxQueue (co_data c)) (w_queues w') \<and>
           ngx_grpc_cli_free_conn N (sctx_parent s) w' = Some w'' \<and> sctx_parent s \<notin> dom (w_ctxs w'') \<and>
           co_data c \<in> dom (w_sctxs w'')"
proof (rule ngx_laws.cleanup_ok [OF assms(1-3), of "ngx_http_grpc_cli_cleanup N p w"], goal_cases)
  case (3 w')
  have node: "sctx_node s \<noteq> NULL" using 3(4) assms(5) by (simp add: kept_def)
  note kept = kept_okD [OF winv_butD(4) [OF assms(2)] _ assms(5) node, simplified]
  obtain x where x: "w_ctxs w' (sctx_parent s) = Some x" using kept 3(8) by auto
  have nl: "\<not> linked (SctxQueue (co_data c)) (w_queues w')" using kept assms(6) 3(7) by simp
  have sctxs: "w_sctxs w' = (w_sctxs w)(co_data c \<mapsto> s\<lparr>sctx_node := NULL\<rparr>)" by (rule 3(11) [OF assms(5)])
  have "no_unary_call w' (sctx_parent s)" using assms(8) by (auto simp: no_unary_call_def sctxs)
  from ngx_laws.free_conn_ok [OF assms(1) 3(2) _ this x] 3 nl assms(7) sctxs
  show ?case by (auto simp: freed_def linked_def)
qed (use assms(4) in simp_all)

theorem aborted_unary_leaks_witness:
  "\<exists>w' w''. aborted 0x3000 (ngx_http_grpc_cli_cleanup list_api 0x3000 ex_wait) = Some w' \<and>
     ngx_grpc_cli_free_conn list_api 0x1000 w' = Some w'' \<and> 0x1000 \<notin> dom (w_ctxs w'') \<and> 0x5000 \<in> dom (w_sctxs w'')"
proof -
  have s: "w_sctxs ex_wait 0x5000 = Some ((ex_sctx 0)\<lparr>sctx_node := 0x6000, sctx_wait_co_ctx := 0x3000\<rparr>)"
    by (simp add: ex_sel)
  have only: "\<forall>j t. w_sctxs ex_wait j = Some t \<and> sctx_node t \<noteq> NULL \<and> sctx_parent t = x \<longrightarrow> j = 0x5000" for x
    by (simp add: ex_sel)
  show ?thesis
    using aborted_unary_leaks [OF list_api_laws ex_started_winv(1) ex_sel(3), simplified, OF s] only
    by (simp add: ex_sctx_def zero_sctx_def ex_sel(4)) blast
qed

text \<open>C38. A stream whose opening failed is never given back.  The engine has no stream for it and reports an error; when
  the result is handed out, to a coroutine that then does nothing, the coroutine gets \<^verbatim>\<open>false\<close> and the message, so
  that the library makes no stream object it could close later; yet the context stays in the connection's queue of
  open streams, and when the connection is collected, its memory is only marked to be freed later.\<close>

theorem failed_stream_stays_open:
  assumes "ngx_laws N" "winv w" "results_ok d w" "pending w = r # rs" "task_id r \<in> kept w"
    "w_sctxs w (task_id r) = Some s" "sctx_type s \<noteq> STREAM_TYPE_UNARY"
    "res_type (res_buf r) = NGX_GRPC_CLIENT_RES_TYPE_ERR" "StreamRef (w_eng w) (task_id r) = None"
  shows "\<exists>wr w1 w2. post_event_round N w = Some (Some (task_id r), wr) \<and>
           ngx_grpc_cli_to_resume N yielding_lua (task_id r) wr = Some w1 \<and> winv w1 \<and>
           (\<exists>msg. w_lua w1 = w_lua w @ [(sctx_wait_co_ctx s, [LuaBool False, LuaStr msg])]) \<and>
           task_id r \<notin> kept w1 \<and> StreamRef (w_eng w1) (task_id r) = None \<and>
           SctxQueue (task_id r) \<in> set (w_queues w1 (CtxOpening (sctx_parent s))) \<and>
           ngx_grpc_cli_close N (sctx_parent s) NULL w1 = Some w2 \<and> sctx_parent s \<in> dom (w_ctxs w2)"
proof -
  let ?k = "task_id r" and ?p = "sctx_parent s"
  have node: "sctx_node s \<noteq> NULL" using assms(5,6) by (simp add: kept_def)
  have mem: "SctxQueue ?k \<in> set (w_queues w (CtxOpening ?p))"
    using kept_okD(3) [OF winv_butD(4) [OF assms(2)] _ assms(6) node assms(7)] by simp
  have "w_queues w ThOccupied \<noteq> []" using assms(4) by (auto simp: pending_def map_filter_simps)
  then obtain x xs where occ: "w_queues w ThOccupied = x # xs" by (cases "w_queues w ThOccupied") auto
  show ?thesis
  proof (rule ngx_laws.round_ok [OF assms(1-3) occ], goal_cases)
    case (1 r' w')
    then show ?case using assms(4,5) by simp
  next
    case (2 r' w0 s' c)
    then have r': "r' = r" "s' = s" using assms(4,6) by simp_all
    have eq0: "w0 = w\<lparr>w_queues := w_queues w0\<rparr>" by (fact 2(5))
    have sel: "w_sctxs w0 = w_sctxs w" "w_cos w0 = w_cos w" "w_heap w0 = w_heap w" "w_lua w0 = w_lua w"
      "w_eng w0 = w_eng w" "kept w0 = kept w"
      by (subst eq0, simp add: kept_def)+
    show ?case
    proof (rule ngx_laws.deliver_ok [OF assms(1) 2(3), of ?k s c "s\<lparr>sctx_res := r\<rparr>"], goal_cases)
      case (11 w1)
      have vals: "wait_values (w_heap w) (s\<lparr>sctx_res := r\<rparr>) = result_values (w_heap w) r"
        using 2(9) by (simp add: wait_values_def r' sel)
      have open1: "SctxQueue ?k \<in> set (w_queues w1 (CtxOpening ?p))" using 11(10) assms(7) mem 2(4) by simp
      then have "?p \<in> dom (w_ctxs w1)" using queues_okD(3) [OF winv_butD(3) [OF 11(2)]] by blast
      then obtain cx where cx: "w_ctxs w1 ?p = Some cx" by blast
      have "\<exists>w2. ngx_grpc_cli_close N ?p NULL w1 = Some w2 \<and> ?p \<in> dom (w_ctxs w2)"
        using cx open1 ngx_queue_laws.queue_empty [OF ngx_laws.axioms(1) [OF assms(1)]]
        by (auto simp: ngx_grpc_cli_close_def)
      with 11 open1 2(11) assms(8,9) show ?case
        by (auto simp: r' sel vals result_values_def Let_def to_resume_yielding)
    qed (use 2 assms(6) node in \<open>simp_all add: sel r'\<close>)
  qed
qed

theorem failed_stream_stays_open_witness:
  "\<exists>wr w1 w2. post_event_round list_api ex_failed = Some (Some 0x5000, wr) \<and>
     ngx_grpc_cli_to_resume list_api yielding_lua 0x5000 wr = Some w1 \<and>
     SctxQueue 0x5000 \<in> set (w_queues w1 (CtxOpening 0x1000)) \<and>
     ngx_grpc_cli_close list_api 0x1000 NULL w1 = Some w2 \<and> 0x1000 \<in> dom (w_ctxs w2)"
proof -
  have p: "pending ex_failed = ex_err # []" "task_id ex_err \<in> kept ex_failed" "task_id ex_err = 0x5000"
    using ex_kept(2) by (simp_all add: pending_def ex_failed_def map_filter_simps ex_err_def kept_def)
  have s: "w_sctxs ex_failed (task_id ex_err) = Some ((ex_sctx 3)\<lparr>sctx_node := 0x6000, sctx_wait_co_ctx := 0x3000\<rparr>)"
    by (simp add: ex_failed_def ex_err_def ex_sel)
  have e: "res_type (res_buf ex_err) = NGX_GRPC_CLIENT_RES_TYPE_ERR" "StreamRef (w_eng ex_failed) (task_id ex_err) = None"
    by (simp_all add: ex_err_def res_type_def ex_failed_def ex_stream_def ex_states spawn_def)
  show ?thesis
    using failed_stream_stays_open [OF list_api_laws ex_failed_ok p(1,2) s _ e] p(3)
    by (auto simp: ex_sctx_def zero_sctx_def)
qed

end
