(* ===== verification/Stale_Run.thy ===== *)
theory Stale_Run
  imports Examples
begin

text \<open>
  A run of the worker in which a late result opens a stream that does not exist: a unary call times out, another
  coroutine opens a stream in the stream context that became free, and the result of the call is
  taken for the answer to it.  The states \<open>sr1\<close> to \<open>sr7\<close> follow the steps, all of which are steps of the worker.
\<close>

subsection \<open>States\<close>

definition sr_co :: co_ctx where
  "sr_co = \<lparr>co_data = 0x5000, co_sleep = \<lparr>ev_handler = TimeoutHandler, ev_data = 0x5000, ev_timer_set = False,
     ev_timer = 60000\<rparr>, co_cleanup = NoCleanup\<rparr>"

definition sr_call :: goroutine where
  "sr_call = GoCall 0x5000 0 ''/s/m'' [1] ex_go"

definition sr_open :: goroutine where
  "sr_open = GoNewStream 0x5000 0 ''/s/n'' [2] ex_go 3"

definition sr_eng :: "goroutine list \<Rightarrow> taskResult list \<Rightarrow> engine" where
  "sr_eng gs ts = (w_eng ex_idle)\<lparr>e_goroutines := gs, finishedTaskQueue := \<lparr>tq_done = (ts \<noteq> []), tq_tasks = ts\<rparr>\<rparr>"

definition sr_timeout :: "addr \<times> lua_val list" where
  "sr_timeout = (0x3000, [LuaBool False, LuaStr (bytes_of ''timeout'')])"

definition sr_res :: ngx_grpc_cli_task_res where
  "sr_res = \<lparr>task_id = 0x5000, res_size = 1, res_buf = 0x8000\<rparr>"

text \<open>The call has timed out, and the other coroutine runs.\<close>

definition sr1 :: worker where
  "sr1 = ex_idle\<lparr>w_task_active := True,
     w_sctxs := [0x5000 \<mapsto> (ex_sctx 0)\<lparr>sctx_state := NGX_GRPC_CLIENT_STATE_TIMEOUT, sctx_prev_data := 0x5000\<rparr>],
     w_queues := (\<lambda>_. [])(CtxFree 0x1000 := [SctxQueue 0x5000]),
     w_cos := [0x3000 \<mapsto> sr_co, 0x3100 \<mapsto> idle_co], w_lua := [sr_timeout], w_eng := sr_eng [sr_call] []\<rparr>"

definition sr2 :: worker where
  "sr2 = sr1\<lparr>w_http := [0x2000 \<mapsto> ex_lctx\<lparr>cur_co_ctx := 0x3100\<rparr>]\<rparr>"

text \<open>It has started a stream, in the same context.\<close>

definition sr3 :: worker where
  "sr3 = (waiting_state list_api 0x6000 0x5000 (ex_sctx 3) 0x3100 idle_co 60000 sr2)
     \<lparr>w_eng := sr_eng [sr_call, sr_open] [], w_queues := (\<lambda>_. [])(CtxOpening 0x1000 := [SctxQueue 0x5000])\<rparr>"

text \<open>The goroutine of the call has finished; the thread has its result; it is queued; it was handed out.\<close>

definition sr4 :: worker where
  "sr4 = sr3\<lparr>w_eng := sr_eng [sr_open] [\<lparr>tr_id = 0x5000, tr_result = Some [1], tr_err = None\<rparr>]\<rparr>"

definition sr5 :: worker where
  "sr5 = sr3\<lparr>w_eng := sr_eng [sr_open] [], w_heap := [0x8000 \<mapsto> [1], 0x9000 \<mapsto> encode_task_res LittleEndian sr_res],
     w_finished_tasks := 0x9000, w_finished_task_num := 1\<rparr>"

definition sr6 :: worker where
  "sr6 = sr3\<lparr>w_eng := sr_eng [sr_open] [], w_heap := [0x8000 \<mapsto> [1]], w_finished_task_num := 1,
     w_task_active := False, w_posted := True, w_pctxs := [0x7000 \<mapsto> sr_res],
     w_queues := (\<lambda>_. [])(CtxOpening 0x1000 := [SctxQueue 0x5000], ThOccupied := [PctxQueue 0x7000])\<rparr>"

definition sr7 :: worker where
  "sr7 = sr6\<lparr>w_heap := Map.empty, w_posted := False, w_num := 0, w_tree := Sentinel,
     w_sctxs := [0x5000 \<mapsto> (ex_sctx 3)\<lparr>sctx_prev_data := 0x5000, sctx_res := sr_res\<rparr>],
     w_cos := [0x3000 \<mapsto> sr_co, 0x3100 \<mapsto> sr_co],
     w_queues := (\<lambda>_. [])(CtxOpening 0x1000 := [SctxQueue 0x5000], ThFree := [PctxQueue 0x7000]),
     w_lua := [sr_timeout, (0x3100, [LuaBool True, LuaStr [1]])]\<rparr>"

definition sr_env :: sys_env where
  "sr_env = ex_env\<lparr>sys_alloc := (\<lambda>i. if i = 1 then 0x6100 else NULL)\<rparr>"

subsection \<open>The steps\<close>

lemmas sr_run = ngx_grpc_cli_timeout_handler_def ngx_grpc_cli_to_resume_def
  ngx_grpc_cli_unkeep_task_def attach_ctx_def ngx_http_grpc_cli_resume_def ngx_grpc_cli_put_res_def Let_def
  yielding_lua_def lua_push_def upd_queues_def spawn_def NewTaskQueue_def

lemmas sr_defs = ex_states zero_sctx_def idle_co_def sr_co_def sr_eng_def sr_timeout_def sr_call_def sr_open_def sr_res_def

lemma sr_timer_run: "ngx_grpc_cli_timeout_handler list_api yielding_lua 0x5000
            (ex_wait\<lparr>w_cos := (w_cos ex_wait)(0x3000 \<mapsto> sr_co\<lparr>co_cleanup := HttpCleanup\<rparr>)\<rparr>) = Some sr1"
  by (simp add: sr1_def ex_wait_def sr_defs sr_run fun_eq_iff)

lemma sr_new_stream_run:
  "ngx_grpc_cli_new_stream list_api ex_env2 512 0x2000 True 0x1000 ''/s/n'' [2] ex_opt 3 sr2 = Some ((0x5000, None), sr3)"
  by (simp add: ex_run ex_go_eq sr3_def sr2_def sr1_def ex_env2_def sr_defs sr_run fun_eq_iff)

lemma sr_goroutine_run: "run_goroutine ok_lib 0 (w_eng sr3) = Some (w_eng sr4)"
  by (simp add: run_goroutine_def sr3_def sr4_def sr_eng_def sr_call_def call_body_def recovered_def
      Call_def ok_lib_def codec_Marshal_def decode_reply_eq ReportFinishedTask_def taskQueue_Done_def taskQueue_signal_def)

lemma sr_thread_run: "ngx_grpc_cli_thread_handler ex_al 0x9000 sr4 = Some sr5"
  by (simp add: ngx_grpc_cli_thread_handler_def grpc_engine_wait_def taskQueue_Wait_eq sr4_def sr5_def sr3_def sr2_def sr1_def
      wait_result_def ex_al_def NewTaskQueue_def sr_defs fun_eq_iff)

lemma read_task_res_single: "read_task_res e (encode_task_res e r) 0 = Some r"
  using read_task_res_nth [of 0 "[r]" e] by simp

lemma sr_completion_run:
  "ngx_grpc_cli_thread_event_handler list_api ex_penv (sr5\<lparr>w_task_active := False\<rparr>) = Some sr6"
  by (simp add: ngx_grpc_cli_thread_event_handler_def finished_task_def read_task_res_single ex_penv_def
      ngx_grpc_cli_insert_posted_event_ctx_def ngx_grpc_cli_task_num_def upd_queues_def free_buf_def grpc_engine_free_def
      sr5_def sr6_def sr3_def sr2_def sr1_def waiting_state_def ex_states fun_eq_iff)

lemma sr_posted_run:
  "ngx_grpc_cli_thread_post_event_handler list_api yielding_lua (sr6\<lparr>w_posted := False\<rparr>) = Some sr7"
proof -
  let ?w = "sr6\<lparr>w_posted := False\<rparr>"
  have occ: "\<not> queue_empty list_api ThOccupied (w_queues ?w)" "queue_empty list_api ThOccupied (w_queues sr7)"
    by (simp_all add: sr7_def sr6_def list_api_def)
  have "\<exists>v. post_event_round list_api ?w = Some (Some 0x5000, v) \<and>
      ngx_grpc_cli_to_resume list_api yielding_lua 0x5000 v = Some sr7"
    by (simp add: post_event_round_def ngx_grpc_cli_lookup_task_def disarm_wait_co_ctx_def push_res_def res_untag_alt
        res_type_def read_buf_def sr7_def sr6_def sr3_def sr2_def sr1_def sr_defs sr_run fun_eq_iff)
  moreover have "ngx_grpc_cli_thread_post_event_handler list_api yielding_lua sr7 = Some sr7"
    using occ(2) by (subst ngx_grpc_cli_thread_post_event_handler.simps) simp
  ultimately show ?thesis
    using occ(1) by (subst ngx_grpc_cli_thread_post_event_handler.simps) auto
qed

lemma sr_recv_run: "ngx_grpc_cli_stream_recv list_api sr_env 512 0x2000 0x5000 ex_opt sr7 = None"
  by (simp add: ngx_grpc_cli_stream_recv_def ngx_grpc_cli_check_stream_status_def ex_run sr_env_def
     grpc_engine_stream_recv_def sr7_def sr6_def sr3_def sr2_def sr1_def sr_defs sr_run)

subsection \<open>The run is one of the worker\<close>

lemma sr_reachable: "reachable list_api yielding_lua (sr7, Waiting)"
proof -
  let ?R = "reachable list_api yielding_lua" and ?W = "worker_step list_api yielding_lua"
  note sel = sr7_def sr6_def sr5_def sr4_def sr3_def sr2_def sr1_def
  note sets = held_conn_def env_ok_def fresh_alloc_def live_addrs_def task_post_ok_def can_wait_def request_ctx_def armed_def
    wait_alloc_ok_def cbytes_ok_def pctx_alloc_ok_def
  have "?W (ex_wait, Waiting) TimerExpires (Some (sr1, Waiting))"
    using worker_step.timer [OF ex_sel(3), of list_api yielding_lua Waiting] sr_timer_run by (simp add: sr_co_def)
  with ex_reachable(2) have "?R (sr1, Waiting)" by (rule reachable.step)
  moreover have "lua_change sr1 sr2"
    by (auto simp: lua_change_def sel sr_defs armed_def split: if_splits)
  then have "?W (sr1, Waiting) (LibCall OtherCall) (Some (sr2, Waiting))"
    using worker_step.client [OF client_call.lua, of sr1 sr2 list_api yielding_lua Waiting] by simp
  ultimately have "?R (sr2, Waiting)" by (rule reachable.step)
  moreover have "held_conn sr2 0x1000" "env_ok ex_env2 sr2" "can_wait sr2 True 0x2000"
    by (auto simp: sets sel sr_defs ex_env2_def)
  then have "?W (sr2, Waiting) (LibCall OtherCall) (Some (sr3, Waiting))"
    using worker_step.client [OF client_call.new_stream [OF _ _ _ ex_opt_ok], of sr2 "0x1000" ex_env2 True "0x2000"
        list_api yielding_lua Waiting 512 "''/s/n''" "[2]" 3] sr_new_stream_run by simp
  ultimately have "?R (sr3, Waiting)" by (rule reachable.step)
  moreover have "?W (sr3, Waiting) (LibCall OtherCall) (Some (sr4, Waiting))"
    using worker_step.client [OF client_call.goroutine [OF sr_goroutine_run], of list_api yielding_lua Waiting]
    by (simp add: sr4_def)
  ultimately have "?R (sr4, Waiting)" by (rule reachable.step)
  moreover have "w_task_active sr4" "tq_done (finishedTaskQueue (w_eng sr4))" "wait_alloc_ok ex_al 0x9000 sr4"
    "\<not> w_exiting sr4" "\<not> w_terminate sr4"
    by (simp_all add: sets sel sr_defs ex_al_def)
  then have "?W (sr4, Waiting) ThreadRuns (Some (sr5, Collected))"
    using worker_step.thread [of sr4 ex_al "0x9000" list_api yielding_lua] by (simp add: sr_thread_run)
  ultimately have "?R (sr5, Collected)" by (rule reachable.step)
  moreover have "?W (sr5, Collected) Completion (Some (sr6, Waiting))"
    using worker_step.completion [of Collected ex_penv sr5 list_api yielding_lua] ex_penv_ok [of sr5] sr_completion_run
    by (simp add: sel sr_defs)
  ultimately have "?R (sr6, Waiting)" by (rule reachable.step)
  moreover have "?W (sr6, Waiting) PostedEvent (Some (sr7, Waiting))"
    using worker_step.posted [of sr6 list_api yielding_lua Waiting] sr_posted_run by (simp add: sr6_def)
  ultimately show ?thesis by (rule reachable.step)
qed

lemma sr_recv_call:
  "client_call list_api (StreamOp 0x5000) sr7
     (map_option snd (ngx_grpc_cli_stream_recv list_api sr_env 512 0x2000 0x5000 ex_opt sr7))"
proof (rule client_call.stream_recv)
  note sel = sr7_def sr6_def sr3_def sr2_def sr1_def
  show "open_stream sr7 0x5000" by (simp add: open_stream_def sel sr_defs)
  show "env_ok sr_env sr7"
    by (auto simp: env_ok_def fresh_alloc_def live_addrs_def task_post_ok_def sr_env_def sel sr_defs)
  show "w_sctxs sr7 0x5000 = Some ((ex_sctx 3)\<lparr>sctx_prev_data := 0x5000, sctx_res := sr_res\<rparr>)" by (simp add: sr7_def)
  show "can_wait sr7 (sctx_is_http ((ex_sctx 3)\<lparr>sctx_prev_data := 0x5000, sctx_res := sr_res\<rparr>)) 0x2000"
    by (simp add: can_wait_def request_ctx_def armed_def sel sr_defs)
qed

end
