(* ===== verification/Spec2Isabelle.thy ===== *)
theory Spec2Isabelle
  imports Conn_Props Event_Props Life_Props Abstract_Waits Stale_Run
begin

text \<open>
  Verification of the gRPC client module for nginx.

  \<^bold>\<open>The program.\<close>  The C module \<^verbatim>\<open>src/ngx_grpc_client.c\<close> runs in each nginx worker; the Go engine \<^verbatim>\<open>grpc-engine/\<close>
  is a shared library it loads.  A Lua coroutine calls the module through the FFI (connect, close, unary call,
  new stream, and recv, send, close_send on a stream).  A call takes a stream context, keeps it as a task in a
  red-black tree keyed by the address of the context, arms a timer and a cleanup handler on the coroutine, hands
  the request to the engine, which starts a goroutine, and yields.  A goroutine ends by reporting its result to a
  queue of finished tasks.  One thread task at a time waits for that queue outside the event loop; its completion event copies the results to
  the \<^verbatim>\<open>occupied\<close> queue and posts an event, whose handler resumes the coroutine of each result, or frees the
  result when its task is no longer kept.  A timer or an abort of the coroutine ends the wait earlier.

  \<^bold>\<open>Theories.\<close>  Each definition bears the name of the C, Go or header symbol it models.
  \<^item> \<open>Grpc_Prelude\<close>: words, bytes, strings, the heap of buffers, faults as \<open>None\<close>.
  \<^item> \<open>Ngx_Api\<close>: the queues, red-black trees, timers and \<^verbatim>\<open>ngx_snprintf\<close> of nginx as a parameter (record
    \<open>ngx_api\<close>) with the contract \<open>ngx_laws\<close>, built from \<open>ngx_queue_laws\<close> and \<open>ngx_rbtree_laws\<close>; \<open>list_api\<close>
    satisfies it, with lists and search trees.
  \<^item> \<open>Task_Result\<close>: the 24-byte result record, its byte order and the result kind in the low bits of a pointer.
  \<^item> \<open>Task_Queue\<close> (\<^verbatim>\<open>task/task.go\<close>), \<open>Grpc_Conn\<close> (\<^verbatim>\<open>conn/grpc.go\<close>, \<^verbatim>\<open>conn/proto.go\<close>), \<open>Grpc_Engine\<close>
    (\<^verbatim>\<open>main.go\<close>): the engine.  grpc-go, TLS and the file system are the parameter \<open>grpc_lib\<close>; the goroutines that
    have not reported are part of the engine's state.
  \<^item> \<open>Cli_State\<close>: the state of a worker, record \<open>worker\<close>: structures in partial maps from addresses, globals,
    the parts of the Lua modules' structures the module reads and writes, the heap and the engine.
  \<^item> \<open>Cli_Tasks\<close>, \<open>Cli_Conn\<close>, \<open>Cli_Thread\<close>, \<open>Cli_Resume\<close>: the operations of \<^verbatim>\<open>ngx_grpc_client.c\<close>, one definition
    per function: the task table, connections and streams, the thread and the life cycle, and the handlers that end a
    wait.  \<open>Cli_Tasks\<close> states the table as a locale and interprets it on the tree.
  \<^item> \<open>Worker_Inv\<close>, \<open>Cli_Conn_Inv\<close>, \<open>Cli_Close_Inv\<close>: the invariant \<open>winv\<close> (task table, waits, queues,
    kept tasks, connections) and that the operations keep it.
  \<^item> \<open>Client_Calls\<close>: the relation \<open>client_call\<close>, everything that happens to a worker between two events of
    the module: calls as the Lua library makes them, aborts, changes of the Lua modules, steps of the engine.
    A label marks the operations on a stream, the only ones among them that can fault.
  \<^item> \<open>Lua_Resume\<close>: the contract \<open>lua_laws\<close> with the Lua modules, which run Lua code through the parameter \<open>lua_api\<close>,
    its interpretation on a module whose coroutines yield at once, and delivery as one operation (\<open>deliver\<close>).
  \<^item> \<open>Event_Inv\<close>, \<open>Event_Handlers\<close>, \<open>Thread_Inv\<close>: ownership of result buffers (\<open>results_ok\<close>) and the event handlers.
  \<^item> \<open>Blocking_Calls\<close>: calls that block the worker, with the engine running beside them.
  \<^item> \<open>Worker_Steps\<close>: the worker as a transition system with labelled steps, its reachable states, and the steps
    that may fault (\<open>known_fault\<close>).
  \<^item> \<open>Abstract_Waits\<close>: what the module promises to coroutines as a small state machine, and the simulation of the
    worker by it.
  \<^item> \<open>Examples\<close>: concrete states, among them reachable ones.  \<open>Stale_Run\<close>: a run in which a late result reaches a new
    stream.  \<open>Conn_Props\<close>, \<open>Event_Props\<close>, \<open>Life_Props\<close> and this theory:
    the properties.

  \<^bold>\<open>What is shown.\<close>  For all implementations of the parameters that satisfy the contracts.  A fault is an access to
  memory that is not allocated, a double free, a failed assertion or a panic of the engine that is not recovered.
  In a worker that was started, no call and no event faults but for three causes: an operation on a stream the
  engine does not know, a blocking call whose reply is empty, and the completion event of a worker that shuts down
  and had results; every step that returns keeps the invariants.  Waiting coroutines and kept tasks
  correspond; each result is delivered to the coroutine registered under its
  identifier, or freed, exactly once; waits end; loops end; the result record and its tag survive the
  language boundary; the queue of results is first in, first out.  The last properties show where the code does not do
  what it means to: a late result that reaches a later call, or makes a worker use a stream that was never opened and
  crash; memory used after shutdown freed it; a thread that is not posted again; memory that is never freed; an
  empty reply that stops a blocking call.

  \<^bold>\<open>Bounds.\<close>  Pointers, identifiers, sizes and durations are 64-bit words with wrap-around.  The loops over the free
  queue and the \<^verbatim>\<open>occupied\<close> queue are partial functions that are shown to return; there is no fuel.  The counters of
  tasks and results are \<^verbatim>\<open>int\<close> in C and unbounded here, and lengths of texts passed to the engine as \<^verbatim>\<open>int\<close> are lengths of
  lists: both presume fewer than \<^verbatim>\<open>2^31\<close> tasks and bytes.  The number of metadata pairs is a signed 32-bit word.

  \<^bold>\<open>Not modelled.\<close>  Logging and \<^verbatim>\<open>ngx_grpc_cli_get_req_logger\<close>; the Lua library \<^verbatim>\<open>lib/resty/grpc.lua\<close>, whose use of the
  module is what \<open>client_call\<close> assumes; grpc-go; the inside of \<^verbatim>\<open>dlopen\<close>; tests and build files.  A handler and a goroutine are
  atomic: the thread shares with the event loop only the array it fills before its completion event.
  Lua code that a handler resumes is bound by the contract \<open>lua_laws\<close> to calls that return and do not block; a call that faults
  is a step of its own, as if the coroutine had yielded before it.  Blocking calls are made while a worker starts,
  so a worker that shuts down makes none.
\<close>

subsection \<open>The module as a whole\<close>

text \<open>C20. Every call of the Lua library into the module, every abort of a coroutine and every step of the engine beside
  it, made in a state that satisfies the invariant and as the library makes it: when it returns, the invariant
  holds and the thread's part of the state is as before; it faults only as an operation on a stream the engine does
  not know.  A blocking call with its reply read and freed by the library: when it returns, the invariants hold and
  no block of memory that was there before has changed, nor anything of the worker but the engine
  and the heap; it faults only on a reply without error and body.\<close>

theorem client_calls_safe:
  assumes "ngx_laws N" "winv w"
  shows "(client_call N e w x \<longrightarrow>
            (case x of
               Some w' \<Rightarrow> winv w' \<and> thread_same w w'
             | None \<Rightarrow> \<exists>k. e = StreamOp k \<and> StreamRef (w_eng w) k = None)) \<and>
         (results_ok d w \<and> w_ctxs w ctx = Some c \<and> call_opt_ok opt \<and>
          engine_lets_go (grpc_engine_call stack (engine_ctx c) meth req opt (w_eng w)) g al arr w \<longrightarrow>
            (case take_reply (ngx_grpc_cli_call_blocking N el stack ctx meth req opt (\<lambda>_. g) al arr w) of
               Some w' \<Rightarrow> winv w' \<and> results_ok d w' \<and> (\<forall>p \<in> dom (w_heap w). w_heap w' p = w_heap w p) \<and>
                 w' = w\<lparr>w_eng := w_eng w', w_heap := w_heap w'\<rparr>
             | None \<Rightarrow> empty_reply g))"
proof (intro conjI impI)
  assume "client_call N e w x"
  then have "call_ends e w x" by (rule ngx_laws.client_call_ends [OF assms(1) _ assms(2)])
  then show "case x of Some w' \<Rightarrow> winv w' \<and> thread_same w w' | None \<Rightarrow> \<exists>k. e = StreamOp k \<and> StreamRef (w_eng w) k = None"
    by (auto simp: call_ends_def split: option.splits call_op.splits)
next
  assume "results_ok d w \<and> w_ctxs w ctx = Some c \<and> call_opt_ok opt \<and>
    engine_lets_go (grpc_engine_call stack (engine_ctx c) meth req opt (w_eng w)) g al arr w"
  then have ok: "results_ok d w" and call: "w_ctxs w ctx = Some c" "call_opt_ok opt"
    "engine_lets_go (grpc_engine_call stack (engine_ctx c) meth req opt (w_eng w)) g al arr w"
    by blast+
  show "case take_reply (ngx_grpc_cli_call_blocking N el stack ctx meth req opt (\<lambda>_. g) al arr w) of
      Some w' \<Rightarrow> winv w' \<and> results_ok d w' \<and> (\<forall>p \<in> dom (w_heap w). w_heap w' p = w_heap w p) \<and>
        w' = w\<lparr>w_eng := w_eng w', w_heap := w_heap w'\<rparr>
    | None \<Rightarrow> empty_reply g"
  proof (rule blocking_ok [OF assms(2) call refl, of N el], goal_cases)
    case (1 w')
    note kept = blocking_left_ok [OF 1(2) assms(2) ok]
    show ?case unfolding 1(1) option.case using kept 1(2) unfolding blocking_left_def by blast
  next
    case 2
    then show ?case by simp
  qed
qed

theorem client_calls_safe_witness:
  "(\<exists>w'. ngx_grpc_cli_close list_api 0x1000 0x2000 ex_wait = Some w' \<and> winv w') \<and>
   StreamRef (w_eng sr7) 0x5000 = None \<and>
   (\<exists>w'. take_reply (ngx_grpc_cli_call_blocking list_api 512 0x7f00 0x1000 ''/s/m'' [1] ex_opt (\<lambda>_. ex_replied) ex_al 0x9000
      ex_idle) = Some w' \<and> winv w')"
proof -
  let ?x = "take_reply (ngx_grpc_cli_call_blocking list_api 512 0x7f00 0x1000 ''/s/m'' [1] ex_opt (\<lambda>_. ex_replied) ex_al 0x9000 ex_idle)"
  let ?c = "\<lparr>engine_ctx = 0x1100, free_delayed = False\<rparr>"
  have c: "w_ctxs ex_idle 0x1000 = Some ?c" "results_ok False ex_idle" "\<not> empty_reply ex_replied"
    by (simp_all add: ex_idle_def fresh_worker_def engine_init_def NewTaskQueue_def results_ok_def buffers_ok_def pending_def
        map_filter_simps empty_reply_def ex_replied_def)
  have "case ?x of
      Some w' \<Rightarrow> winv w' \<and> results_ok False w' \<and> (\<forall>p \<in> dom (w_heap ex_idle). w_heap w' p = w_heap ex_idle p) \<and>
        w' = ex_idle\<lparr>w_eng := w_eng w', w_heap := w_heap w'\<rparr>
    | None \<Rightarrow> empty_reply ex_replied"
    by (rule mp [OF conjunct2 [OF client_calls_safe [OF list_api_laws ex_idle_winv]]], intro conjI)
      (rule c(2), rule c(1), rule ex_opt_ok, simp add: ex_blocking_ok)
  then have "\<exists>w'. ?x = Some w' \<and> winv w'" using c(3) by (cases ?x) simp_all
  moreover
  have "held_conn ex_wait 0x1000" by (simp add: held_conn_def ex_wait_def ex_states)
  then have "client_call list_api OtherCall ex_wait (ngx_grpc_cli_close list_api 0x1000 0x2000 ex_wait)"
    by (rule client_call.close) simp
  with client_calls_safe [OF list_api_laws ex_started_winv(1)]
  have "case ngx_grpc_cli_close list_api 0x1000 0x2000 ex_wait of
      Some w' \<Rightarrow> winv w' \<and> thread_same ex_wait w'
    | None \<Rightarrow> \<exists>k. OtherCall = StreamOp k \<and> StreamRef (w_eng ex_wait) k = None" by blast
  moreover have "winv sr7" using yielding.reachable_inv [OF sr_reachable] by (simp add: sys_inv_def)
  from client_calls_safe [OF list_api_laws this] sr_recv_call
  have "case map_option snd (ngx_grpc_cli_stream_recv list_api sr_env 512 0x2000 0x5000 ex_opt sr7) of
      Some w' \<Rightarrow> winv w' \<and> thread_same sr7 w'
    | None \<Rightarrow> \<exists>k. StreamOp 0x5000 = StreamOp k \<and> StreamRef (w_eng sr7) k = None" by blast
  ultimately show ?thesis by (auto simp: sr_recv_run split: option.splits)
qed

text \<open>C1. In a worker that was started, every step (a call of the library, a blocking call, the thread with its shutdown
  branch, its completion event, the posted event, a timer, a signal) from every reachable state either
  has an outcome that satisfies the invariants on tasks, queues, coroutines, connections and buffers
  again, or is one of the known faults: an operation on a stream that the engine does not know, a blocking
  call whose first result has neither an error nor a body, or the completion event after a thread that found
  the worker shutting down and had results to free.  The third always faults.  The Lua code a handler resumes
  makes calls that return (\<open>lua_laws\<close>).\<close>

theorem worker_faults_only_known:
  assumes "lua_laws N L" "reachable N L s" "worker_step N L s e x"
  shows "sys_inv s \<and> (case x of Some s' \<Rightarrow> sys_inv s' | None \<Rightarrow> known_fault s e) \<and>
         (e = Completion \<and> known_fault s e \<longrightarrow> x = None)"
proof (intro conjI)
  show inv: "sys_inv s" by (rule lua_laws.reachable_inv [OF assms(1,2)])
  show "case x of Some s' \<Rightarrow> sys_inv s' | None \<Rightarrow> known_fault s e"
    by (rule lua_laws.worker_step_ok [OF assms(1,3) inv])
  show "e = Completion \<and> known_fault s e \<longrightarrow> x = None"
    using lua_laws.completion_fault [OF assms(1) _ inv] assms(3) by blast
qed

theorem worker_faults_only_known_witness:
  "sys_inv (ex_wait\<lparr>w_quit := True, w_exiting := False, w_terminate := False\<rparr>, Waiting) \<and>
   known_fault (sr7, Waiting) (LibCall (StreamOp 0x5000))"
proof -
  have "\<not> w_exiting ex_wait" "\<not> w_terminate ex_wait" by (simp_all add: ex_sel)
  then have "sys_inv (ex_wait\<lparr>w_quit := True, w_exiting := False, w_terminate := False\<rparr>, Waiting)"
    using worker_faults_only_known [OF yielding_lua_laws ex_reachable(2) worker_step.signal, of False False True] by simp
  moreover have "known_fault (sr7, Waiting) (LibCall (StreamOp 0x5000))"
    using worker_faults_only_known [OF yielding_lua_laws sr_reachable worker_step.client [OF sr_recv_call]]
    by (simp add: sr_recv_run)
  ultimately show ?thesis by blast
qed

text \<open>C4. In every reachable state the waiting coroutines and the kept tasks correspond one to one: each kept task has
  its own coroutine, armed with a timer and a cleanup handler for this task, and no other coroutine is armed; the counter
  is the number of kept tasks.\<close>

theorem one_waiter_per_task:
  assumes "lua_laws N L" "reachable N L (w, ph)"
  shows "bij_betw (\<lambda>k. sctx_wait_co_ctx (the (w_sctxs w k))) (kept w) {p. \<exists>c. w_cos w p = Some c \<and> armed c} \<and>
         (\<forall>k s. w_sctxs w k = Some s \<and> k \<in> kept w \<longrightarrow>
            (\<exists>c. w_cos w (sctx_wait_co_ctx s) = Some c \<and> armed_for k (sctx_is_http s) c)) \<and>
         ngx_grpc_cli_task_num w = int (card (kept w))"
proof -
  have inv: "winv w" using lua_laws.reachable_inv [OF assms] by (simp add: sys_inv_def)
  show ?thesis
    using waits_bij [OF winv_butD(2) [OF inv]] waits_okD(4) [OF winv_butD(2) [OF inv]] task_num_card [OF winv_butD(1) [OF inv]]
    by (auto simp: kept_def ngx_grpc_cli_task_num_def)
qed

theorem one_waiter_per_task_witness:
  "bij_betw (\<lambda>k. sctx_wait_co_ctx (the (w_sctxs ex_wait k))) {0x5000} {p. \<exists>c. w_cos ex_wait p = Some c \<and> armed c} \<and>
   ngx_grpc_cli_task_num ex_wait = 1"
  using one_waiter_per_task [OF yielding_lua_laws ex_reachable(2)] by (simp add: ex_kept)

text \<open>C5. No coroutine waits without an end: in every reachable state the timer of each kept task is set, and when it
  expires the step ends this wait, with \<^verbatim>\<open>false\<close> and \<^verbatim>\<open>timeout\<close> for its coroutine, whatever the thread and the engine do.\<close>

theorem wait_always_ends:
  assumes "lua_laws N L" "reachable N L (w, ph)" "k \<in> kept w"
  shows "\<exists>p c w1 w2. w_cos w p = Some c \<and> ev_timer_set (co_sleep c) \<and> ev_data (co_sleep c) = k \<and>
           worker_step N L (w, ph) TimerExpires (Some (w2, ph)) \<and> lua_runs N w1 w2 \<and> kept w1 = kept w - {k} \<and>
           w_lua w1 = w_lua w @ [(p, [LuaBool False, LuaStr (bytes_of ''timeout'')])]"
proof -
  have inv: "winv w" "results_ok (ph = Collected) w"
    using lua_laws.reachable_inv [OF assms(1,2)] by (simp_all add: sys_inv_def phase_ok_def)
  obtain s where s: "w_sctxs w k = Some s" "sctx_node s \<noteq> NULL" using assms(3) by (auto simp: kept_def)
  obtain c where c: "w_cos w (sctx_wait_co_ctx s) = Some c" "armed_for k (sctx_is_http s) c"
    using waits_okD(4) [OF winv_butD(2) [OF inv(1)] s] by blast
  then have timer: "ev_timer_set (co_sleep c)" "ev_handler (co_sleep c) = TimeoutHandler" "ev_data (co_sleep c) = k"
    by (simp_all add: armed_for_def)
  show ?thesis
  proof (rule lua_laws.timeout_handler_ok [OF assms(1) inv c(1) timer(1,2)], goal_cases)
    case (1 w1 w2)
    have "worker_step N L (w, ph) TimerExpires (Some (w2, ph))"
      using worker_step.timer [OF c(1) timer(1,2), of N L ph] 1(1) by simp
    with 1 c timer show ?case by auto
  qed
qed

theorem wait_always_ends_witness:
  "\<exists>w1 w2. worker_step list_api yielding_lua (ex_wait, Waiting) TimerExpires (Some (w2, Waiting)) \<and> lua_runs list_api w1 w2 \<and> kept w1 = {}"
  using wait_always_ends [OF yielding_lua_laws ex_reachable(2), of "0x5000"] by (auto simp: ex_kept)

text \<open>C3. The worker refines the machine of \<open>Abstract_Waits\<close>: every reachable state is reached by it from the state
  in which nobody waits, and every step of the worker (with all the Lua code it runs) is a run of it.  So a coroutine waits for at
  most one task and a task has at most one waiter, and a coroutine gets a value only while it waits and once
  per wait.\<close>

theorem worker_refines_waits:
  assumes "lua_laws N L" "reachable N L s"
  shows "waits_run (Map.empty, []) (abs_waits (fst s)) \<and>
         (\<forall>e s'. worker_step N L s e (Some s') \<longrightarrow> waits_run (abs_waits (fst s)) (abs_waits (fst s')))"
  using lua_laws.reachable_waits [OF assms] lua_laws.worker_step_waits [OF assms(1) _ refl lua_laws.reachable_inv [OF assms]]
  by blast

theorem worker_refines_waits_witness:
  "waits_run (Map.empty, []) (abs_waits ex_wait) \<and> waiting_for ex_wait 0x3000 = Some 0x5000"
  using worker_refines_waits [OF yielding_lua_laws ex_reachable(2)]
  by (simp add: waiting_for_def ex_sel(3) armed_def)

subsection \<open>A result that reaches the wrong call\<close>

text \<open>The identifier of a task is the address of its stream context, and contexts are used again.  In the
  example a unary call times out, a second coroutine starts another call, which gets the same context, and
  then the goroutine of the first call finishes.\<close>

definition ex_reused :: "worker option" where
  "ex_reused = do {
     w \<leftarrow> ngx_grpc_cli_timeout_handler list_api yielding_lua 0x5000
            (ex_wait\<lparr>w_cos := (w_cos ex_wait)(0x3000 \<mapsto> \<lparr>co_data = 0x5000, co_sleep = \<lparr>ev_handler = TimeoutHandler,
               ev_data = 0x5000, ev_timer_set = False, ev_timer = 60000\<rparr>, co_cleanup = HttpCleanup\<rparr>)\<rparr>);
     let w = w\<lparr>w_http := (w_http w)(0x2000 \<mapsto> ex_lctx\<lparr>cur_co_ctx := 0x3100\<rparr>)\<rparr>;
     (x, w) \<leftarrow> ngx_grpc_cli_new_stream list_api ex_env2 512 0x2000 True 0x1000 ''/s/n'' [2] ex_opt STREAM_TYPE_UNARY w;
     g \<leftarrow> run_goroutine ok_lib 0 (w_eng w);
     w \<leftarrow> ngx_grpc_cli_thread_handler ex_al 0x9000 (w\<lparr>w_eng := g\<rparr>);
     ngx_grpc_cli_thread_event_handler list_api ex_penv (w\<lparr>w_task_active := False\<rparr>) }"

lemma ex_call_reply: "Call ok_lib 0 ''/s/m'' [1] ex_go = Returns (Some [1], None)"
  by (simp add: Call_def ok_lib_def codec_Marshal_def decode_reply_eq)

lemmas ex_reused_eval = ex_reused_def ex_wait_def ex_states ngx_grpc_cli_timeout_handler_def ngx_grpc_cli_to_resume_def
  ngx_grpc_cli_unkeep_task_def attach_ctx_def ngx_http_grpc_cli_resume_def ngx_grpc_cli_put_res_def Let_def
  yielding_lua_def lua_push_def upd_queues_def spawn_def zero_sctx_def idle_co_def ex_run ex_go_eq ex_env2_def
  ex_penv_def ex_al_def run_goroutine_def call_body_def recovered_def ex_call_reply NewTaskQueue_def
  ngx_grpc_cli_thread_handler_def grpc_engine_wait_def taskQueue_Wait_eq ngx_grpc_cli_thread_event_handler_def
  finished_task_def ngx_grpc_cli_insert_posted_event_ctx_def read_task_res_single wait_result_def
  ngx_grpc_cli_task_num_def post_event_round_def ngx_grpc_cli_lookup_task_def disarm_wait_co_ctx_def push_res_def
  res_untag_alt res_type_def read_buf_def

text \<open>C34. The late result of a call that timed out is not always dropped: when its stream context was used again, the
  result is handed to the coroutine of the new call.  Here the second call, whose request is \<^verbatim>\<open>2\<close> and whose goroutine
  has not even run, gets the reply \<^verbatim>\<open>1\<close> of the first.\<close>

theorem stale_result_misdelivered:
  "\<exists>w. Option.bind ex_reused (ngx_grpc_cli_thread_post_event_handler list_api yielding_lua) = Some w \<and>
     w_lua w = [(0x3000, [LuaBool False, LuaStr (bytes_of ''timeout'')]), (0x3100, [LuaBool True, LuaStr [1]])] \<and>
     e_goroutines (w_eng w) = [GoCall 0x5000 0 ''/s/n'' [2] ex_go]"
proof -
  have "\<exists>u v w. ex_reused = Some u \<and> w_queues u ThOccupied \<noteq> [] \<and> post_event_round list_api u = Some (Some 0x5000, v) \<and>
     ngx_grpc_cli_to_resume list_api yielding_lua 0x5000 v = Some w \<and> w_queues w ThOccupied = [] \<and>
     w_lua w = [(0x3000, [LuaBool False, LuaStr (bytes_of ''timeout'')]), (0x3100, [LuaBool True, LuaStr [1]])] \<and>
     e_goroutines (w_eng w) = [GoCall 0x5000 0 ''/s/n'' [2] ex_go]"
    by (simp add: ex_reused_eval)
  then obtain u v w where run: "ex_reused = Some u" "w_queues u ThOccupied \<noteq> []"
    "post_event_round list_api u = Some (Some 0x5000, v)"
    "ngx_grpc_cli_to_resume list_api yielding_lua 0x5000 v = Some w" "w_queues w ThOccupied = []"
    and out: "w_lua w = [(0x3000, [LuaBool False, LuaStr (bytes_of ''timeout'')]), (0x3100, [LuaBool True, LuaStr [1]])]"
      "e_goroutines (w_eng w) = [GoCall 0x5000 0 ''/s/n'' [2] ex_go]"
    by blast
  note unfold = ngx_grpc_cli_thread_post_event_handler.simps
  have "ngx_grpc_cli_thread_post_event_handler list_api yielding_lua w = Some w"
    using run(5) by (subst unfold) (simp add: list_api_def)
  then have "ngx_grpc_cli_thread_post_event_handler list_api yielding_lua u = Some w"
    using run(2-4) by (subst unfold) (simp add: list_api_def)
  then have "Option.bind ex_reused (ngx_grpc_cli_thread_post_event_handler list_api yielding_lua) = Some w"
    unfolding run(1) bind.bind_lunit .
  with out show ?thesis by blast
qed

text \<open>C40. The known fault of a stream operation is real: there is a run of the worker after which a late result has told a coroutine that
  its new stream is open, although the goroutine that opens it has not run and the engine knows no such stream,
  and in which the next operation of the library on that stream, a recv, panics in the engine and kills the worker.\<close>

theorem stale_open_kills_worker:
  "\<exists>w. reachable list_api yielding_lua (w, Waiting) \<and>
     w_lua w = [(0x3000, [LuaBool False, LuaStr (bytes_of ''timeout'')]), (0x3100, [LuaBool True, LuaStr [1]])] \<and>
     e_goroutines (w_eng w) = [GoNewStream 0x5000 0 ''/s/n'' [2] ex_go 3] \<and>
     open_stream w 0x5000 \<and> StreamRef (w_eng w) 0x5000 = None \<and>
     ngx_grpc_cli_stream_recv list_api sr_env 512 0x2000 0x5000 ex_opt w = None \<and>
     worker_step list_api yielding_lua (w, Waiting) (LibCall (StreamOp 0x5000)) None"
proof (intro exI [of _ sr7] conjI)
  show "reachable list_api yielding_lua (sr7, Waiting)" by (rule sr_reachable)
  show "ngx_grpc_cli_stream_recv list_api sr_env 512 0x2000 0x5000 ex_opt sr7 = None" by (rule sr_recv_run)
  show "worker_step list_api yielding_lua (sr7, Waiting) (LibCall (StreamOp 0x5000)) None"
    using worker_step.client [OF sr_recv_call, of yielding_lua Waiting] by (simp add: sr_recv_run)
qed (simp_all add: sr7_def sr6_def sr_timeout_def sr_eng_def sr_open_def ex_idle_def engine_init_def open_stream_def
    ex_sctx_def zero_sctx_def)

end
